(* ===== verification/Prelude.thy ===== *)
theory Prelude
  imports Main "HOL-Library.Word" "HOL-Library.AList"
begin

text \<open>
  Shared vocabulary of the development: the theorem collections the component
  theories feed, the Python exception values every fallible operation returns,
  Python's slicing and \<open>str.count\<close> on lists, and the generic list lemmas the
  components share.
\<close>

named_theorems py_simps "equations of the Python built-in helpers, for evaluation"
named_theorems dir_simps "facts about the output directory as an association list"

section \<open>Bytes and Python exceptions\<close>

type_synonym byte = "8 word"

text \<open>
  The exceptions that can escape an operation of \<^verbatim>\<open>gitingest_manager.py\<close>.
  \<open>FileNotFoundError\<close>, \<open>PermissionError\<close> and \<open>OSError\<close> are the
  failures to start a subprocess (the binary is missing, not executable, or
  another \<^verbatim>\<open>OSError\<close>), \<open>JSONDecodeError\<close> for \<^verbatim>\<open>json.load\<close> on a malformed log, \<open>AttributeError\<close> for a method called on a value of the wrong type.
\<close>

datatype py_exc =
    KeyError
  | TypeError
  | ValueError
  | IndexError
  | FileNotFoundError
  | PermissionError
  | OSError
  | UnicodeDecodeError
  | OverflowError
  | JSONDecodeError
  | AttributeError

section \<open>Python slicing\<close>

text \<open>
  \<^verbatim>\<open>xs[k:]\<close> for an integer \<open>k\<close>: a negative start counts from the end and is
  clipped at 0, a start beyond the end gives the empty list.
\<close>

definition py_slice_from :: "int \<Rightarrow> 'a list \<Rightarrow> 'a list" where
  "py_slice_from k xs =
     drop (nat (if k < 0 then max 0 (int (length xs) + k) else k)) xs"

section \<open>Prefixes and \<open>str.count\<close>\<close>

fun starts_with :: "'a list \<Rightarrow> 'a list \<Rightarrow> bool" where
  "starts_with xs [] = True"
| "starts_with [] (p # ps) = False"
| "starts_with (x # xs) (p # ps) = (x = p \<and> starts_with xs ps)"

text \<open>
  \<^verbatim>\<open>s.count(sub)\<close> for a non-empty \<open>sub\<close>: scan from the left and, at each
  match, resume after it, so that matches never overlap.
\<close>

fun count_occ_aux :: "'a list \<Rightarrow> 'a list \<Rightarrow> nat" where
  "count_occ_aux p [] = 0"
| "count_occ_aux p (x # xs) =
     (if p \<noteq> [] \<and> starts_with (x # xs) p
      then Suc (count_occ_aux p (drop (length p - 1) xs))
      else count_occ_aux p xs)"

definition count_occ :: "'a list \<Rightarrow> 'a list \<Rightarrow> nat" where
  "count_occ p s = (if p = [] then Suc (length s) else count_occ_aux p s)"

section \<open>Python slicing\<close>

lemma py_slice_from_nonneg [simp]:
  "0 \<le> k \<Longrightarrow> py_slice_from k xs = drop (nat k) xs"
  by (simp add: py_slice_from_def)

lemma py_slice_from_neg:
  "k < 0 \<Longrightarrow> py_slice_from k xs = drop (length xs - nat (- k)) xs"
proof -
  assume "k < 0"
  then have "nat (max 0 (int (length xs) + k)) = length xs - nat (- k)"
    by (simp add: max_def) arith
  with \<open>k < 0\<close> show ?thesis by (simp add: py_slice_from_def)
qed

lemma length_py_slice_from_le: "length (py_slice_from k xs) \<le> length xs"
  by (simp add: py_slice_from_def)

section \<open>Prefixes and \<open>str.count\<close>\<close>

lemma starts_with_iff [py_simps]: "starts_with xs p \<longleftrightarrow> take (length p) xs = p"
  by (induction xs p rule: starts_with.induct) auto

lemma starts_with_append [simp]: "starts_with (p @ ys) p"
  by (simp add: starts_with_iff)

lemma count_occ_aux_le: "count_occ_aux p s \<le> length s"
  by (induction p s rule: count_occ_aux.induct) (auto simp: le_SucI)

lemma count_occ_aux_no_match:
  "(\<forall>i < length s. \<not> starts_with (drop i s) p) \<Longrightarrow> count_occ_aux p s = 0"
proof (induction p s rule: count_occ_aux.induct)
  case (1 p)
  then show ?case by simp
next
  case (2 p x xs)
  from "2.prems" have h: "\<not> starts_with (x # xs) p" by (metis drop0 length_Cons zero_less_Suc)
  from "2.prems" have "\<forall>i < length xs. \<not> starts_with (drop i xs) p"
    by (metis Suc_mono drop_Suc_Cons length_Cons)
  with h "2.IH"(2) show ?case by simp
qed

end
