(* ===== verification/PyStr.thy ===== *)
theory PyStr
  imports Prelude
begin

text \<open>
  The Python \<open>str\<close> built-ins the program relies on, over Isabelle strings.
  An Isabelle \<open>char\<close> is read as the Unicode code point 0--255 (Latin-1), so the
  whitespace classes below are those of CPython's \<^verbatim>\<open>str.isspace\<close> restricted to
  that range. \<^verbatim>\<open>str.split()\<close>, \<^verbatim>\<open>str.strip()\<close>, \<^verbatim>\<open>int(s)\<close>, \<^verbatim>\<open>str(n)\<close>,
  \<^verbatim>\<open>s.split(c)\<close>, \<^verbatim>\<open>startswith\<close>, \<^verbatim>\<open>endswith\<close> and \<^verbatim>\<open>in\<close> are modelled;
  the lemmas give the roundtrip \<^verbatim>\<open>int(str(n)) == n\<close>, \<^verbatim>\<open>s.strip().split() == s.split()\<close>
  and the first field of \<^verbatim>\<open>s.split(c)\<close>.
\<close>

section \<open>Whitespace, \<open>strip\<close> and \<open>split()\<close>\<close>

definition py_isspace :: "char \<Rightarrow> bool" where
  "py_isspace c =
     (let n = (of_char c :: nat)
      in (9 \<le> n \<and> n \<le> 13) \<or> (28 \<le> n \<and> n \<le> 32) \<or> n = 133 \<or> n = 160)"

definition py_strip :: "string \<Rightarrow> string" where
  "py_strip s = rev (dropWhile py_isspace (rev (dropWhile py_isspace s)))"

function py_split_ws :: "string \<Rightarrow> string list" where
  "py_split_ws s =
     (let t = dropWhile py_isspace s
      in if t = [] then []
         else takeWhile (\<lambda>c. \<not> py_isspace c) t
              # py_split_ws (dropWhile (\<lambda>c. \<not> py_isspace c) t))"
  by pat_completeness auto
termination
proof (relation "measure length")
  fix s t
  assume t: "t = dropWhile py_isspace s" and ne: "t \<noteq> []"
  then obtain c u where tc: "t = c # u" and c: "\<not> py_isspace c"
    by (metis (full_types) dropWhile_eq_Cons_conv neq_Nil_conv)
  have "length (dropWhile (\<lambda>c. \<not> py_isspace c) t) \<le> length u"
    using tc c by (simp add: length_dropWhile_le)
  also have "length u < length t" using tc by simp
  also have "length t \<le> length s" using t by (simp add: length_dropWhile_le)
  finally show "(dropWhile (\<lambda>c. \<not> py_isspace c) t, s) \<in> measure length" by simp
qed simp

declare py_split_ws.simps [simp del]

section \<open>\<open>str(n)\<close> and \<open>int(s)\<close>\<close>

definition digit_char :: "nat \<Rightarrow> char" where
  "digit_char d = char_of (48 + d)"

definition digit_val :: "char \<Rightarrow> nat option" where
  "digit_val c =
     (let n = (of_char c :: nat) in if 48 \<le> n \<and> n \<le> 57 then Some (n - 48) else None)"

fun str_nat :: "nat \<Rightarrow> string" where
  "str_nat n = (if n < 10 then [digit_char n] else str_nat (n div 10) @ [digit_char (n mod 10)])"

declare str_nat.simps [simp del]

text \<open>\<^verbatim>\<open>str(n)\<close>: the decimal digits, with a minus sign for a negative number.\<close>

definition py_str_int :: "int \<Rightarrow> string" where
  "py_str_int i = (if i < 0 then CHR ''-'' # str_nat (nat (- i)) else str_nat (nat i))"

text \<open>
  CPython 3.11 limits the conversions between \<open>int\<close> and decimal strings to
  \<^verbatim>\<open>sys.get_int_max_str_digits()\<close> digits, 4300 by default: \<^verbatim>\<open>str(n)\<close>,
  \<^verbatim>\<open>format(n, ',')\<close> and f-strings of a number with more digits (the sign not
  counted) raise \<^verbatim>\<open>ValueError\<close>, and so does \<^verbatim>\<open>int(s)\<close> on a string with
  more digit characters (leading zeros counted; sign, whitespace and
  underscores not). \<open>str_int_ok\<close> is the condition under which \<^verbatim>\<open>str(n)\<close>
  returns.
\<close>

definition max_str_digits :: nat where
  "max_str_digits = 4300"

definition str_int_ok :: "int \<Rightarrow> bool" where
  "str_int_ok i = (length (str_nat (nat \<bar>i\<bar>)) \<le> max_str_digits)"

definition digit_count :: "string \<Rightarrow> nat" where
  "digit_count s = length (filter (\<lambda>c. digit_val c \<noteq> None) s)"

text \<open>
  \<^verbatim>\<open>int(s)\<close> in base 10: surrounding whitespace is ignored, an optional sign,
  then at least one digit, where single underscores may separate digits, and
  at most \<open>max_str_digits\<close> digits. Anything else raises \<^verbatim>\<open>ValueError\<close>, the
  value \<open>None\<close> here.
\<close>

fun parse_digits :: "nat \<Rightarrow> string \<Rightarrow> nat option" where
  "parse_digits acc [] = Some acc"
| "parse_digits acc (c # cs) =
     (case digit_val c of
        Some d \<Rightarrow> parse_digits (10 * acc + d) cs
      | None \<Rightarrow>
          (if c = CHR ''_'' then
             (case cs of
                [] \<Rightarrow> None
              | e # es \<Rightarrow>
                  (case digit_val e of
                     Some d \<Rightarrow> parse_digits (10 * acc + d) es
                   | None \<Rightarrow> None))
           else None))"

definition py_uint :: "string \<Rightarrow> nat option" where
  "py_uint s =
     (case s of
        [] \<Rightarrow> None
      | c # cs \<Rightarrow> (case digit_val c of Some d \<Rightarrow> parse_digits d cs | None \<Rightarrow> None))"

definition py_int :: "string \<Rightarrow> int option" where
  "py_int s =
     (let t = py_strip s
      in if max_str_digits < digit_count t then None
         else case t of
           [] \<Rightarrow> None
         | c # r \<Rightarrow>
             (if c = CHR ''-'' then map_option (\<lambda>n. - int n) (py_uint r)
              else if c = CHR ''+'' then map_option int (py_uint r)
              else map_option int (py_uint t)))"

subsection \<open>The roundtrip \<open>int(str(n)) = n\<close>\<close>

definition digits_value :: "nat \<Rightarrow> string \<Rightarrow> nat" where
  "digits_value acc cs = foldl (\<lambda>a c. 10 * a + the (digit_val c)) acc cs"

section \<open>\<open>s.split(c)\<close>, \<open>endswith\<close> and \<open>in\<close>\<close>

text \<open>\<^verbatim>\<open>s.split(c)\<close> for a one-character separator: empty fields are kept.\<close>

fun py_split_char :: "char \<Rightarrow> string \<Rightarrow> string list" where
  "py_split_char c [] = [[]]"
| "py_split_char c (x # xs) =
     (let r = py_split_char c xs in if x = c then [] # r else (x # hd r) # tl r)"

definition py_endswith :: "string \<Rightarrow> string \<Rightarrow> bool" where
  "py_endswith s suf = (length suf \<le> length s \<and> drop (length s - length suf) s = suf)"

text \<open>\<^verbatim>\<open>needle in hay\<close>: a contiguous occurrence.\<close>

fun py_in :: "string \<Rightarrow> string \<Rightarrow> bool" where
  "py_in p [] = (p = [])"
| "py_in p (x # xs) = (starts_with (x # xs) p \<or> py_in p xs)"

section \<open>Whitespace, \<open>strip\<close> and \<open>split()\<close>\<close>

text \<open>Every field of \<^verbatim>\<open>split()\<close> is a non-empty run without whitespace.\<close>

lemma py_split_ws_fields:
  "w \<in> set (py_split_ws s) \<Longrightarrow> w \<noteq> [] \<and> (\<forall>c \<in> set w. \<not> py_isspace c)"
proof (induction s rule: py_split_ws.induct)
  case (1 s)
  let ?t = "dropWhile py_isspace s"
  show ?case
  proof (cases "?t = []")
    case True
    with "1.prems" show ?thesis by (simp add: py_split_ws.simps [of s])
  next
    case False
    then obtain c u where tc: "?t = c # u" and c: "\<not> py_isspace c"
      by (metis (full_types) dropWhile_eq_Cons_conv neq_Nil_conv)
    from "1.prems" False
    have "w = takeWhile (\<lambda>c. \<not> py_isspace c) ?t
          \<or> w \<in> set (py_split_ws (dropWhile (\<lambda>c. \<not> py_isspace c) ?t))"
      by (simp add: py_split_ws.simps [of s] Let_def split: if_split_asm)
    then show ?thesis
    proof
      assume "w = takeWhile (\<lambda>c. \<not> py_isspace c) ?t"
      with tc c show ?thesis by (auto dest: set_takeWhileD)
    next
      assume "w \<in> set (py_split_ws (dropWhile (\<lambda>c. \<not> py_isspace c) ?t))"
      with "1.IH" False show ?thesis by simp
    qed
  qed
qed

text \<open>
  \<^verbatim>\<open>split()\<close> of a string that starts with a run of non-blank characters
  followed by whitespace or the end returns that run first.
\<close>

lemma py_split_ws_Cons:
  assumes "w \<noteq> []" and "\<forall>c \<in> set w. \<not> py_isspace c"
    and "rest = [] \<or> py_isspace (hd rest)"
  shows "py_split_ws (w @ rest) = w # py_split_ws rest"
proof -
  obtain c u where w: "w = c # u" using assms(1) by (cases w) auto
  have nsp: "\<not> py_isspace c" using assms(2) w by simp
  have d1: "dropWhile py_isspace (w @ rest) = w @ rest"
    using nsp w by simp
  have tw: "takeWhile (\<lambda>c. \<not> py_isspace c) (w @ rest) = w"
    using assms(2,3) by (cases rest) (auto simp: takeWhile_append2)
  have dw: "dropWhile (\<lambda>c. \<not> py_isspace c) (w @ rest) = rest"
    using assms(2,3) by (cases rest) (auto simp: dropWhile_append2)
  have "py_split_ws (w @ rest) =
    (let t = dropWhile py_isspace (w @ rest)
     in if t = [] then []
        else takeWhile (\<lambda>c. \<not> py_isspace c) t
             # py_split_ws (dropWhile (\<lambda>c. \<not> py_isspace c) t))"
    by (rule py_split_ws.simps)
  also have "\<dots> = w # py_split_ws rest"
    using assms(1) by (simp only: d1 tw dw Let_def) simp
  finally show ?thesis .
qed

text \<open>Trailing whitespace does not change \<^verbatim>\<open>split()\<close>, and neither does \<^verbatim>\<open>strip()\<close>.\<close>

lemma py_split_ws_dropWhile: "py_split_ws (dropWhile py_isspace s) = py_split_ws s"
  by (simp add: py_split_ws.simps [of s] py_split_ws.simps [of "dropWhile py_isspace s"])

lemma py_split_ws_all_space: "\<forall>c \<in> set w. py_isspace c \<Longrightarrow> py_split_ws w = []"
  by (simp add: py_split_ws.simps [of w])

lemma py_split_ws_append_space:
  assumes "\<forall>c \<in> set w. py_isspace c"
  shows "py_split_ws (s @ w) = py_split_ws s"
  using assms
proof (induction s rule: py_split_ws.induct)
  case (1 s)
  let ?t = "dropWhile py_isspace s"
  let ?P = "\<lambda>c. \<not> py_isspace c"
  show ?case
  proof (cases "?t = []")
    case True
    then have "dropWhile py_isspace (s @ w) = []" using "1.prems" by simp
    with True show ?thesis by (simp add: py_split_ws.simps [of s] py_split_ws.simps [of "s @ w"])
  next
    case False
    have t: "dropWhile py_isspace (s @ w) = ?t @ w"
      using False by (force intro: dropWhile_append1)
    show ?thesis
    proof (cases "\<forall>c \<in> set ?t. ?P c")
      case True
      have tw: "takeWhile ?P (?t @ w) = ?t"
        using True "1.prems" by (cases w) (auto simp: takeWhile_append2)
      have dw: "dropWhile ?P (?t @ w) = w"
        using True "1.prems" by (cases w) (auto simp: dropWhile_append2)
      have d0: "dropWhile ?P ?t = []" using True by simp
      have tw0: "takeWhile ?P ?t = ?t" using True by simp
      show ?thesis using False
        by (simp add: py_split_ws.simps [of s] py_split_ws.simps [of "s @ w"] t tw dw d0 tw0
            py_split_ws_all_space [OF "1.prems"] py_split_ws_all_space [of "[]"] Let_def)
    next
      case notall: False
      have tw: "takeWhile ?P (?t @ w) = takeWhile ?P ?t"
        using notall by (force intro: takeWhile_append1)
      have dw: "dropWhile ?P (?t @ w) = dropWhile ?P ?t @ w"
        using notall by (force intro: dropWhile_append1)
      have ih: "py_split_ws (dropWhile ?P ?t @ w) = py_split_ws (dropWhile ?P ?t)"
        using "1.IH" [of ?t] False "1.prems" by simp
      show ?thesis using False
        by (simp add: py_split_ws.simps [of s] py_split_ws.simps [of "s @ w"] t tw dw ih Let_def)
    qed
  qed
qed

theorem py_split_ws_strip: "py_split_ws (py_strip s) = py_split_ws s"
proof -
  let ?u = "dropWhile py_isspace s"
  have u: "?u = rev (dropWhile py_isspace (rev ?u)) @ rev (takeWhile py_isspace (rev ?u))"
    by (metis rev_append rev_rev_ident takeWhile_dropWhile_id)
  have sp: "\<forall>c \<in> set (rev (takeWhile py_isspace (rev ?u))). py_isspace c"
    by (auto dest: set_takeWhileD)
  have "py_split_ws s = py_split_ws ?u" by (simp add: py_split_ws_dropWhile)
  also have "\<dots> = py_split_ws (rev (dropWhile py_isspace (rev ?u)))"
    by (subst u) (rule py_split_ws_append_space [OF sp])
  finally show ?thesis by (simp add: py_strip_def)
qed

section \<open>\<open>str(n)\<close> and \<open>int(s)\<close>\<close>

lemma digit_char_numerals [py_simps]:
  "digit_char 0 = CHR ''0''" "digit_char 1 = CHR ''1''" "digit_char 2 = CHR ''2''"
  "digit_char 3 = CHR ''3''" "digit_char 4 = CHR ''4''" "digit_char 5 = CHR ''5''"
  "digit_char 6 = CHR ''6''" "digit_char 7 = CHR ''7''" "digit_char 8 = CHR ''8''"
  "digit_char 9 = CHR ''9''" "digit_char (Suc 0) = CHR ''1''"
  by (simp_all add: digit_char_def char_of_eq_iff)

lemma digit_val_digit_char [simp]: "d < 10 \<Longrightarrow> digit_val (digit_char d) = Some d"
  by (simp add: digit_val_def digit_char_def of_char_of)

subsection \<open>The roundtrip \<open>int(str(n)) = n\<close>\<close>

lemma of_char_digit_char: "d < 10 \<Longrightarrow> (of_char (digit_char d) :: nat) = 48 + d"
  by (simp add: digit_char_def of_char_of)

lemma digit_char_not_space [simp]: "d < 10 \<Longrightarrow> \<not> py_isspace (digit_char d)"
  by (simp add: py_isspace_def of_char_digit_char)

lemma digit_char_not_sign [simp]:
  "d < 10 \<Longrightarrow> digit_char d \<noteq> CHR ''-''" "d < 10 \<Longrightarrow> digit_char d \<noteq> CHR ''+''"
  by (auto dest!: arg_cong [where f = "of_char :: char \<Rightarrow> nat"] simp: of_char_digit_char)

lemma str_nat_digits: "c \<in> set (str_nat n) \<Longrightarrow> c \<in> digit_char ` {..<10}"
  by (induction n rule: str_nat.induct) (subst (asm) str_nat.simps, auto split: if_splits)

lemma str_nat_Cons: "\<exists>d cs. d < 10 \<and> str_nat n = digit_char d # cs"
proof (induction n rule: str_nat.induct)
  case (1 n)
  show ?case
  proof (cases "n < 10")
    case True
    then show ?thesis by (subst str_nat.simps) auto
  next
    case False
    with "1.IH" obtain d cs where "d < 10" "str_nat (n div 10) = digit_char d # cs" by blast
    with False show ?thesis by (subst str_nat.simps) auto
  qed
qed

lemma str_nat_value: "digits_value acc (str_nat n) = acc * 10 ^ length (str_nat n) + n"
proof (induction n arbitrary: acc rule: str_nat.induct)
  case (1 n)
  show ?case
  proof (cases "n < 10")
    case True
    then show ?thesis by (subst (1 2) str_nat.simps) (simp add: digits_value_def)
  next
    case False
    have "digits_value acc (str_nat n)
          = 10 * digits_value acc (str_nat (n div 10)) + n mod 10"
      using False by (subst str_nat.simps) (simp add: digits_value_def)
    also have "\<dots> = acc * 10 ^ Suc (length (str_nat (n div 10))) + n"
      using "1.IH" False by (simp add: algebra_simps)
    also have "Suc (length (str_nat (n div 10))) = length (str_nat n)"
      using False by (subst (2) str_nat.simps) simp
    finally show ?thesis .
  qed
qed

lemma parse_digits_all_digits:
  "\<forall>c \<in> set cs. digit_val c \<noteq> None \<Longrightarrow> parse_digits acc cs = Some (digits_value acc cs)"
  by (induction cs arbitrary: acc) (auto simp: digits_value_def)

lemma py_strip_no_space:
  assumes "\<forall>c \<in> set s. \<not> py_isspace c"
  shows "py_strip s = s"
proof -
  have "dropWhile py_isspace s = s" using assms by (cases s) auto
  moreover have "dropWhile py_isspace (rev s) = rev s" using assms by (cases "rev s") auto
  ultimately show ?thesis by (simp add: py_strip_def)
qed

lemma py_uint_str_nat: "py_uint (str_nat n) = Some n"
proof -
  obtain d cs where d: "d < 10" and s: "str_nat n = digit_char d # cs"
    using str_nat_Cons by blast
  have all: "\<forall>c \<in> set cs. digit_val c \<noteq> None"
    using s str_nat_digits [of _ n] by fastforce
  have "digits_value 0 (str_nat n) = n" by (simp add: str_nat_value)
  then have "digits_value d cs = n" using s d by (simp add: digits_value_def)
  then show ?thesis using s d all by (simp add: py_uint_def parse_digits_all_digits)
qed

lemma py_str_int_no_space: "c \<in> set (py_str_int i) \<Longrightarrow> \<not> py_isspace c"
proof -
  assume c: "c \<in> set (py_str_int i)"
  have "\<not> py_isspace CHR ''-''" by (simp add: py_isspace_def)
  with c show ?thesis
    by (auto simp: py_str_int_def split: if_splits dest!: str_nat_digits)
qed

lemma py_str_int_nonempty [simp]: "py_str_int i \<noteq> []"
  using str_nat_Cons [of "nat i"] by (auto simp: py_str_int_def)

lemma digit_count_py_str_int: "digit_count (py_str_int i) = length (str_nat (nat \<bar>i\<bar>))"
proof -
  have "\<forall>c \<in> set (str_nat n). digit_val c \<noteq> None" for n by (auto dest!: str_nat_digits)
  then have "digit_count (str_nat n) = length (str_nat n)" for n
    by (simp add: digit_count_def filter_True del: not_None_eq)
  moreover have "digit_val CHR ''-'' = None" by (simp add: digit_val_def)
  ultimately show ?thesis by (simp add: py_str_int_def digit_count_def)
qed

lemma length_str_nat_le: "0 < k \<Longrightarrow> length (str_nat n) \<le> k \<longleftrightarrow> n < 10 ^ k"
proof (induction n arbitrary: k rule: str_nat.induct)
  case (1 n)
  show ?case
  proof (cases "n < 10")
    case True
    moreover have "(10::nat) \<le> 10 ^ k" using "1.prems" by (cases k) simp_all
    ultimately show ?thesis using "1.prems" by (subst str_nat.simps) simp
  next
    case False
    then have len: "length (str_nat n) = Suc (length (str_nat (n div 10)))" by (subst str_nat.simps) simp
    show ?thesis
    proof (cases k)
      case (Suc j)
      show ?thesis
      proof (cases j)
        case 0
        then show ?thesis using False Suc len str_nat_Cons [of "n div 10"] by auto
      next
        case (Suc j')
        then have "length (str_nat (n div 10)) \<le> j \<longleftrightarrow> n div 10 < 10 ^ j" using "1.IH" False by simp
        moreover have "n div 10 < 10 ^ j \<longleftrightarrow> n < 10 ^ Suc j" by (simp add: div_less_iff_less_mult mult.commute)
        ultimately show ?thesis using \<open>k = Suc j\<close> len by simp
      qed
    qed (use "1.prems" in simp)
  qed
qed

lemma str_int_ok_iff: "str_int_ok i \<longleftrightarrow> \<bar>i\<bar> < 10 ^ max_str_digits"
proof -
  have "length (str_nat (nat \<bar>i\<bar>)) \<le> max_str_digits \<longleftrightarrow> nat \<bar>i\<bar> < 10 ^ max_str_digits"
    by (rule length_str_nat_le) (simp add: max_str_digits_def)
  also have "\<dots> \<longleftrightarrow> \<bar>i\<bar> < 10 ^ max_str_digits" by (simp add: nat_less_iff)
  finally show ?thesis by (simp add: str_int_ok_def)
qed

lemma str_int_ok_below: "\<bar>i\<bar> < 10 ^ k \<Longrightarrow> k \<le> max_str_digits \<Longrightarrow> str_int_ok i"
proof -
  assume i: "\<bar>i\<bar> < 10 ^ k" and k: "k \<le> max_str_digits"
  have "(10::int) ^ k \<le> 10 ^ max_str_digits" using k by (rule power_increasing) simp
  with i have "\<bar>i\<bar> < 10 ^ max_str_digits" by (rule less_le_trans)
  then show ?thesis by (simp only: str_int_ok_iff)
qed

lemma py_int_py_str_int_over: "\<not> str_int_ok i \<Longrightarrow> py_int (py_str_int i) = None"
proof -
  assume "\<not> str_int_ok i"
  then have "max_str_digits < digit_count (py_str_int i)"
    by (simp add: str_int_ok_def digit_count_py_str_int)
  moreover have "py_strip (py_str_int i) = py_str_int i"
    by (rule py_strip_no_space) (auto dest: py_str_int_no_space)
  ultimately show ?thesis by (simp add: py_int_def)
qed

theorem py_int_py_str_int [simp]: "str_int_ok i \<Longrightarrow> py_int (py_str_int i) = Some i"
proof -
  assume ok: "str_int_ok i"
  have strip: "py_strip (py_str_int i) = py_str_int i"
    by (rule py_strip_no_space) (auto dest: py_str_int_no_space)
  have lim: "\<not> max_str_digits < digit_count (py_str_int i)"
    using ok by (simp add: str_int_ok_def digit_count_py_str_int)
  obtain d cs where d: "d < 10" and s: "str_nat (nat (if i < 0 then - i else i)) = digit_char d # cs"
    using str_nat_Cons by blast
  show ?thesis
  proof (cases "i < 0")
    case True
    with strip lim show ?thesis by (simp add: py_int_def py_str_int_def py_uint_str_nat)
  next
    case False
    with strip lim s d show ?thesis
      by (simp add: py_int_def py_str_int_def) (metis py_uint_str_nat nat_0_le not_less)
  qed
qed

section \<open>\<open>s.split(c)\<close>, \<open>endswith\<close> and \<open>in\<close>\<close>

lemma py_split_char_nonempty [simp]: "py_split_char c s \<noteq> []"
  by (cases s) (simp_all add: Let_def)

lemma hd_py_split_char [simp]: "hd (py_split_char c s) = takeWhile (\<lambda>x. x \<noteq> c) s"
  by (induction s) (simp_all add: Let_def)

lemma py_split_char_append_sep:
  "c \<notin> set a \<Longrightarrow> py_split_char c (a @ c # b) = a # py_split_char c b"
  by (induction a) (auto simp: Let_def)

lemma py_split_char_no_sep: "c \<notin> set s \<Longrightarrow> py_split_char c s = [s]"
proof (induction s)
  case Nil
  then show ?case by simp
next
  case (Cons x s)
  then show ?case by (auto simp: Let_def)
qed

lemma py_endswith_append [simp]: "py_endswith (a @ suf) suf"
  by (simp add: py_endswith_def)

lemma py_in_append_middle: "py_in p (a @ p @ b)"
proof (induction a)
  case Nil
  have "starts_with (p @ b) p" by simp
  then show ?case by (cases "p @ b") auto
next
  case (Cons x a)
  then show ?case by simp
qed

end
