(* ===== verification/Utf8.thy ===== *)
theory Utf8
  imports Prelude
begin

text \<open>
  Reading a text file as \<^verbatim>\<open>open(path, 'r', encoding='utf-8').read()\<close> does:
  the bytes are decoded by CPython's strict UTF-8 codec (the first ill-formed
  sequence raises \<^verbatim>\<open>UnicodeDecodeError\<close>) and the text goes through universal
  newline translation (\<^verbatim>\<open>\r\n\<close> and a lone \<^verbatim>\<open>\r\<close> become \<^verbatim>\<open>\n\<close>). Code points are
  natural numbers. The lemmas show that the decoder inverts the standard encoder
  on Unicode scalar values and accepts nothing else (so decoding and encoding
  are equivalent descriptions of well-formed UTF-8), that ASCII is decoded byte
  for byte, that text without carriage returns is read back as written, and
  what the newline translation does to the length.
\<close>

section \<open>The strict UTF-8 decoder\<close>

definition is_cont :: "nat \<Rightarrow> bool" where
  "is_cont b = (128 \<le> b \<and> b < 192)"

text \<open>
  The well-formed sequences of the Unicode standard (table 3-7), which are the
  ones CPython accepts: no overlong forms (\<open>C0\<close>, \<open>C1\<close>, \<open>E0 80..9F\<close>,
  \<open>F0 80..8F\<close>), no surrogates (\<open>ED A0..BF\<close>), nothing above \<open>U+10FFFF\<close>.
\<close>

fun utf8_decode :: "byte list \<Rightarrow> nat list option" where
  "utf8_decode [] = Some []"
| "utf8_decode (x # xs) =
     (let b0 = unat x in
      if b0 < 128 then map_option (Cons b0) (utf8_decode xs)
      else if 194 \<le> b0 \<and> b0 < 224 then
        (case xs of
           y # ys \<Rightarrow>
             if is_cont (unat y)
             then map_option (Cons ((b0 - 192) * 64 + (unat y - 128))) (utf8_decode ys)
             else None
         | [] \<Rightarrow> None)
      else if 224 \<le> b0 \<and> b0 < 240 then
        (case xs of
           y # z # zs \<Rightarrow>
             (let b1 = unat y; b2 = unat z in
              if (if b0 = 224 then 160 \<le> b1 \<and> b1 < 192
                  else if b0 = 237 then 128 \<le> b1 \<and> b1 < 160
                  else is_cont b1) \<and> is_cont b2
              then map_option (Cons ((b0 - 224) * 4096 + (b1 - 128) * 64 + (b2 - 128)))
                     (utf8_decode zs)
              else None)
         | _ \<Rightarrow> None)
      else if 240 \<le> b0 \<and> b0 < 245 then
        (case xs of
           y # z # w # ws \<Rightarrow>
             (let b1 = unat y; b2 = unat z; b3 = unat w in
              if (if b0 = 240 then 144 \<le> b1 \<and> b1 < 192
                  else if b0 = 244 then 128 \<le> b1 \<and> b1 < 144
                  else is_cont b1) \<and> is_cont b2 \<and> is_cont b3
              then map_option
                     (Cons ((b0 - 240) * 262144 + (b1 - 128) * 4096 + (b2 - 128) * 64 + (b3 - 128)))
                     (utf8_decode ws)
              else None)
         | _ \<Rightarrow> None)
      else None)"

section \<open>Universal newlines\<close>

fun nl_translate :: "nat list \<Rightarrow> nat list" where
  "nl_translate [] = []"
| "nl_translate [x] = [if x = 13 then 10 else x]"
| "nl_translate (x # y # zs) =
     (if x = 13 \<and> y = 10 then 10 # nl_translate zs
      else (if x = 13 then 10 else x) # nl_translate (y # zs))"

text \<open>\<^verbatim>\<open>f.read()\<close> on a file opened in text mode with encoding UTF-8.\<close>

definition read_text :: "byte list \<Rightarrow> py_exc + nat list" where
  "read_text bs =
     (case utf8_decode bs of None \<Rightarrow> Inl UnicodeDecodeError | Some cs \<Rightarrow> Inr (nl_translate cs))"

section \<open>The reference encoder\<close>

text \<open>
  The reference encoder of the Unicode standard, used only to state what the
  decoder accepts: a scalar value is a code point below \<open>U+110000\<close> that is
  not a surrogate.
\<close>

definition utf8_scalar :: "nat \<Rightarrow> bool" where
  "utf8_scalar c = (c < 1114112 \<and> \<not> (55296 \<le> c \<and> c < 57344))"

definition utf8_encode_cp :: "nat \<Rightarrow> byte list" where
  "utf8_encode_cp c =
     (if c < 128 then [of_nat c]
      else if c < 2048 then [of_nat (192 + c div 64), of_nat (128 + c mod 64)]
      else if c < 65536 then
        [of_nat (224 + c div 4096), of_nat (128 + c div 64 mod 64), of_nat (128 + c mod 64)]
      else
        [of_nat (240 + c div 262144), of_nat (128 + c div 4096 mod 64),
         of_nat (128 + c div 64 mod 64), of_nat (128 + c mod 64)])"

definition utf8_encode :: "nat list \<Rightarrow> byte list" where
  "utf8_encode cs = concat (map utf8_encode_cp cs)"

section \<open>Properties of the decoder\<close>

text \<open>Bytes below 128 decode one by one to themselves.\<close>

lemma utf8_decode_ascii:
  "\<forall>b \<in> set bs. unat b < 128 \<Longrightarrow> utf8_decode bs = Some (map unat bs)"
  by (induction bs) simp_all

lemma unat_of_nat_byte [simp]: "n < 256 \<Longrightarrow> unat (of_nat n :: byte) = n"
  by (simp add: unat_of_nat)

text \<open>One decoding step per sequence length, stated on the byte values.\<close>

lemma utf8_decode_2:
  "unat x = b0 \<Longrightarrow> 194 \<le> b0 \<Longrightarrow> b0 < 224 \<Longrightarrow> unat y = b1 \<Longrightarrow> is_cont b1 \<Longrightarrow>
   utf8_decode (x # y # rest) = map_option (Cons ((b0 - 192) * 64 + (b1 - 128))) (utf8_decode rest)"
  by (simp add: Let_def)

lemma utf8_decode_3:
  "unat x = b0 \<Longrightarrow> 224 \<le> b0 \<Longrightarrow> b0 < 240 \<Longrightarrow> unat y = b1 \<Longrightarrow> unat z = b2 \<Longrightarrow>
   (if b0 = 224 then 160 \<le> b1 \<and> b1 < 192 else if b0 = 237 then 128 \<le> b1 \<and> b1 < 160
    else is_cont b1) \<Longrightarrow>
   is_cont b2 \<Longrightarrow>
   utf8_decode (x # y # z # rest) =
     map_option (Cons ((b0 - 224) * 4096 + (b1 - 128) * 64 + (b2 - 128))) (utf8_decode rest)"
  by (simp add: Let_def)

lemma utf8_decode_4:
  "unat x = b0 \<Longrightarrow> 240 \<le> b0 \<Longrightarrow> b0 < 245 \<Longrightarrow> unat y = b1 \<Longrightarrow> unat z = b2 \<Longrightarrow>
   unat w = b3 \<Longrightarrow>
   (if b0 = 240 then 144 \<le> b1 \<and> b1 < 192 else if b0 = 244 then 128 \<le> b1 \<and> b1 < 144
    else is_cont b1) \<Longrightarrow>
   is_cont b2 \<Longrightarrow> is_cont b3 \<Longrightarrow>
   utf8_decode (x # y # z # w # rest) =
     map_option (Cons ((b0 - 240) * 262144 + (b1 - 128) * 4096 + (b2 - 128) * 64 + (b3 - 128)))
       (utf8_decode rest)"
  by (simp add: Let_def)

lemma cont_byte: "unat (of_nat (128 + n mod 64) :: byte) = 128 + n mod 64"
  by (rule unat_of_nat_byte) simp

lemma is_cont_mod: "is_cont (128 + n mod 64)"
  by (simp add: is_cont_def)

lemma mod4096_split: "(c::nat) mod 4096 = 64 * (c div 64 mod 64) + c mod 64"
  using mod_mult2_eq [of c 64 64] by simp
lemma mod262144_split: "(c::nat) mod 262144 = 4096 * (c div 4096 mod 64) + c mod 4096"
  using mod_mult2_eq [of c 4096 64] by simp

lemma enc3_lead:
  assumes "2048 \<le> c" "c < 65536" "utf8_scalar c"
  shows "if 224 + c div 4096 = 224 then 160 \<le> 128 + c div 64 mod 64 \<and> 128 + c div 64 mod 64 < 192
         else if 224 + c div 4096 = 237 then 128 \<le> 128 + c div 64 mod 64 \<and> 128 + c div 64 mod 64 < 160
         else is_cont (128 + c div 64 mod 64)"
proof -
  have m: "c mod 4096 = 64 * (c div 64 mod 64) + c mod 64" by (rule mod4096_split)
  have d: "4096 * (c div 4096) + c mod 4096 = c" by simp
  have r: "c mod 64 < 64" by simp
  have x: "c div 64 mod 64 < 64" by simp
  show ?thesis
  proof (cases "c div 4096 = 0")
    case True
    with d have "c mod 4096 = c" by simp
    with m r assms(1) have "32 \<le> c div 64 mod 64" by linarith
    with True x show ?thesis by simp
  next
    case False
    show ?thesis
    proof (cases "c div 4096 = 13")
      case True
      with d have "c mod 4096 = c - 53248" by simp
      moreover have "c < 55296" using assms(3) True d by (auto simp: utf8_scalar_def)
      ultimately have "c div 64 mod 64 < 32" using m r True d by linarith
      with True show ?thesis by simp
    next
      case False
      with \<open>c div 4096 \<noteq> 0\<close> x show ?thesis by (simp add: is_cont_def)
    qed
  qed
qed

lemma enc4_lead:
  assumes "65536 \<le> c" "c < 1114112"
  shows "if 240 + c div 262144 = 240 then 144 \<le> 128 + c div 4096 mod 64 \<and> 128 + c div 4096 mod 64 < 192
         else if 240 + c div 262144 = 244 then 128 \<le> 128 + c div 4096 mod 64 \<and> 128 + c div 4096 mod 64 < 144
         else is_cont (128 + c div 4096 mod 64)"
proof -
  have m: "c mod 262144 = 4096 * (c div 4096 mod 64) + c mod 4096" by (rule mod262144_split)
  have d: "262144 * (c div 262144) + c mod 262144 = c" by simp
  have r: "c mod 4096 < 4096" by simp
  have x: "c div 4096 mod 64 < 64" by simp
  show ?thesis
  proof (cases "c div 262144 = 0")
    case True
    with d have "c mod 262144 = c" by simp
    with m r assms(1) have "16 \<le> c div 4096 mod 64" by linarith
    with True x show ?thesis by simp
  next
    case False
    show ?thesis
    proof (cases "c div 262144 = 4")
      case True
      with d have "c mod 262144 = c - 1048576" by simp
      then have "c div 4096 mod 64 < 16" using m r assms(2) by linarith
      with True show ?thesis by simp
    next
      case False
      with \<open>c div 262144 \<noteq> 0\<close> x show ?thesis by (simp add: is_cont_def)
    qed
  qed
qed

text \<open>The decoder reads back the encoding of one scalar value and goes on.\<close>

lemma utf8_decode_encode_cp:
  assumes "utf8_scalar c"
  shows "utf8_decode (utf8_encode_cp c @ rest) = map_option (Cons c) (utf8_decode rest)"
proof -
  have "c < 1114112" using assms by (simp add: utf8_scalar_def)
  consider (a) "c < 128" | (b) "128 \<le> c" "c < 2048" | (c) "2048 \<le> c" "c < 65536"
    | (d) "65536 \<le> c"
    by (cases "c < 128"; cases "c < 2048"; cases "c < 65536") auto
  then show ?thesis
  proof cases
    case a
    then show ?thesis by (simp add: utf8_encode_cp_def)
  next
    case b
    have h0: "unat (of_nat (192 + c div 64) :: byte) = 192 + c div 64"
      using b by (intro unat_of_nat_byte) linarith
    have "utf8_decode (utf8_encode_cp c @ rest)
        = utf8_decode (of_nat (192 + c div 64) # of_nat (128 + c mod 64) # rest)"
      using b by (simp add: utf8_encode_cp_def)
    also have "\<dots> = map_option (Cons ((192 + c div 64 - 192) * 64 + (128 + c mod 64 - 128)))
                      (utf8_decode rest)"
      by (rule utf8_decode_2 [OF h0 _ _ cont_byte is_cont_mod]) (use b in linarith)+
    finally show ?thesis by simp
  next
    case c
    have h0: "unat (of_nat (224 + c div 4096) :: byte) = 224 + c div 4096"
      using c by (intro unat_of_nat_byte) linarith
    have "utf8_decode (utf8_encode_cp c @ rest)
        = utf8_decode (of_nat (224 + c div 4096) # of_nat (128 + c div 64 mod 64)
                       # of_nat (128 + c mod 64) # rest)"
      using c by (simp add: utf8_encode_cp_def)
    also have "\<dots> = map_option (Cons ((224 + c div 4096 - 224) * 4096
                      + (128 + c div 64 mod 64 - 128) * 64 + (128 + c mod 64 - 128)))
                      (utf8_decode rest)"
      by (rule utf8_decode_3 [OF h0 _ _ cont_byte cont_byte enc3_lead [OF c assms] is_cont_mod])
        (use c in linarith)+
    also have "(224 + c div 4096 - 224) * 4096 + (128 + c div 64 mod 64 - 128) * 64
               + (128 + c mod 64 - 128) = c"
      using mod4096_split [of c] div_mult_mod_eq [of c 4096] by simp
    finally show ?thesis .
  next
    case d
    have h0: "unat (of_nat (240 + c div 262144) :: byte) = 240 + c div 262144"
      using d \<open>c < 1114112\<close> by (intro unat_of_nat_byte) linarith
    have "utf8_decode (utf8_encode_cp c @ rest)
        = utf8_decode (of_nat (240 + c div 262144) # of_nat (128 + c div 4096 mod 64)
                       # of_nat (128 + c div 64 mod 64) # of_nat (128 + c mod 64) # rest)"
      using d by (simp add: utf8_encode_cp_def)
    also have "\<dots> = map_option (Cons ((240 + c div 262144 - 240) * 262144
                      + (128 + c div 4096 mod 64 - 128) * 4096
                      + (128 + c div 64 mod 64 - 128) * 64 + (128 + c mod 64 - 128)))
                      (utf8_decode rest)"
      by (rule utf8_decode_4 [OF h0 _ _ cont_byte cont_byte cont_byte
            enc4_lead [OF d \<open>c < 1114112\<close>] is_cont_mod is_cont_mod])
        (use d \<open>c < 1114112\<close> in linarith)+
    also have "(240 + c div 262144 - 240) * 262144 + (128 + c div 4096 mod 64 - 128) * 4096
               + (128 + c div 64 mod 64 - 128) * 64 + (128 + c mod 64 - 128) = c"
      using mod262144_split [of c] mod4096_split [of c] div_mult_mod_eq [of c 262144] by simp
    finally show ?thesis .
  qed
qed

theorem utf8_decode_encode:
  "\<forall>c \<in> set cs. utf8_scalar c \<Longrightarrow> utf8_decode (utf8_encode cs) = Some cs"
  by (induction cs) (simp_all add: utf8_encode_def utf8_decode_encode_cp)

text \<open>A successful decode yields at most one code point per byte.\<close>

lemma utf8_decode_length:
  "utf8_decode bs = Some cs \<Longrightarrow> length cs \<le> length bs"
proof (induction bs arbitrary: cs rule: utf8_decode.induct)
  case 1
  then show ?case by simp
next
  case (2 x xs)
  then show ?case
    by (auto simp: Let_def split: if_splits list.splits) fastforce+
qed

section \<open>Properties of the newline translation\<close>

lemma nl_translate_id: "13 \<notin> set cs \<Longrightarrow> nl_translate cs = cs"
  by (induction cs rule: nl_translate.induct) auto

lemma nl_translate_no_cr: "13 \<notin> set (nl_translate cs)"
  by (induction cs rule: nl_translate.induct) auto

lemma read_text_ascii:
  "\<forall>b \<in> set bs. unat b < 128 \<and> unat b \<noteq> 13 \<Longrightarrow> read_text bs = Inr (map unat bs)"
proof -
  assume a: "\<forall>b \<in> set bs. unat b < 128 \<and> unat b \<noteq> 13"
  then have "13 \<notin> set (map unat bs)" by auto
  with a show ?thesis by (simp add: read_text_def utf8_decode_ascii nl_translate_id)
qed

lemma nl_translate_length: "length (nl_translate cs) \<le> length cs"
  by (induction cs rule: nl_translate.induct) auto

section \<open>The decoder accepts exactly the encodings of scalar values\<close>

lemma decode2_inverse:
  assumes "194 \<le> unat x" "unat x < 224" "is_cont (unat y)"
  shows "utf8_scalar ((unat x - 192) * 64 + (unat y - 128)) \<and>
         utf8_encode_cp ((unat x - 192) * 64 + (unat y - 128)) = [x, y]"
proof -
  define a where "a = unat x - 192"
  define p where "p = unat y - 128"
  have p: "p < 64" "unat y = 128 + p" using assms(3) by (auto simp: p_def is_cont_def)
  have a: "2 \<le> a" "a < 32" "unat x = 192 + a" using assms(1,2) by (auto simp: a_def)
  have c: "128 \<le> a * 64 + p" "a * 64 + p < 2048" using a p by linarith+
  have "(a * 64 + p) div 64 = a" "(a * 64 + p) mod 64 = p" using p by simp_all
  then have "utf8_encode_cp (a * 64 + p) = [of_nat (unat x), of_nat (unat y)]"
    using c a p by (simp add: utf8_encode_cp_def)
  moreover have "utf8_scalar (a * 64 + p)" using c by (simp add: utf8_scalar_def)
  ultimately show ?thesis by (simp add: a_def p_def)
qed

lemma decode3_inverse:
  assumes "224 \<le> unat x" "unat x < 240"
    and "if unat x = 224 then 160 \<le> unat y \<and> unat y < 192
         else if unat x = 237 then 128 \<le> unat y \<and> unat y < 160 else is_cont (unat y)"
    and "is_cont (unat z)"
  shows "utf8_scalar ((unat x - 224) * 4096 + (unat y - 128) * 64 + (unat z - 128)) \<and>
         utf8_encode_cp ((unat x - 224) * 4096 + (unat y - 128) * 64 + (unat z - 128)) = [x, y, z]"
proof -
  define a where "a = unat x - 224"
  define p where "p = unat y - 128"
  define q where "q = unat z - 128"
  have q: "q < 64" "unat z = 128 + q" using assms(4) by (auto simp: q_def is_cont_def)
  have p: "p < 64" "unat y = 128 + p" using assms(3) by (auto simp: p_def is_cont_def split: if_splits)
  have a: "a < 16" "unat x = 224 + a" using assms(1,2) by (auto simp: a_def)
  have lo: "2048 \<le> a * 4096 + p * 64 + q"
    using assms(3) a by (cases "a = 0") (auto simp: p_def split: if_splits)
  have hi: "a * 4096 + p * 64 + q < 65536" using a p q by linarith
  have sur: "\<not> (55296 \<le> a * 4096 + p * 64 + q \<and> a * 4096 + p * 64 + q < 57344)"
  proof (cases "a = 13")
    case True
    then have "p < 32" using assms(3) a by (auto simp: p_def split: if_splits)
    with True q show ?thesis by linarith
  next
    case False
    then have "a \<le> 12 \<or> 14 \<le> a" by linarith
    with p q show ?thesis by auto
  qed
  have "p * 64 + q < 4096" using p q by linarith
  then have "(a * 4096 + p * 64 + q) div 4096 = a" by simp
  moreover have "(a * 4096 + p * 64 + q) div 64 mod 64 = p"
  proof -
    have "a * 4096 + p * 64 + q = q + (a * 64 + p) * 64" by simp
    then have "(a * 4096 + p * 64 + q) div 64 = a * 64 + p" using q by simp
    then show ?thesis using p by simp
  qed
  moreover have "(a * 4096 + p * 64 + q) mod 64 = q"
  proof -
    have "(a * 4096 + p * 64 + q) mod 64 = ((a * 64 + p) * 64 + q) mod 64" by (simp add: algebra_simps)
    also have "\<dots> = q" using q by (simp only: mod_mult_self3 mod_less)
    finally show ?thesis .
  qed
  ultimately have "utf8_encode_cp (a * 4096 + p * 64 + q) = [of_nat (unat x), of_nat (unat y), of_nat (unat z)]"
    using lo hi a p q by (simp add: utf8_encode_cp_def)
  moreover have "utf8_scalar (a * 4096 + p * 64 + q)" using hi sur by (simp add: utf8_scalar_def)
  ultimately show ?thesis by (simp add: a_def p_def q_def)
qed

lemma div_mod_64: "r < 64 \<Longrightarrow> ((x::nat) * 64 + r) div 64 = x \<and> (x * 64 + r) mod 64 = r"
  by simp

lemma decode4_inverse:
  assumes "240 \<le> unat x" "unat x < 245"
    and "if unat x = 240 then 144 \<le> unat y \<and> unat y < 192
         else if unat x = 244 then 128 \<le> unat y \<and> unat y < 144 else is_cont (unat y)"
    and "is_cont (unat z)" and "is_cont (unat u)"
  shows "utf8_scalar ((unat x - 240) * 262144 + (unat y - 128) * 4096 + (unat z - 128) * 64 + (unat u - 128)) \<and>
         utf8_encode_cp ((unat x - 240) * 262144 + (unat y - 128) * 4096 + (unat z - 128) * 64 + (unat u - 128))
           = [x, y, z, u]"
proof -
  define a where "a = unat x - 240"
  define p where "p = unat y - 128"
  define q where "q = unat z - 128"
  define r where "r = unat u - 128"
  have r: "r < 64" "unat u = 128 + r" using assms(5) by (auto simp: r_def is_cont_def)
  have q: "q < 64" "unat z = 128 + q" using assms(4) by (auto simp: q_def is_cont_def)
  have p: "p < 64" "unat y = 128 + p" using assms(3) by (auto simp: p_def is_cont_def split: if_splits)
  have a: "a < 5" "unat x = 240 + a" using assms(1,2) by (auto simp: a_def)
  define c where "c = a * 262144 + p * 4096 + q * 64 + r"
  have c_eq: "c = ((a * 64 + p) * 64 + q) * 64 + r" by (simp add: c_def algebra_simps)
  have lo: "65536 \<le> c"
    using assms(3) a by (cases "a = 0") (auto simp: c_def p_def split: if_splits)
  have hi: "c < 1114112"
  proof (cases "a = 4")
    case True
    then have "p < 16" using assms(3) a by (auto simp: p_def split: if_splits)
    with True q r show ?thesis by (simp add: c_def)
  next
    case False
    with a p q r show ?thesis by (simp add: c_def)
  qed
  have d1: "c div 64 = (a * 64 + p) * 64 + q" "c mod 64 = r"
    using div_mod_64 [OF r(1), of "(a * 64 + p) * 64 + q"] by (simp_all only: c_eq)
  have d2: "c div 4096 = a * 64 + p" "c div 64 mod 64 = q"
    using div_mod_64 [OF q(1), of "a * 64 + p"] div_mult2_eq [of c 64 64] d1(1) by simp_all
  have d3: "c div 262144 = a" "c div 4096 mod 64 = p"
    using div_mod_64 [OF p(1), of a] div_mult2_eq [of c 4096 64] d2(1) by simp_all
  have "utf8_encode_cp c = [of_nat (unat x), of_nat (unat y), of_nat (unat z), of_nat (unat u)]"
    using lo hi a p q r d1 d2 d3 by (simp add: utf8_encode_cp_def)
  moreover have "utf8_scalar c" using lo hi by (simp add: utf8_scalar_def)
  ultimately show ?thesis by (simp add: a_def p_def q_def r_def c_def)
qed

text \<open>One step of a successful decode: a scalar value and exactly its encoding.\<close>

lemma utf8_decode_Cons_Some:
  assumes "utf8_decode (x # xs) = Some cs"
  shows "\<exists>c rest cs'. x # xs = utf8_encode_cp c @ rest \<and> utf8_decode rest = Some cs' \<and>
           cs = c # cs' \<and> utf8_scalar c \<and> length rest < length (x # xs)"
proof -
  consider (a1) "unat x < 128" | (a2) "194 \<le> unat x" "unat x < 224" | (a3) "224 \<le> unat x" "unat x < 240"
    | (a4) "240 \<le> unat x" "unat x < 245"
    | (bad) "\<not> unat x < 128" "\<not> (194 \<le> unat x \<and> unat x < 224)" "\<not> (224 \<le> unat x \<and> unat x < 240)"
        "\<not> (240 \<le> unat x \<and> unat x < 245)"
    by linarith
  then show ?thesis
  proof cases
    case a1
    then obtain cs' where "utf8_decode xs = Some cs'" "cs = unat x # cs'"
      using assms by (auto simp: Let_def)
    moreover have "utf8_scalar (unat x) \<and> utf8_encode_cp (unat x) = [x]"
      using a1 by (simp add: utf8_scalar_def utf8_encode_cp_def)
    ultimately show ?thesis by fastforce
  next
    case a2
    then obtain y ys cs' where "xs = y # ys" "is_cont (unat y)" "utf8_decode ys = Some cs'"
        "cs = ((unat x - 192) * 64 + (unat y - 128)) # cs'"
      using assms by (auto simp: Let_def split: list.splits if_splits)
    with decode2_inverse [OF a2] show ?thesis by fastforce
  next
    case a3
    then obtain y z zs cs' where "xs = y # z # zs"
        "if unat x = 224 then 160 \<le> unat y \<and> unat y < 192
         else if unat x = 237 then 128 \<le> unat y \<and> unat y < 160 else is_cont (unat y)"
        "is_cont (unat z)" "utf8_decode zs = Some cs'"
        "cs = ((unat x - 224) * 4096 + (unat y - 128) * 64 + (unat z - 128)) # cs'"
      using assms by (auto simp: Let_def split: list.splits if_splits)
    with decode3_inverse [OF a3] show ?thesis by fastforce
  next
    case a4
    then obtain y z u us cs' where "xs = y # z # u # us"
        "if unat x = 240 then 144 \<le> unat y \<and> unat y < 192
         else if unat x = 244 then 128 \<le> unat y \<and> unat y < 144 else is_cont (unat y)"
        "is_cont (unat z)" "is_cont (unat u)" "utf8_decode us = Some cs'"
        "cs = ((unat x - 240) * 262144 + (unat y - 128) * 4096 + (unat z - 128) * 64 + (unat u - 128)) # cs'"
      using assms by (auto simp: Let_def split: list.splits if_splits)
    with decode4_inverse [OF a4] show ?thesis by fastforce
  next
    case bad
    then have "utf8_decode (x # xs) = None" by (auto simp: Let_def)
    then show ?thesis using assms by simp
  qed
qed

lemma utf8_decode_canonical:
  "utf8_decode bs = Some cs \<Longrightarrow> (\<forall>c \<in> set cs. utf8_scalar c) \<and> utf8_encode cs = bs"
proof (induction "length bs" arbitrary: bs cs rule: less_induct)
  case less
  show ?case
  proof (cases bs)
    case Nil
    then show ?thesis using less.prems by (simp add: utf8_encode_def)
  next
    case (Cons x xs)
    then obtain c rest cs' where "bs = utf8_encode_cp c @ rest" "utf8_decode rest = Some cs'"
        "cs = c # cs'" "utf8_scalar c" "length rest < length bs"
      using utf8_decode_Cons_Some less.prems by metis
    with less.hyps [of rest cs'] show ?thesis by (simp add: utf8_encode_def)
  qed
qed


section \<open>Claims about reading text\<close>

text \<open>
  CPython's strict UTF-8 codec, as modelled, is the exact inverse of the
  standard encoder: a byte string decodes to a list of code points if and only
  if the list consists of Unicode scalar values and the bytes are its
  encoding. So the decoder accepts one encoding per text and nothing else.
\<close>

theorem utf8_decode_iff:
  "utf8_decode bs = Some cs \<longleftrightarrow> (\<forall>c \<in> set cs. utf8_scalar c) \<and> bs = utf8_encode cs"
  using utf8_decode_canonical [of bs cs] utf8_decode_encode [of cs] by auto

theorem utf8_decode_iff_witness:
  "utf8_decode [65, 195, 169] = Some [65, 233]"
proof -
  have "(\<forall>c \<in> set [65, 233::nat]. utf8_scalar c) \<and> [65, 195, 169] = utf8_encode [65, 233]"
    by (simp add: utf8_scalar_def utf8_encode_def utf8_encode_cp_def)
  then show ?thesis using utf8_decode_iff [of "[65, 195, 169]" "[65, 233]"] by blast
qed

text \<open>
  Reading back what was written: a text of scalar values without carriage
  returns, stored as UTF-8, is read by \<^verbatim>\<open>open(..., encoding='utf-8').read()\<close>
  as the same text, so \<^verbatim>\<open>len(content)\<close> counts its code points.
\<close>

theorem read_text_roundtrip:
  assumes "\<forall>c \<in> set cs. utf8_scalar c \<and> c \<noteq> 13"
  shows "read_text (utf8_encode cs) = Inr cs"
proof -
  have "13 \<notin> set cs" using assms by auto
  moreover have "utf8_decode (utf8_encode cs) = Some cs" using assms by (simp add: utf8_decode_encode)
  ultimately show ?thesis by (simp add: read_text_def nl_translate_id)
qed

theorem read_text_roundtrip_witness:
  "read_text (utf8_encode [104, 233, 8364, 10]) = Inr [104, 233, 8364, 10]"
  by (rule read_text_roundtrip) (simp add: utf8_scalar_def)

text \<open>
  What the strict decoder rejects, each raising \<^verbatim>\<open>UnicodeDecodeError\<close>
  out of the read: an overlong form, an encoded surrogate, a code point above
  \<open>U+10FFFF\<close>, a truncated sequence and a lone continuation byte.
\<close>

theorem read_text_rejects:
  "read_text [192, 128] = Inl UnicodeDecodeError \<and> read_text [237, 160, 128] = Inl UnicodeDecodeError \<and>
   read_text [244, 144, 128, 128] = Inl UnicodeDecodeError \<and> read_text [226, 130] = Inl UnicodeDecodeError \<and>
   read_text [128] = Inl UnicodeDecodeError"
  by (simp add: read_text_def is_cont_def)

end
