(* ===== verification/Config.thy ===== *)
theory Config
  imports PyStr
begin

text \<open>
  The configuration document (\<^verbatim>\<open>gitingest.yaml\<close>, loaded by
  \<^verbatim>\<open>GitIngestManager._load_config\<close>) and the two operations of
  \<^verbatim>\<open>gitingest_manager.py\<close> that read it to build the ingestion command:
  \<^verbatim>\<open>_get_exclusions\<close> (lines 41--54) and \<^verbatim>\<open>_build_gitingest_command\<close>
  (lines 56--73). YAML mappings are association lists, so that their order (kept
  by \<^verbatim>\<open>yaml.dump(..., sort_keys=False)\<close>) is part of the model; an optional key of
  a mapping is an \<open>option\<close> field, absent being \<open>None\<close>.
\<close>

section \<open>The configuration document\<close>

record settings =
  output_dir :: string
  token_counter :: string
  default_max_size :: "int option"

text \<open>The metadata block written by \<^verbatim>\<open>ingest\<close> (lines 213--221).\<close>

record ingest_metadata =
  last_updated :: string
  token_count :: int
  character_count :: nat
  file_count :: nat
  last_file :: string
  profile :: string
  hash :: string

record repo_config =
  source :: "string option"
  description :: "string option"
  exclusions :: "string list option"
  metadata :: "ingest_metadata option"

record profile_config =
  profile_description :: "string option"
  additional_exclusions :: "string list option"

record config =
  settings :: settings
  repositories :: "(string \<times> repo_config) list"
  profiles :: "(string \<times> profile_config) list"

text \<open>\<^verbatim>\<open>not repo_config\<close> holds for an empty mapping.\<close>

definition repo_config_empty :: "repo_config \<Rightarrow> bool" where
  "repo_config_empty rc =
     (source rc = None \<and> description rc = None \<and> exclusions rc = None \<and> metadata rc = None)"

definition opt_list :: "'a list option \<Rightarrow> 'a list" where
  "opt_list xs = (case xs of None \<Rightarrow> [] | Some ys \<Rightarrow> ys)"

section \<open>\<^verbatim>\<open>_get_exclusions\<close>\<close>

text \<open>
  The repository's own patterns (copied), then the profile's additional patterns
  when the profile name is a key of \<^verbatim>\<open>profiles\<close>; an unknown profile adds
  nothing. A missing or empty repository entry raises \<^verbatim>\<open>ValueError\<close>.
\<close>

definition get_exclusions :: "config \<Rightarrow> string \<Rightarrow> string \<Rightarrow> py_exc + string list" where
  "get_exclusions cfg repo_name prof =
     (case map_of (repositories cfg) repo_name of
        None \<Rightarrow> Inl ValueError
      | Some rc \<Rightarrow>
          if repo_config_empty rc then Inl ValueError
          else
            (let excl = opt_list (exclusions rc)
             in case map_of (profiles cfg) prof of
                  None \<Rightarrow> Inr excl
                | Some pc \<Rightarrow> Inr (excl @ opt_list (additional_exclusions pc))))"

section \<open>\<^verbatim>\<open>_build_gitingest_command\<close>\<close>

text \<open>
  \<^verbatim>\<open>if max_size: cmd.extend(['-s', str(max_size)])\<close>: a zero size is falsy;
  \<^verbatim>\<open>str\<close> raises \<^verbatim>\<open>ValueError\<close> beyond the digit limit.
\<close>

definition max_size_args :: "int option \<Rightarrow> py_exc + string list" where
  "max_size_args m =
     (case m of
        None \<Rightarrow> Inr []
      | Some n \<Rightarrow> if n = 0 then Inr [] else if str_int_ok n then Inr [''-s'', py_str_int n] else Inl ValueError)"

definition exclusion_args :: "string list \<Rightarrow> string list" where
  "exclusion_args excl = concat (map (\<lambda>e. [''-e'', e]) excl)"

text \<open>
  \<^verbatim>\<open>self.config['repositories'][repo_name]\<close> and \<^verbatim>\<open>repo_config['source']\<close> raise
  \<^verbatim>\<open>KeyError\<close> before \<^verbatim>\<open>_get_exclusions\<close> is called.
\<close>

definition build_gitingest_command ::
  "config \<Rightarrow> string \<Rightarrow> string \<Rightarrow> string \<Rightarrow> py_exc + string list" where
  "build_gitingest_command cfg repo_name output_file prof =
     (case map_of (repositories cfg) repo_name of
        None \<Rightarrow> Inl KeyError
      | Some rc \<Rightarrow>
          (case source rc of
             None \<Rightarrow> Inl KeyError
           | Some src \<Rightarrow>
               (case get_exclusions cfg repo_name prof of
                  Inl e \<Rightarrow> Inl e
                | Inr excl \<Rightarrow>
                    (case max_size_args (default_max_size (settings cfg)) of
                       Inl e \<Rightarrow> Inl e
                     | Inr ms \<Rightarrow> Inr ([''gitingest'', src, ''-o'', output_file] @ ms @ exclusion_args excl)))))"

section \<open>The command-line contract of the ingestion tool\<close>

text \<open>
  The spec fixes the tool's argument grammar as
  \<^verbatim>\<open>gitingest <source> -o <outputFile> [-s <maxSize>] [-e <pattern>]*\<close>.
  The parser below reads an argument vector back along that grammar; it is a
  specification of the contract, not code of the repository.
\<close>

fun parse_e_flags :: "string list \<Rightarrow> string list option" where
  "parse_e_flags [] = Some []"
| "parse_e_flags [f] = None"
| "parse_e_flags (f # v # rest) =
     (if f = ''-e'' then map_option (Cons v) (parse_e_flags rest) else None)"

definition parse_gitingest_argv ::
  "string list \<Rightarrow> (string \<times> string \<times> string option \<times> string list) option" where
  "parse_gitingest_argv argv =
     (case argv of
        b # src # flag # out # rest \<Rightarrow>
          if b = ''gitingest'' \<and> flag = ''-o'' then
            (case rest of
               s # n # rest' \<Rightarrow>
                 if s = ''-s'' then map_option (\<lambda>ex. (src, out, Some n, ex)) (parse_e_flags rest')
                 else map_option (\<lambda>ex. (src, out, None, ex)) (parse_e_flags rest)
             | _ \<Rightarrow> map_option (\<lambda>ex. (src, out, None, ex)) (parse_e_flags rest))
          else None
      | _ \<Rightarrow> None)"

section \<open>Properties of \<^verbatim>\<open>_get_exclusions\<close>\<close>

definition size_flag :: "int option \<Rightarrow> string option" where
  "size_flag m = (case m of None \<Rightarrow> None | Some n \<Rightarrow> if n = 0 then None else Some (py_str_int n))"

section \<open>An example configuration\<close>

text \<open>One repository with two patterns and the profile \<open>standard\<close> adding one.\<close>

definition example_config :: config where
  "example_config =
     \<lparr>settings = \<lparr>output_dir = ''out'', token_counter = ''/usr/local/bin/tc'', default_max_size = None\<rparr>,
      repositories =
        [(''repo1'', \<lparr>source = Some ''/src/repo1'', description = None,
                      exclusions = Some [''*.log'', ''node_modules''], metadata = None\<rparr>)],
      profiles = [(''standard'', \<lparr>profile_description = None, additional_exclusions = Some [''*.lock'']\<rparr>)]\<rparr>"

section \<open>The configuration document\<close>

lemma opt_list_simps [simp]: "opt_list None = []" "opt_list (Some xs) = xs"
  by (simp_all add: opt_list_def)

section \<open>Properties of \<^verbatim>\<open>_get_exclusions\<close>\<close>

lemma get_exclusions_found:
  assumes "map_of (repositories cfg) r = Some rc" and "\<not> repo_config_empty rc"
  shows "get_exclusions cfg r p =
           Inr (opt_list (exclusions rc)
                @ (case map_of (profiles cfg) p of
                     None \<Rightarrow> [] | Some pc \<Rightarrow> opt_list (additional_exclusions pc)))"
  using assms by (simp add: get_exclusions_def Let_def split: option.split)

lemma get_exclusions_error:
  "get_exclusions cfg r p = Inl e \<Longrightarrow>
   e = ValueError \<and>
   (map_of (repositories cfg) r = None \<or>
    (\<exists>rc. map_of (repositories cfg) r = Some rc \<and> repo_config_empty rc))"
  by (auto simp: get_exclusions_def Let_def split: option.splits if_splits)

lemma get_exclusions_Inr:
  "get_exclusions cfg r p = Inr xs \<Longrightarrow>
   \<exists>rc. map_of (repositories cfg) r = Some rc \<and> \<not> repo_config_empty rc \<and>
        (\<exists>extra. xs = opt_list (exclusions rc) @ extra)"
  by (auto simp: get_exclusions_def Let_def split: option.splits if_splits)

lemma parse_e_flags_exclusion_args [simp]: "parse_e_flags (exclusion_args xs) = Some xs"
  by (induction xs) (simp_all add: exclusion_args_def)

lemma build_gitingest_command_Inr:
  "build_gitingest_command cfg r out p = Inr argv \<Longrightarrow>
   \<exists>rc src excl. map_of (repositories cfg) r = Some rc \<and> source rc = Some src \<and>
     get_exclusions cfg r p = Inr excl \<and>
     (\<exists>ms. max_size_args (default_max_size (settings cfg)) = Inr ms \<and>
       argv = [''gitingest'', src, ''-o'', out] @ ms @ exclusion_args excl)"
  by (auto simp: build_gitingest_command_def split: option.splits sum.splits)

lemma parse_gitingest_argv_build:
  assumes "max_size_args m = Inr ms"
  shows "parse_gitingest_argv ([''gitingest'', src, ''-o'', out] @ ms @ exclusion_args excl)
           = Some (src, out, size_flag m, excl)"
proof (cases "ms = []")
  case True
  then have "size_flag m = None"
    using assms by (auto simp: max_size_args_def size_flag_def split: option.splits if_splits)
  with True show ?thesis
    by (cases excl)
      (simp_all add: parse_gitingest_argv_def exclusion_args_def
         parse_e_flags_exclusion_args [unfolded exclusion_args_def])
next
  case False
  then obtain n where "m = Some n" "n \<noteq> 0" "str_int_ok n" "ms = [''-s'', py_str_int n]"
    using assms by (auto simp: max_size_args_def split: option.splits if_splits)
  then show ?thesis by (simp add: parse_gitingest_argv_def size_flag_def)
qed

section \<open>Claims about exclusions and the command\<close>

text \<open>
  C6. Exclusion resolution is order-preserving and additive: whenever
  \<^verbatim>\<open>_get_exclusions\<close> returns a list, it starts with the repository's own patterns,
  in their original order, so it is at least as long as them.
\<close>

theorem get_exclusions_prefix:
  assumes "get_exclusions cfg r p = Inr xs"
  shows "\<exists>rc. map_of (repositories cfg) r = Some rc \<and>
           length (opt_list (exclusions rc)) \<le> length xs \<and>
           take (length (opt_list (exclusions rc))) xs = opt_list (exclusions rc)"
  using get_exclusions_Inr [OF assms] by auto

theorem get_exclusions_prefix_witness:
  "get_exclusions example_config ''repo1'' ''standard'' = Inr [''*.log'', ''node_modules'', ''*.lock''] \<and>
   (\<exists>rc. map_of (repositories example_config) ''repo1'' = Some rc \<and>
      length (opt_list (exclusions rc)) \<le> length [''*.log'', ''node_modules'', ''*.lock''] \<and>
      take (length (opt_list (exclusions rc))) [''*.log'', ''node_modules'', ''*.lock''] = opt_list (exclusions rc))"
proof -
  have h: "get_exclusions example_config ''repo1'' ''standard'' = Inr [''*.log'', ''node_modules'', ''*.lock'']"
    by (simp add: get_exclusions_def example_config_def repo_config_empty_def)
  show ?thesis using h get_exclusions_prefix [OF h] by blast
qed

text \<open>
  A profile name that is not a key of \<^verbatim>\<open>profiles\<close> is silently accepted and
  contributes no patterns: the result is the repository's own list.
\<close>

theorem get_exclusions_unknown_profile:
  assumes "map_of (profiles cfg) p = None"
    and "map_of (repositories cfg) r = Some rc" and "\<not> repo_config_empty rc"
  shows "get_exclusions cfg r p = Inr (opt_list (exclusions rc))"
  using get_exclusions_found [OF assms(2,3)] assms(1) by simp

theorem get_exclusions_unknown_profile_witness:
  "get_exclusions example_config ''repo1'' ''strict'' = Inr [''*.log'', ''node_modules'']"
proof -
  have "map_of (profiles example_config) ''strict'' = None"
    and "map_of (repositories example_config) ''repo1'' =
           Some \<lparr>source = Some ''/src/repo1'', description = None,
                 exclusions = Some [''*.log'', ''node_modules''], metadata = None\<rparr>"
    and "\<not> repo_config_empty \<lparr>source = Some ''/src/repo1'', description = None,
                 exclusions = Some [''*.log'', ''node_modules''], metadata = None\<rparr>"
    by (simp_all add: example_config_def repo_config_empty_def)
  from get_exclusions_unknown_profile [OF this] show ?thesis by simp
qed

text \<open>
  C20. The command built by \<^verbatim>\<open>_build_gitingest_command\<close> follows the tool's
  contract \<^verbatim>\<open>gitingest <source> -o <out> [-s <size>] [-e <pattern>]*\<close>: read back
  along that grammar it gives the repository's source, the output path, the size
  flag exactly when \<^verbatim>\<open>default_max_size\<close> is set and non-zero, and one \<^verbatim>\<open>-e\<close> per
  resolved pattern in resolution order.
\<close>

theorem build_gitingest_command_contract:
  assumes "build_gitingest_command cfg r out p = Inr argv"
  shows "\<exists>rc src excl. map_of (repositories cfg) r = Some rc \<and> source rc = Some src \<and>
           get_exclusions cfg r p = Inr excl \<and>
           parse_gitingest_argv argv = Some (src, out, size_flag (default_max_size (settings cfg)), excl)"
  using build_gitingest_command_Inr [OF assms] parse_gitingest_argv_build by blast

theorem build_gitingest_command_contract_witness:
  "build_gitingest_command example_config ''repo1'' ''out/t.md'' ''standard'' =
     Inr [''gitingest'', ''/src/repo1'', ''-o'', ''out/t.md'',
          ''-e'', ''*.log'', ''-e'', ''node_modules'', ''-e'', ''*.lock''] \<and>
   parse_gitingest_argv [''gitingest'', ''/src/repo1'', ''-o'', ''out/t.md'',
          ''-e'', ''*.log'', ''-e'', ''node_modules'', ''-e'', ''*.lock''] =
     Some (''/src/repo1'', ''out/t.md'', None, [''*.log'', ''node_modules'', ''*.lock''])"
proof -
  have h: "build_gitingest_command example_config ''repo1'' ''out/t.md'' ''standard'' =
     Inr [''gitingest'', ''/src/repo1'', ''-o'', ''out/t.md'',
          ''-e'', ''*.log'', ''-e'', ''node_modules'', ''-e'', ''*.lock'']"
    by (simp add: build_gitingest_command_def get_exclusions_def example_config_def
        repo_config_empty_def max_size_args_def exclusion_args_def)
  show ?thesis
    using h build_gitingest_command_contract [OF h]
    by (auto simp: example_config_def get_exclusions_def repo_config_empty_def size_flag_def)
qed

text \<open>
  C21. \<^verbatim>\<open>_build_gitingest_command\<close> fails only with \<^verbatim>\<open>KeyError\<close> or with
  the \<^verbatim>\<open>ValueError\<close> of \<^verbatim>\<open>str(max_size)\<close> on a size of more than 4300 digits
  (line 67): an unknown repository, or one without \<^verbatim>\<open>source\<close>, is rejected
  by the subscripts on lines 58--59 before \<^verbatim>\<open>_get_exclusions\<close> could raise its
  \<^verbatim>\<open>ValueError\<close>, so the \<^verbatim>\<open>Repository ... not found\<close> error is unreachable
  from \<^verbatim>\<open>ingest\<close>.
\<close>

theorem build_gitingest_command_error:
  assumes "build_gitingest_command cfg r out p = Inl e"
  shows "e = KeyError \<or>
         (e = ValueError \<and> (\<exists>n. default_max_size (settings cfg) = Some n \<and> 10 ^ max_str_digits \<le> \<bar>n\<bar>))"
proof -
  have "get_exclusions cfg r p \<noteq> Inl ValueError"
    if "map_of (repositories cfg) r = Some rc" and "source rc = Some src" for rc src
    using that get_exclusions_found [of cfg r rc p] by (auto simp: repo_config_empty_def)
  moreover have "get_exclusions cfg r p = Inl e' \<Longrightarrow> e' = ValueError" for e'
    using get_exclusions_error by blast
  moreover have "max_size_args m = Inl e' \<Longrightarrow> e' = ValueError \<and> (\<exists>n. m = Some n \<and> 10 ^ max_str_digits \<le> \<bar>n\<bar>)"
    for m e' by (auto simp: max_size_args_def str_int_ok_iff not_less split: option.splits if_splits)
  ultimately show ?thesis
    using assms by (auto simp: build_gitingest_command_def split: option.splits sum.splits)
qed

theorem build_gitingest_command_error_witness:
  "build_gitingest_command example_config ''repo2'' ''out/t.md'' ''standard'' = Inl KeyError \<and>
   KeyError = KeyError"
proof -
  have h: "build_gitingest_command example_config ''repo2'' ''out/t.md'' ''standard'' = Inl KeyError"
    by (simp add: build_gitingest_command_def example_config_def)
  show ?thesis using build_gitingest_command_error [OF h] h by simp
qed

end
