(* ===== verification/TokenFormat.thy ===== *)
theory TokenFormat
  imports PyStr
begin

text \<open>
  \<^verbatim>\<open>GitIngestManager._format_token_count\<close> (lines 121--128): units below 1000,
  truncated thousands with \<open>k\<close> below a million, and otherwise
  \<^verbatim>\<open>f"{count / 1_000_000:.1f}M"\<close>. The last branch is floating point: Python's
  \<open>int / int\<close> is the IEEE double nearest to the exact quotient (ties to even),
  and the \<open>.1f\<close> format rounds that double's exact value to one decimal, again
  ties to even. Both roundings are written out in integer arithmetic: a double
  \<open>\<ge> 1\<close> is \<open>m * 2^e / 2^52\<close> with a 53-bit mantissa \<open>m\<close>. A quotient that
  rounds to \<open>2^1024\<close> or more raises \<^verbatim>\<open>OverflowError\<close>; \<^verbatim>\<open>str(count)\<close> of a
  count below \<open>-(10^4300)\<close> raises \<^verbatim>\<open>ValueError\<close> (the digit limit).
\<close>
section \<open>Rounding to nearest, ties to even\<close>

definition round_half_even :: "nat \<Rightarrow> nat \<Rightarrow> nat" where
  "round_half_even a b =
     (let q = a div b; r = a mod b
      in if 2 * r < b then q else if b < 2 * r then Suc q else if even q then q else Suc q)"

section \<open>The double nearest to \<open>count / 1_000_000\<close>\<close>

fun floor_log2 :: "nat \<Rightarrow> nat" where
  "floor_log2 n = (if n < 2 then 0 else Suc (floor_log2 (n div 2)))"

declare floor_log2.simps [simp del]

text \<open>
  For \<open>c \<ge> 10^6\<close> the quotient lies in \<open>[2^e, 2^(e+1))\<close> for
  \<open>e = float_exp c\<close>, and the double is \<open>float_mant c * 2^e / 2^52\<close>.
\<close>

definition float_exp :: "nat \<Rightarrow> nat" where
  "float_exp c = floor_log2 (c div 1000000)"

definition float_mant :: "nat \<Rightarrow> nat" where
  "float_mant c = round_half_even (c * 2 ^ 52) (1000000 * 2 ^ float_exp c)"

text \<open>The double scaled by \<open>2^52\<close>, and ten times its value rounded to an integer.\<close>

definition float_scaled :: "nat \<Rightarrow> nat" where
  "float_scaled c = float_mant c * 2 ^ float_exp c"

definition tenths :: "nat \<Rightarrow> nat" where
  "tenths c = round_half_even (10 * float_scaled c) (2 ^ 52)"

section \<open>\<^verbatim>\<open>_format_token_count\<close>\<close>

definition format_millions :: "nat \<Rightarrow> py_exc + string" where
  "format_millions c =
     (if 1024 \<le> float_exp c \<or> (float_exp c = 1023 \<and> float_mant c = 2 ^ 53) then Inl OverflowError
      else Inr (str_nat (tenths c div 10) @ ''.'' @ [digit_char (tenths c mod 10)] @ ''M''))"

definition format_token_count :: "int \<Rightarrow> py_exc + string" where
  "format_token_count count =
     (if 1000000 \<le> count then format_millions (nat count)
      else if 1000 \<le> count then Inr (py_str_int (count div 1000) @ ''k'')
      else if str_int_ok count then Inr (py_str_int count)
      else Inl ValueError)"

section \<open>Reading the rendering back\<close>

text \<open>
  The value a rendering stands for: \<open>"999"\<close> is 999, \<open>"482k"\<close> is 482000,
  \<open>"1.2M"\<close> is 1200000. This parser belongs to the specification (it states
  what the short form means); the program never parses its own file names.
\<close>

definition parse_human :: "string \<Rightarrow> nat option" where
  "parse_human s =
     (if s = [] then None
      else if last s = CHR ''M'' then
        (let body = butlast s; ip = takeWhile (\<lambda>x. x \<noteq> CHR ''.'') body
         in case (py_uint ip, drop (Suc (length ip)) body) of
              (Some a, [d]) \<Rightarrow> map_option (\<lambda>v. (10 * a + v) * 100000) (digit_val d)
            | _ \<Rightarrow> None)
      else if last s = CHR ''k'' then map_option (\<lambda>a. a * 1000) (py_uint (butlast s))
      else py_uint s)"

definition shown_value :: "int \<Rightarrow> nat" where
  "shown_value c =
     (if 1000000 \<le> c then tenths (nat c) * 100000
      else if 1000 \<le> c then nat (c div 1000) * 1000 else nat c)"

section \<open>The alphabet of the rendering\<close>

abbreviation decimal_digits :: "char set" where
  "decimal_digits \<equiv> digit_char ` {..<10}"

section \<open>Rounding to nearest, ties to even\<close>

lemma round_half_even_bounds:
  "a div b \<le> round_half_even a b \<and> round_half_even a b \<le> Suc (a div b)"
  by (simp add: round_half_even_def Let_def)

lemma round_half_even_mono:
  assumes "0 < b" and "a1 \<le> a2"
  shows "round_half_even a1 b \<le> round_half_even a2 b"
proof (cases "a1 div b = a2 div b")
  case True
  have "a1 mod b \<le> a2 mod b"
  proof -
    have "a1 = b * (a1 div b) + a1 mod b" by simp
    moreover have "a2 = b * (a1 div b) + a2 mod b" using True by simp
    ultimately show ?thesis using assms(2) by linarith
  qed
  with True show ?thesis by (auto simp: round_half_even_def Let_def)
next
  case False
  with assms have "a1 div b < a2 div b" using div_le_mono [of a1 a2 b] by simp
  then have "Suc (a1 div b) \<le> a2 div b" by simp
  with round_half_even_bounds [of a1 b] round_half_even_bounds [of a2 b] show ?thesis by linarith
qed

lemma round_half_even_le:
  assumes "0 < b" and "a \<le> k * b"
  shows "round_half_even a b \<le> k"
proof (cases "a div b < k")
  case True
  with round_half_even_bounds [of a b] show ?thesis by linarith
next
  case False
  have "a div b \<le> k" using assms by (metis div_le_mono nonzero_mult_div_cancel_right not_gr0)
  with False have q: "a div b = k" by simp
  have "a mod b = 0"
  proof -
    have "a = b * (a div b) + a mod b" by simp
    with q assms(2) show ?thesis by (simp add: mult.commute)
  qed
  with q assms(1) show ?thesis by (simp add: round_half_even_def Let_def)
qed

lemma round_half_even_ge:
  assumes "0 < b" and "k * b \<le> a"
  shows "k \<le> round_half_even a b"
proof -
  have "k \<le> a div b" using assms by (metis div_le_mono nonzero_mult_div_cancel_right not_gr0)
  with round_half_even_bounds [of a b] show ?thesis by linarith
qed

section \<open>The double nearest to \<open>count / 1_000_000\<close>\<close>

lemma floor_log2_bounds: "0 < n \<Longrightarrow> 2 ^ floor_log2 n \<le> n \<and> n < 2 ^ Suc (floor_log2 n)"
proof (induction n rule: floor_log2.induct)
  case (1 n)
  show ?case
  proof (cases "n < 2")
    case True
    with "1.prems" show ?thesis by (simp add: floor_log2.simps [of n])
  next
    case False
    then have "0 < n div 2" by simp
    with "1.IH" False have ih: "2 ^ floor_log2 (n div 2) \<le> n div 2 \<and> n div 2 < 2 ^ Suc (floor_log2 (n div 2))"
      by simp
    then show ?thesis using False by (simp add: floor_log2.simps [of n]) linarith
  qed
qed

lemma floor_log2_mono: "m \<le> n \<Longrightarrow> floor_log2 m \<le> floor_log2 n"
proof (induction n arbitrary: m rule: floor_log2.induct)
  case (1 n)
  show ?case
  proof (cases "m < 2")
    case True
    then show ?thesis by (simp add: floor_log2.simps [of m])
  next
    case False
    with "1.prems" have "\<not> n < 2" "m div 2 \<le> n div 2" by (simp_all add: div_le_mono)
    with "1.IH" show ?thesis by (simp add: floor_log2.simps [of m] floor_log2.simps [of n])
  qed
qed

section \<open>Bounds of the float model\<close>

lemma float_exp_bounds:
  assumes "1000000 \<le> c"
  shows "1000000 * 2 ^ float_exp c \<le> c \<and> c < 1000000 * 2 ^ Suc (float_exp c)"
proof -
  have "0 < c div 1000000" using assms by simp
  then have b: "2 ^ float_exp c \<le> c div 1000000 \<and> c div 1000000 < 2 ^ Suc (float_exp c)"
    unfolding float_exp_def by (rule floor_log2_bounds)
  then have "1000000 * 2 ^ float_exp c \<le> 1000000 * (c div 1000000)" by simp
  also have "\<dots> \<le> c" by simp
  finally have lo: "1000000 * 2 ^ float_exp c \<le> c" .
  from b have "c < 1000000 * 2 ^ Suc (float_exp c)"
    by (simp add: div_less_iff_less_mult mult.commute)
  with lo show ?thesis by simp
qed

lemma float_mant_bounds:
  assumes "1000000 \<le> c"
  shows "2 ^ 52 \<le> float_mant c \<and> float_mant c \<le> 2 ^ 53"
proof -
  let ?d = "1000000 * 2 ^ float_exp c :: nat"
  have d: "0 < ?d" by simp
  from float_exp_bounds [OF assms] have lo: "?d \<le> c" and hi: "c < 2 * ?d" by simp_all
  have "2 ^ 52 * ?d \<le> c * 2 ^ 52" using lo by simp
  then have "2 ^ 52 \<le> float_mant c"
    unfolding float_mant_def by (rule round_half_even_ge [OF d])
  moreover have "c * 2 ^ 52 \<le> 2 ^ 53 * ?d" using hi by simp
  then have "float_mant c \<le> 2 ^ 53"
    unfolding float_mant_def by (rule round_half_even_le [OF d])
  ultimately show ?thesis by simp
qed

lemma float_scaled_bounds:
  assumes "1000000 \<le> c"
  shows "2 ^ (52 + float_exp c) \<le> float_scaled c \<and> float_scaled c \<le> 2 ^ (53 + float_exp c)"
  using float_mant_bounds [OF assms] by (simp add: float_scaled_def power_add)

lemma float_scaled_mono:
  assumes "1000000 \<le> c1" and "c1 \<le> c2"
  shows "float_scaled c1 \<le> float_scaled c2"
proof -
  have c2: "1000000 \<le> c2" using assms by simp
  have e: "float_exp c1 \<le> float_exp c2"
    unfolding float_exp_def using assms(2) by (intro floor_log2_mono div_le_mono)
  show ?thesis
  proof (cases "float_exp c1 = float_exp c2")
    case True
    have "float_mant c1 \<le> float_mant c2"
      unfolding float_mant_def True using assms(2) by (intro round_half_even_mono) simp_all
    with True show ?thesis by (simp add: float_scaled_def)
  next
    case False
    with e have "53 + float_exp c1 \<le> 52 + float_exp c2" by simp
    then have "(2::nat) ^ (53 + float_exp c1) \<le> 2 ^ (52 + float_exp c2)"
      by (rule power_increasing) simp
    with float_scaled_bounds [OF assms(1)] float_scaled_bounds [OF c2] show ?thesis by linarith
  qed
qed

lemma tenths_mono: "1000000 \<le> c1 \<Longrightarrow> c1 \<le> c2 \<Longrightarrow> tenths c1 \<le> tenths c2"
  unfolding tenths_def by (intro round_half_even_mono) (simp_all add: float_scaled_mono)

lemma tenths_ge_10: "1000000 \<le> c \<Longrightarrow> 10 \<le> tenths c"
proof -
  assume c: "1000000 \<le> c"
  have "(2::nat) ^ 52 \<le> 2 ^ (52 + float_exp c)" by (rule power_increasing) simp_all
  with float_scaled_bounds [OF c] have "10 * 2 ^ 52 \<le> 10 * float_scaled c" by simp
  then show ?thesis unfolding tenths_def by (intro round_half_even_ge) simp_all
qed

lemma round_half_even_error:
  assumes "0 < b"
  shows "2 * \<bar>int (round_half_even a b * b) - int a\<bar> \<le> int b"
proof -
  have a: "int a = int (a div b * b) + int (a mod b)" by (simp only: of_nat_add [symmetric] div_mult_mod_eq)
  have r: "a mod b < b" using assms by simp
  have "(round_half_even a b = a div b \<and> 2 * (a mod b) \<le> b) \<or>
        (round_half_even a b = Suc (a div b) \<and> b \<le> 2 * (a mod b))"
    by (auto simp: round_half_even_def Let_def)
  then show ?thesis
  proof
    assume lo: "round_half_even a b = a div b \<and> 2 * (a mod b) \<le> b"
    with a have "int (round_half_even a b * b) - int a = - int (a mod b)" by simp
    then show ?thesis using lo by simp
  next
    assume hi: "round_half_even a b = Suc (a div b) \<and> b \<le> 2 * (a mod b)"
    then have "int (round_half_even a b * b) = int (a div b * b) + int b" by simp
    with a have d: "int (round_half_even a b * b) - int a = int b - int (a mod b)" by linarith
    from hi have h2: "b \<le> 2 * (a mod b)" by simp
    show ?thesis using d h2 r by simp
  qed
qed
section \<open>Reading the rendering back\<close>

lemma digit_char_ne:
  assumes "d < 10"
  shows "digit_char d \<noteq> CHR ''M''" "digit_char d \<noteq> CHR ''k''" "digit_char d \<noteq> CHR ''.''"
    "digit_char d \<noteq> CHR ''_''" "digit_char d \<noteq> CHR ''-''"
  using assms of_char_digit_char [OF assms]
  by (auto dest!: arg_cong [where f = "of_char :: char \<Rightarrow> nat"])

lemma str_nat_no_marks:
  "x \<in> set (str_nat n) \<Longrightarrow> x \<noteq> CHR ''M'' \<and> x \<noteq> CHR ''k'' \<and> x \<noteq> CHR ''.''"
  by (auto dest!: str_nat_digits simp: digit_char_ne)

lemma str_nat_ne_Nil [simp]: "str_nat n \<noteq> []"
  using str_nat_Cons [of n] by auto

lemma last_str_nat: "last (str_nat n) \<noteq> CHR ''M'' \<and> last (str_nat n) \<noteq> CHR ''k''"
  using str_nat_no_marks [of "last (str_nat n)" n] by simp

lemma parse_human_millions:
  "d < 10 \<Longrightarrow> parse_human (str_nat n @ [CHR ''.'', digit_char d, CHR ''M'']) = Some ((10 * n + d) * 100000)"
proof -
  assume d: "d < 10"
  have tw: "takeWhile (\<lambda>x. x \<noteq> CHR ''.'') (str_nat n @ [CHR ''.'', digit_char d]) = str_nat n"
    by (simp add: takeWhile_append2 str_nat_no_marks)
  have bl: "butlast (str_nat n @ [CHR ''.'', digit_char d, CHR ''M'']) = str_nat n @ [CHR ''.'', digit_char d]"
    by (simp add: butlast_append)
  show ?thesis using d
    by (simp add: parse_human_def bl tw py_uint_str_nat Let_def)
qed

lemma parse_human_format:
  assumes "0 \<le> c" and "format_token_count c = Inr s"
  shows "parse_human s = Some (shown_value c)"
proof -
  consider (m) "1000000 \<le> c" | (k) "1000 \<le> c" "c < 1000000" | (u) "c < 1000" by linarith
  then show ?thesis
  proof cases
    case m
    then have "s = str_nat (tenths (nat c) div 10) @ [CHR ''.'', digit_char (tenths (nat c) mod 10), CHR ''M'']"
      using assms(2) by (simp add: format_token_count_def format_millions_def split: if_splits)
    then have "parse_human s = Some ((10 * (tenths (nat c) div 10) + tenths (nat c) mod 10) * 100000)"
      by (simp add: parse_human_millions)
    with m show ?thesis by (simp add: shown_value_def)
  next
    case k
    moreover have "0 \<le> c div 1000" using k by simp
    ultimately have s: "s = str_nat (nat (c div 1000)) @ ''k''"
      using assms(2) by (simp add: format_token_count_def py_str_int_def)
    have "parse_human s = Some (nat (c div 1000) * 1000)"
      using last_str_nat [of "nat (c div 1000)"] by (simp add: s parse_human_def py_uint_str_nat)
    with k show ?thesis by (simp add: shown_value_def)
  next
    case u
    then have s: "s = str_nat (nat c)"
      using assms by (simp add: format_token_count_def py_str_int_def split: if_splits)
    have "parse_human s = Some (nat c)"
      using last_str_nat [of "nat c"] by (simp add: s parse_human_def py_uint_str_nat)
    with u show ?thesis by (simp add: shown_value_def)
  qed
qed

lemma k_band_le: "0 \<le> (c::int) \<Longrightarrow> nat (c div 1000) * 1000 \<le> nat c"
proof -
  assume c: "0 \<le> c"
  have "c div 1000 * 1000 \<le> c"
    using div_mult_mod_eq [of c 1000] pos_mod_sign [of 1000 c] by linarith
  then have "nat (c div 1000 * 1000) \<le> nat c" by (rule nat_mono)
  moreover have "nat (c div 1000 * 1000) = nat (c div 1000) * 1000"
    using c by (simp add: nat_mult_distrib)
  ultimately show ?thesis by simp
qed
lemma shown_value_mono:
  assumes "0 \<le> c1" and "c1 \<le> c2"
  shows "shown_value c1 \<le> shown_value c2"
proof -
  show ?thesis
  proof (cases "1000000 \<le> c2")
    case c2m: True
    show ?thesis
    proof (cases "1000000 \<le> c1")
      case True
      with assms have "tenths (nat c1) \<le> tenths (nat c2)" by (intro tenths_mono) simp_all
      with True c2m show ?thesis by (simp add: shown_value_def)
    next
      case False
      have "10 \<le> tenths (nat c2)" using c2m by (intro tenths_ge_10) simp
      moreover have "shown_value c1 \<le> nat c1" using assms(1) False k_band_le by (simp add: shown_value_def)
      ultimately show ?thesis using False c2m by (simp add: shown_value_def)
    qed
  next
    case False
    then have c1: "\<not> 1000000 \<le> c1" using assms by simp
    show ?thesis
    proof (cases "1000 \<le> c2")
      case True
      have "c1 div 1000 \<le> c2 div 1000" using assms(2) by (rule zdiv_mono1) simp
      moreover have "1 \<le> c2 div 1000" using True by simp
      moreover have "0 \<le> c1 div 1000" using assms(1) by simp
      ultimately have "nat (c1 div 1000) * 1000 \<le> nat (c2 div 1000) * 1000"
        "1000 \<le> nat (c2 div 1000) * 1000" by simp_all
      moreover have "nat c1 < 1000" if "\<not> 1000 \<le> c1" using that by simp
      ultimately show ?thesis using False c1 True
        by (cases "1000 \<le> c1") (simp_all add: shown_value_def)
    next
      case c2u: False
      then show ?thesis using assms False c1 by (simp add: shown_value_def)
    qed
  qed
qed

text \<open>
  The \<open>M\<close> rendering is within half a tenth of a million of the count, up to
  the relative error \<open>2^-53\<close> of the double: scaled by \<open>2^53\<close>, the distance
  is at most \<open>2^52 * 10^5 + c\<close>.
\<close>

lemma tenths_error:
  assumes "1000000 \<le> c"
  shows "2 ^ 53 * \<bar>int (tenths c * 100000) - int c\<bar> \<le> 2 ^ 52 * 100000 + int c"
proof -
  let ?e = "float_exp c" let ?d = "1000000 * 2 ^ float_exp c :: nat"
  let ?F = "float_scaled c" let ?T = "tenths c"
  have md: "float_mant c * ?d = 1000000 * ?F" by (simp add: float_scaled_def)
  have E1: "2 * \<bar>int (float_mant c * ?d) - int (c * 2 ^ 52)\<bar> \<le> int ?d"
    unfolding float_mant_def by (rule round_half_even_error) simp
  have E2: "2 * \<bar>int (?T * 2 ^ 52) - int (10 * ?F)\<bar> \<le> 2 ^ 52"
    unfolding tenths_def using round_half_even_error [of "2 ^ 52" "10 * ?F"] by simp
  have "?d \<le> c" using float_exp_bounds [OF assms] by simp
  then have D: "int ?d \<le> int c" by (simp only: of_nat_le_iff)
  have E1': "2 * \<bar>1000000 * int ?F - int c * 2 ^ 52\<bar> \<le> int ?d"
    using E1 md by simp
  have E2': "2 * \<bar>int ?T * 2 ^ 52 - 10 * int ?F\<bar> \<le> 2 ^ 52"
    using E2 by simp
  have "2 ^ 53 * \<bar>int ?T * 100000 - int c\<bar> \<le> 2 ^ 52 * 100000 + int c"
    using E1' E2' D unfolding abs_le_iff by (simp add: abs_if split: if_splits)
  then show ?thesis by simp
qed

section \<open>Claims about the rendering\<close>

text \<open>The equations that evaluate \<open>format_token_count\<close> at a literal count.\<close>

lemmas format_eval = format_token_count_def format_millions_def tenths_def float_scaled_def
  float_mant_def float_exp_def round_half_even_def floor_log2.simps str_nat.simps
  py_str_int_def str_int_ok_def max_str_digits_def py_simps

text \<open>
  \<^verbatim>\<open>_format_token_count\<close> on the boundary cases of the spec and on the
  floating-point cases: 999 is \<open>999\<close>, 1000 is \<open>1k\<close>, 999999 is \<open>999k\<close> (thousands
  are truncated, not rounded), 1000000 is \<open>1.0M\<close>, 1050000 is \<open>1.1M\<close> (the double
  nearest to 1.05 lies above it) and 1250000 is \<open>1.2M\<close> (an exact tie goes to
  the even digit).
\<close>

theorem format_token_count_values:
  "format_token_count 999 = Inr ''999'' \<and> format_token_count 1000 = Inr ''1k'' \<and>
   format_token_count 999999 = Inr ''999k'' \<and> format_token_count 1000000 = Inr ''1.0M'' \<and>
   format_token_count 1050000 = Inr ''1.1M'' \<and> format_token_count 1250000 = Inr ''1.2M''"
  by (simp add: format_eval)

text \<open>
  C18. The rendering is monotone across the three bands: for counts
  \<open>0 \<le> c1 \<le> c2\<close>, both renderings read back to values and the value of
  \<open>c1\<close>'s is at most that of \<open>c2\<close>'s.
\<close>

theorem format_token_count_monotone:
  assumes "0 \<le> c1" and "c1 \<le> c2"
    and "format_token_count c1 = Inr s1" and "format_token_count c2 = Inr s2"
  shows "\<exists>v1 v2. parse_human s1 = Some v1 \<and> parse_human s2 = Some v2 \<and> v1 \<le> v2"
  using parse_human_format [OF assms(1,3)] parse_human_format [OF _ assms(4)] assms(1,2)
    shown_value_mono [OF assms(1,2)] by simp

theorem format_token_count_monotone_witness:
  "parse_human ''999k'' = Some 999000 \<and> parse_human ''1.0M'' = Some 1000000 \<and> (999000::nat) \<le> 1000000"
proof -
  have f: "format_token_count 999999 = Inr ''999k''" "format_token_count 1000000 = Inr ''1.0M''"
    by (simp_all add: format_eval)
  obtain v1 v2 where "parse_human ''999k'' = Some v1" "parse_human ''1.0M'' = Some v2" "v1 \<le> v2"
    using format_token_count_monotone [OF _ _ f] by fastforce
  moreover have "parse_human ''999k'' = Some 999000" "parse_human ''1.0M'' = Some 1000000"
    by (simp_all add: parse_human_def py_uint_def digit_val_def)
  ultimately show ?thesis by simp
qed

text \<open>
  C19. The rendering is accurate: below a million it truncates to the thousand
  (\<open>v \<le> c < v + 1000\<close>, exact below 1000); from a million on it is within
  \<open>50000 + c / 2^53\<close> of the count.
\<close>

theorem format_token_count_accuracy:
  assumes "0 \<le> c" and "format_token_count c = Inr s"
  shows "\<exists>v. parse_human s = Some v \<and>
           (c < 1000000 \<longrightarrow> int v \<le> c \<and> c < int v + 1000) \<and>
           (1000000 \<le> c \<longrightarrow> 2 ^ 53 * \<bar>int v - c\<bar> \<le> 2 ^ 52 * 100000 + c)"
proof -
  have p: "parse_human s = Some (shown_value c)" by (rule parse_human_format [OF assms])
  have lo: "int (shown_value c) \<le> c \<and> c < int (shown_value c) + 1000" if "c < 1000000"
  proof (cases "1000 \<le> c")
    case True
    have "c div 1000 * 1000 \<le> c" "c < c div 1000 * 1000 + 1000"
      using div_mult_mod_eq [of c 1000] pos_mod_sign [of 1000 c] pos_mod_bound [of 1000 c] by linarith+
    with True that show ?thesis by (simp add: shown_value_def)
  next
    case False
    with that assms(1) show ?thesis by (simp add: shown_value_def)
  qed
  have hi: "2 ^ 53 * \<bar>int (shown_value c) - c\<bar> \<le> 2 ^ 52 * 100000 + c" if "1000000 \<le> c"
    using tenths_error [of "nat c"] that by (simp add: shown_value_def)
  show ?thesis using p lo hi by blast
qed

theorem format_token_count_accuracy_witness:
  "parse_human ''1.1M'' = Some 1100000 \<and>
   2 ^ 53 * \<bar>int 1100000 - 1050000\<bar> \<le> 2 ^ 52 * 100000 + (1050000::int)"
proof -
  have f: "format_token_count 1050000 = Inr ''1.1M''" by (simp add: format_eval)
  obtain v where "parse_human ''1.1M'' = Some v"
      "2 ^ 53 * \<bar>int v - 1050000\<bar> \<le> 2 ^ 52 * 100000 + (1050000::int)"
    using format_token_count_accuracy [OF _ f] by fastforce
  moreover have "parse_human ''1.1M'' = Some 1100000"
    by (simp add: parse_human_def py_uint_def digit_val_def)
  ultimately show ?thesis by simp
qed

section \<open>The alphabet of the rendering\<close>

lemma str_nat_length: "n < 10 ^ k \<Longrightarrow> 0 < k \<Longrightarrow> length (str_nat n) \<le> k"
proof (induction n arbitrary: k rule: str_nat.induct)
  case (1 n)
  show ?case
  proof (cases "n < 10")
    case True
    with "1.prems" show ?thesis by (simp add: str_nat.simps [of n])
  next
    case False
    have "k \<noteq> 1" using "1.prems"(1) False by auto
    with "1.prems"(2) have k: "1 < k" by linarith
    with "1.prems" have "n div 10 < 10 ^ (k - 1)"
      by (metis Suc_diff_1 less_mult_imp_div_less mult.commute power_Suc zero_less_one order.strict_trans)
    with "1.IH" False k have "length (str_nat (n div 10)) \<le> k - 1" by simp
    with False k show ?thesis by (simp add: str_nat.simps [of n])
  qed
qed

lemma not_decimal_digit: "(\<And>d. d < 10 \<Longrightarrow> digit_char d \<noteq> x) \<Longrightarrow> x \<notin> decimal_digits"
  by blast

lemma marks_not_digits:
  "CHR ''M'' \<notin> decimal_digits" "CHR ''k'' \<notin> decimal_digits" "CHR ''.'' \<notin> decimal_digits"
  "CHR ''_'' \<notin> decimal_digits" "CHR ''-'' \<notin> decimal_digits"
  by (rule not_decimal_digit, erule digit_char_ne)+

lemma format_token_count_shape:
  assumes "format_token_count c = Inr h"
  shows "CHR ''_'' \<notin> set h \<and> (set h \<subseteq> decimal_digits \<longrightarrow> length h \<le> 3)"
proof -
  have nu: "CHR ''_'' \<notin> set (str_nat n)" for n
    by (metis imageE lessThan_iff str_nat_digits digit_char_ne(4))
  consider (m) "1000000 \<le> c" | (k) "1000 \<le> c" "c < 1000000" | (n) "c < 0" | (u) "0 \<le> c" "c < 1000"
    by linarith
  then show ?thesis
  proof cases
    case m
    then have "h = str_nat (tenths (nat c) div 10) @ ''.'' @ [digit_char (tenths (nat c) mod 10)] @ ''M''"
      using assms by (simp add: format_token_count_def format_millions_def split: if_splits)
    then show ?thesis using nu digit_char_ne(4) [of "tenths (nat c) mod 10"] marks_not_digits(1) by auto
  next
    case k
    then obtain i where "h = py_str_int i @ ''k''"
      using assms by (auto simp: format_token_count_def)
    then show ?thesis using nu marks_not_digits(2) by (auto simp: py_str_int_def)
  next
    case n
    then have "h = CHR ''-'' # str_nat (nat (- c))"
      using assms by (simp add: format_token_count_def py_str_int_def split: if_splits)
    then show ?thesis using nu marks_not_digits(5) by auto
  next
    case u
    then have h: "h = str_nat (nat c)"
      using assms by (simp add: format_token_count_def py_str_int_def split: if_splits)
    have "nat c < 10 ^ 3" using u by simp
    then have "length (str_nat (nat c)) \<le> 3" by (rule str_nat_length) simp
    with h nu show ?thesis by simp
  qed
qed

text \<open>
  C15. The human-readable count is a non-empty word over the digits, the
  decimal point, \<^verbatim>\<open>k\<close>, \<^verbatim>\<open>M\<close> and the minus sign: it never contains the
  underscore that separates the fields of an artifact name, nor a path
  separator.
\<close>

theorem format_token_count_alphabet:
  assumes "format_token_count c = Inr h"
  shows "h \<noteq> [] \<and> set h \<subseteq> decimal_digits \<union> {CHR ''.'', CHR ''k'', CHR ''M'', CHR ''-''}"
proof -
  have sd: "set (str_nat n) \<subseteq> decimal_digits" for n using str_nat_digits by blast
  consider (m) "1000000 \<le> c" | (k) "1000 \<le> c" "c < 1000000" | (s) "c < 1000" by linarith
  then show ?thesis
  proof cases
    case m
    then have "h = str_nat (tenths (nat c) div 10) @ ''.'' @ [digit_char (tenths (nat c) mod 10)] @ ''M''"
      using assms by (simp add: format_token_count_def format_millions_def split: if_splits)
    then show ?thesis using sd by auto
  next
    case k
    then obtain i where "h = py_str_int i @ ''k''"
      using assms by (auto simp: format_token_count_def)
    then show ?thesis using sd by (auto simp: py_str_int_def)
  next
    case s
    then have "h = py_str_int c" using assms by (simp add: format_token_count_def split: if_splits)
    then show ?thesis using sd by (auto simp: py_str_int_def)
  qed
qed

theorem format_token_count_alphabet_witness:
  "''1.1M'' \<noteq> [] \<and> set ''1.1M'' \<subseteq> decimal_digits \<union> {CHR ''.'', CHR ''k'', CHR ''M'', CHR ''-''}"
  by (rule format_token_count_alphabet [of 1050000]) (simp add: format_eval)

end
