(* ===== verification/Externals.thy ===== *)
theory Externals
  imports Prelude
begin

text \<open>
  The interface between the program and the processes and services it calls.
  A subprocess run (\<^verbatim>\<open>subprocess.run(..., capture_output=True, text=True)\<close>)
  either fails to start (the binary is missing or not executable: an
  \<^verbatim>\<open>OSError\<close> such as \<^verbatim>\<open>FileNotFoundError\<close>) or completes with a return code and
  its decoded standard output and error. With \<^verbatim>\<open>check=True\<close> a non-zero code
  raises \<^verbatim>\<open>CalledProcessError\<close>, which each caller handles itself. An HTTP GET
  (\<^verbatim>\<open>requests.get\<close>) either raises (connection failure, the 5 s timeout) or
  returns a status code and a body that \<^verbatim>\<open>response.json()\<close> parses to a JSON
  value or fails on. The outcomes are inputs of the model: every theorem holds
  for all of them.
\<close>

text \<open>
  The \<^verbatim>\<open>OSError\<close> of a process that cannot be started: \<^verbatim>\<open>ENOENT\<close> raises
  \<^verbatim>\<open>FileNotFoundError\<close>, \<^verbatim>\<open>EACCES\<close> \<^verbatim>\<open>PermissionError\<close>, anything else a
  plain \<^verbatim>\<open>OSError\<close>.
\<close>

datatype os_error = Os_not_found | Os_permission | Os_other

definition os_exc :: "os_error \<Rightarrow> py_exc" where
  "os_exc oe = (case oe of Os_not_found \<Rightarrow> FileNotFoundError | Os_permission \<Rightarrow> PermissionError | Os_other \<Rightarrow> OSError)"

datatype proc_result =
    Proc_os_error os_error
  | Proc_done int string string

datatype json =
    JNull
  | JBool bool
  | JNum int
  | JStr string
  | JArr "json list"
  | JObj "(string \<times> json) list"

datatype http_result =
    Http_error
  | Http_response int "json option"

text \<open>\<^verbatim>\<open>data.get(key)\<close> on a parsed object: \<^verbatim>\<open>json.loads\<close> keeps the last of duplicate keys.\<close>

definition json_get :: "(string \<times> json) list \<Rightarrow> string \<Rightarrow> json option" where
  "json_get kvs k = map_of (rev kvs) k"

end
