(* ===== verification/TokenCount.thy ===== *)
theory TokenCount
  imports PyStr Utf8 Externals
begin

text \<open>
  \<^verbatim>\<open>GitIngestManager._count_tokens\<close> (lines 75--114). The counter binary's
  existence (\<^verbatim>\<open>Path(self.token_counter).exists()\<close>), the outcome of running it and
  the bytes of the measured file (\<open>None\<close> when the file does not exist) are
  the inputs. The character count is always the length of the file read as
  UTF-8 text with universal newlines; the fallback estimate is that length
  \<^verbatim>\<open>// 4\<close>.
\<close>

definition char_fallback :: "byte list option \<Rightarrow> py_exc + int \<times> nat" where
  "char_fallback content =
     (case content of
        None \<Rightarrow> Inl FileNotFoundError
      | Some bs \<Rightarrow>
          (case read_text bs of
             Inl e \<Rightarrow> Inl e
           | Inr t \<Rightarrow> Inr (int (length t div 4), length t)))"

definition char_count :: "byte list option \<Rightarrow> py_exc + nat" where
  "char_count content =
     (case content of
        None \<Rightarrow> Inl FileNotFoundError
      | Some bs \<Rightarrow> (case read_text bs of Inl e \<Rightarrow> Inl e | Inr t \<Rightarrow> Inr (length t)))"

text \<open>
  The primary path: the first whitespace-separated field of the counter's
  standard output must parse with \<^verbatim>\<open>int()\<close>; otherwise \<^verbatim>\<open>ValueError\<close> escapes, since
  only \<^verbatim>\<open>CalledProcessError\<close> is caught.
\<close>

definition count_tokens :: "bool \<Rightarrow> proc_result \<Rightarrow> byte list option \<Rightarrow> py_exc + int \<times> nat" where
  "count_tokens counter_exists run content =
     (if \<not> counter_exists then char_fallback content
      else
        (case run of
           Proc_os_error oe \<Rightarrow> Inl (os_exc oe)
         | Proc_done rc out err \<Rightarrow>
             if rc \<noteq> 0 then char_fallback content
             else
               (case py_split_ws (py_strip out) of
                  [] \<Rightarrow> Inl ValueError
                | w # _ \<Rightarrow>
                    (case py_int w of
                       None \<Rightarrow> Inl ValueError
                     | Some n \<Rightarrow>
                         (case char_count content of
                            Inl e \<Rightarrow> Inl e
                          | Inr cc \<Rightarrow> Inr (n, cc))))))"

section \<open>Properties of \<^verbatim>\<open>_count_tokens\<close>\<close>

lemma py_split_ws_py_str_int:
  "rest = [] \<or> py_isspace (hd rest) \<Longrightarrow> py_split_ws (py_str_int n @ rest) = py_str_int n # py_split_ws rest"
  by (rule py_split_ws_Cons) (auto dest: py_str_int_no_space)

text \<open>
  C3. The fallback estimate: when the counter binary is absent, or runs and
  exits non-zero, the token count is the character count \<^verbatim>\<open>// 4\<close> and the
  character count is the length of the file's decoded text.
\<close>

theorem count_tokens_fallback:
  assumes "\<not> counter_exists \<or> (\<exists>rc out err. run = Proc_done rc out err \<and> rc \<noteq> 0)"
    and "read_text bs = Inr t"
  shows "count_tokens counter_exists run (Some bs) = Inr (int (length t div 4), length t)"
  using assms by (auto simp: count_tokens_def char_fallback_def)

lemma count_tokens_ascii_4000:
  "read_text (replicate 4000 (97 :: byte)) = Inr (replicate 4000 97)"
  by (simp add: read_text_ascii)

theorem count_tokens_fallback_witness:
  "count_tokens False (Proc_os_error Os_not_found) (Some (replicate 4000 97)) = Inr (1000, 4000)"
  using count_tokens_fallback [of False "Proc_os_error Os_not_found", OF _ count_tokens_ascii_4000] by simp

text \<open>
  C22. The primary path follows the counter's contract: when it exits 0 and its
  standard output starts with \<^verbatim>\<open>str(n)\<close> followed by whitespace or nothing
  (\<^verbatim>\<open>"<count> <file>"\<close>) and \<open>n\<close> has at most 4300 digits (the limit of
  \<^verbatim>\<open>int()\<close>), the token count is \<open>n\<close> and the character count is still measured
  from the file.
\<close>

theorem count_tokens_primary:
  assumes "counter_exists" and "run = Proc_done 0 (py_str_int n @ rest) err"
    and "rest = [] \<or> py_isspace (hd rest)" and "\<bar>n\<bar> < 10 ^ max_str_digits"
    and "char_count content = Inr cc"
  shows "count_tokens counter_exists run content = Inr (n, cc)"
  using assms by (simp add: count_tokens_def py_split_ws_strip py_split_ws_py_str_int str_int_ok_iff)

theorem count_tokens_primary_witness:
  "count_tokens True (Proc_done 0 (py_str_int 1000 @ '' out/repo1_temp.md'') [])
     (Some (replicate 4000 97)) = Inr (1000, 4000)"
proof -
  have cc: "char_count (Some (replicate 4000 97)) = Inr 4000"
    by (simp add: char_count_def count_tokens_ascii_4000)
  have "str_int_ok 1000" by (simp add: str_int_ok_def max_str_digits_def str_nat.simps)
  then have lim: "\<bar>1000::int\<bar> < 10 ^ max_str_digits" by (simp only: str_int_ok_iff)
  show ?thesis
    by (rule count_tokens_primary [OF TrueI refl _ lim cc]) (simp add: py_isspace_def)
qed

text \<open>
  C23. Malformed counter output is fatal, not degraded: when the counter exits 0
  but its output has no field, or its first field is not an integer,
  \<^verbatim>\<open>_count_tokens\<close> raises \<^verbatim>\<open>ValueError\<close> instead of falling back to the estimate.
\<close>

theorem count_tokens_malformed:
  assumes "counter_exists" and "run = Proc_done 0 out err"
    and "py_split_ws out = [] \<or> py_int (hd (py_split_ws out)) = None"
  shows "count_tokens counter_exists run content = Inl ValueError"
  using assms by (auto simp: count_tokens_def py_split_ws_strip split: list.split)

theorem count_tokens_malformed_witness:
  "count_tokens True (Proc_done 0 (''Error:'' @ '' no model'') []) (Some (replicate 4000 97)) = Inl ValueError"
proof -
  have "py_split_ws (''Error:'' @ '' no model'') = ''Error:'' # py_split_ws '' no model''"
    by (rule py_split_ws_Cons) (simp_all add: py_isspace_def)
  moreover have "py_int ''Error:'' = None"
    by (simp add: py_int_def py_strip_def py_isspace_def py_uint_def digit_val_def digit_count_def)
  ultimately show ?thesis by (intro count_tokens_malformed [OF TrueI refl]) simp
qed

end
