(* ===== verification/Version.thy ===== *)
theory Version
  imports PyStr Externals
begin

text \<open>
  \<^verbatim>\<open>GitIngestManager._get_github_version\<close> (lines 130--166). The outcome of
  \<^verbatim>\<open>git -C <path> config --get remote.origin.url\<close> and the HTTP GET of a URL
  are inputs. Only \<^verbatim>\<open>CalledProcessError\<close> is caught around the whole body and
  \<^verbatim>\<open>Exception\<close> around the request, so the model's result is an exception that
  escapes (\<open>Inl\<close>) or the returned optional version (\<open>Inr\<close>). The URL handling
  is split off as \<open>github_api_url\<close>: it strips \<^verbatim>\<open>.git\<close>, takes the last two
  \<^verbatim>\<open>/\<close>-separated fields as owner and repository, and raises
  \<^verbatim>\<open>IndexError\<close> when there is only one.
\<close>

definition git_remote_argv :: "string \<Rightarrow> string list" where
  "git_remote_argv repo_path = [''git'', ''-C'', repo_path, ''config'', ''--get'', ''remote.origin.url'']"

definition strip_git_suffix :: "string \<Rightarrow> string" where
  "strip_git_suffix url = (if py_endswith url ''.git'' then take (length url - 4) url else url)"

definition github_api_url :: "string \<Rightarrow> py_exc + string option" where
  "github_api_url remote_url =
     (if \<not> py_in ''github.com'' remote_url then Inr None
      else
        (let parts = py_slice_from (-2) (py_split_char CHR ''/'' (strip_git_suffix remote_url))
         in if length parts < 2 then Inl IndexError
            else Inr (Some (''https://api.github.com/repos/'' @ parts ! 0 @ ''/'' @ parts ! 1
                            @ ''/releases/latest''))))"

text \<open>\<^verbatim>\<open>if tag_name.startswith('v'): tag_name = tag_name[1:]\<close>\<close>

definition strip_v :: "string \<Rightarrow> string" where
  "strip_v tag = (if starts_with tag ''v'' then drop 1 tag else tag)"

text \<open>
  The response handling inside \<^verbatim>\<open>try ... except Exception\<close>: only a 200 response
  whose body is a JSON object yields a version; a missing \<^verbatim>\<open>tag_name\<close> yields
  the empty string, a non-string one fails \<^verbatim>\<open>startswith\<close> and is caught.
\<close>

definition release_tag :: "http_result \<Rightarrow> string option" where
  "release_tag r =
     (case r of
        Http_error \<Rightarrow> None
      | Http_response status body \<Rightarrow>
          if status \<noteq> 200 then None
          else
            (case body of
               Some (JObj kvs) \<Rightarrow>
                 (case json_get kvs ''tag_name'' of
                    None \<Rightarrow> Some []
                  | Some (JStr t) \<Rightarrow> Some (strip_v t)
                  | Some _ \<Rightarrow> None)
             | _ \<Rightarrow> None))"

definition get_github_version ::
  "proc_result \<Rightarrow> (string \<Rightarrow> http_result) \<Rightarrow> py_exc + string option" where
  "get_github_version git http =
     (case git of
        Proc_os_error oe \<Rightarrow> Inl (os_exc oe)
      | Proc_done rc out err \<Rightarrow>
          if rc \<noteq> 0 then Inr None
          else
            (case github_api_url (py_strip out) of
               Inl e \<Rightarrow> Inl e
             | Inr None \<Rightarrow> Inr None
             | Inr (Some api) \<Rightarrow> Inr (release_tag (http api))))"

section \<open>Properties of the version lookup\<close>

lemma py_strip_newline:
  assumes "s \<noteq> []" and "\<forall>c \<in> set s. \<not> py_isspace c"
  shows "py_strip (s @ [CHR ''\<newline>'']) = s"
proof -
  have nl: "py_isspace CHR ''\<newline>''" by (simp add: py_isspace_def)
  have "dropWhile py_isspace (s @ [CHR ''\<newline>'']) = s @ [CHR ''\<newline>'']"
    using assms by (cases s) auto
  moreover have "dropWhile py_isspace (rev s) = rev s"
    using assms by (cases "rev s") auto
  ultimately show ?thesis using nl by (simp add: py_strip_def)
qed

lemma split_slash_github:
  assumes "CHR ''/'' \<notin> set owner" and "CHR ''/'' \<notin> set repo"
  shows "py_split_char CHR ''/'' (pre @ ''/'' @ owner @ ''/'' @ repo) =
           py_split_char CHR ''/'' pre @ [owner, repo]"
proof (induction pre)
  case Nil
  then show ?case using assms by (simp add: py_split_char_append_sep py_split_char_no_sep)
next
  case (Cons x pre)
  then show ?case by (cases "py_split_char CHR ''/'' pre") (auto simp: Let_def)
qed

lemma github_api_url_https:
  assumes "CHR ''/'' \<notin> set owner" and "CHR ''/'' \<notin> set repo"
  shows "github_api_url (''https://github.com/'' @ owner @ ''/'' @ repo @ ''.git'') =
           Inr (Some (''https://api.github.com/repos/'' @ owner @ ''/'' @ repo @ ''/releases/latest''))"
proof -
  have "py_in ''github.com'' (''https://'' @ ''github.com'' @ ''/'' @ owner @ ''/'' @ repo @ ''.git'')"
    by (rule py_in_append_middle)
  then have g: "py_in ''github.com'' (''https://github.com/'' @ owner @ ''/'' @ repo @ ''.git'')"
    by simp
  have s: "strip_git_suffix (''https://github.com/'' @ owner @ ''/'' @ repo @ ''.git'') =
           ''https://github.com'' @ ''/'' @ owner @ ''/'' @ repo"
    by (simp add: strip_git_suffix_def py_endswith_def)
  have p: "py_split_char CHR ''/'' (''https://github.com'' @ ''/'' @ owner @ ''/'' @ repo) =
           [''https:'', [], ''github.com'', owner, repo]"
    using split_slash_github [OF assms, of "''https://github.com''"] by (simp add: Let_def)
  show ?thesis
    using g by (simp only: github_api_url_def s p Let_def) (simp add: py_slice_from_def)
qed

lemma github_api_url_no_slash:
  "py_in ''github.com'' url \<Longrightarrow> CHR ''/'' \<notin> set url \<Longrightarrow> github_api_url url = Inl IndexError"
proof -
  assume g: "py_in ''github.com'' url" and n: "CHR ''/'' \<notin> set url"
  have "CHR ''/'' \<notin> set (strip_git_suffix url)"
    using n by (auto simp: strip_git_suffix_def dest: in_set_takeD)
  then have "py_split_char CHR ''/'' (strip_git_suffix url) = [strip_git_suffix url]"
    by (rule py_split_char_no_sep)
  with g show ?thesis by (simp add: github_api_url_def py_slice_from_def)
qed

text \<open>
  C26. For an HTTPS remote \<^verbatim>\<open>https://github.com/<owner>/<repo>.git\<close> as printed by
  \<^verbatim>\<open>git config\<close> (with its newline), the resolver queries
  \<^verbatim>\<open>https://api.github.com/repos/<owner>/<repo>/releases/latest\<close> and returns
  what the response gives: the tag without a leading \<open>v\<close> on a 200 response
  with a string \<^verbatim>\<open>tag_name\<close>, and no version on every other response.
\<close>

theorem get_github_version_https:
  assumes "CHR ''/'' \<notin> set owner" and "CHR ''/'' \<notin> set repo"
    and "\<forall>c \<in> set owner \<union> set repo. \<not> py_isspace c"
    and "git = Proc_done 0 (''https://github.com/'' @ owner @ ''/'' @ repo @ ''.git'' @ ''\<newline>'') err"
  shows "get_github_version git http =
           Inr (release_tag (http (''https://api.github.com/repos/'' @ owner @ ''/'' @ repo @ ''/releases/latest'')))"
proof -
  have ns: "\<forall>c \<in> set (''https://github.com/'' @ owner @ ''/'' @ repo @ ''.git''). \<not> py_isspace c"
    using assms(3) by (auto simp: py_isspace_def)
  have "py_strip ((''https://github.com/'' @ owner @ ''/'' @ repo @ ''.git'') @ [CHR ''\<newline>'']) =
        ''https://github.com/'' @ owner @ ''/'' @ repo @ ''.git''"
    by (rule py_strip_newline [OF _ ns]) simp
  then show ?thesis
    using assms(4) github_api_url_https [OF assms(1,2)] by (simp add: get_github_version_def)
qed

theorem get_github_version_https_witness:
  "get_github_version (Proc_done 0 (''https://github.com/'' @ ''octo'' @ ''/'' @ ''tool'' @ ''.git'' @ ''\<newline>'') [])
     (\<lambda>u. if u = ''https://api.github.com/repos/'' @ ''octo'' @ ''/'' @ ''tool'' @ ''/releases/latest''
          then Http_response 200 (Some (JObj [(''tag_name'', JStr ''v1.2.3'')])) else Http_error)
   = Inr (Some ''1.2.3'')"
proof -
  have "\<forall>c \<in> set ''octo'' \<union> set ''tool''. \<not> py_isspace c" by (simp add: py_isspace_def)
  from get_github_version_https [OF _ _ this refl] show ?thesis
    by (simp add: release_tag_def json_get_def strip_v_def)
qed

text \<open>
  C27. Two exceptions escape the resolver, contrary to "any failure yields no
  version": the \<^verbatim>\<open>OSError\<close> of a \<^verbatim>\<open>git\<close> that cannot be started
  (\<^verbatim>\<open>FileNotFoundError\<close>, \<^verbatim>\<open>PermissionError\<close>, ...), and
  \<^verbatim>\<open>IndexError\<close> when the remote mentions \<^verbatim>\<open>github.com\<close> but has no \<^verbatim>\<open>/\<close>
  (line 147 reads \<^verbatim>\<open>parts[1]\<close> of a one-element list). No other exception
  escapes.
\<close>

theorem get_github_version_errors:
  assumes "get_github_version git http = Inl e"
  shows "(\<exists>oe. git = Proc_os_error oe \<and> e = os_exc oe) \<or>
         (e = IndexError \<and> (\<exists>out err. git = Proc_done 0 out err \<and> py_in ''github.com'' (py_strip out)))"
  using assms
  by (auto simp: get_github_version_def github_api_url_def Let_def
      split: proc_result.splits if_splits sum.splits option.splits)

theorem get_github_version_errors_witness:
  "get_github_version (Proc_done 0 ''github.com'' []) (\<lambda>_. Http_error) = Inl IndexError \<and>
   (IndexError = IndexError \<and> (\<exists>out err. Proc_done 0 ''github.com'' [] = Proc_done 0 out err \<and>
      py_in ''github.com'' (py_strip out)))"
proof -
  have s: "py_strip ''github.com'' = ''github.com''" by (rule py_strip_no_space) (simp add: py_isspace_def)
  have g: "py_in ''github.com'' ''github.com''" using py_in_append_middle [of "''github.com''" "[]" "[]"] by simp
  have h: "get_github_version (Proc_done 0 ''github.com'' []) (\<lambda>_. Http_error) = Inl IndexError"
    using github_api_url_no_slash [OF g] s by (simp add: get_github_version_def)
  show ?thesis using get_github_version_errors [OF h] h s g by auto
qed

text \<open>
  C28. An SSH remote \<^verbatim>\<open>git@github.com:<owner>/<repo>.git\<close> is split on \<^verbatim>\<open>/\<close>
  only, so the owner sent to the API is \<^verbatim>\<open>git@github.com:<owner>\<close>: the lookup
  queries a URL that names no repository.
\<close>

theorem github_api_url_ssh:
  assumes "CHR ''/'' \<notin> set owner" and "CHR ''/'' \<notin> set repo"
  shows "github_api_url (''git@github.com:'' @ owner @ ''/'' @ repo @ ''.git'') =
           Inr (Some (''https://api.github.com/repos/'' @ ''git@github.com:'' @ owner @ ''/'' @ repo
                      @ ''/releases/latest''))"
proof -
  have "py_in ''github.com'' (''git@'' @ ''github.com'' @ '':'' @ owner @ ''/'' @ repo @ ''.git'')"
    by (rule py_in_append_middle)
  then have g: "py_in ''github.com'' (''git@github.com:'' @ owner @ ''/'' @ repo @ ''.git'')" by simp
  have s: "strip_git_suffix (''git@github.com:'' @ owner @ ''/'' @ repo @ ''.git'') =
           (''git@github.com:'' @ owner) @ CHR ''/'' # repo"
    by (simp add: strip_git_suffix_def py_endswith_def)
  have a1: "CHR ''/'' \<notin> set (''git@github.com:'' @ owner)" using assms(1) by simp
  have p: "py_split_char CHR ''/'' ((''git@github.com:'' @ owner) @ CHR ''/'' # repo) =
           [''git@github.com:'' @ owner, repo]"
    by (simp only: py_split_char_append_sep [OF a1] py_split_char_no_sep [OF assms(2)])
  show ?thesis
    using g by (simp only: github_api_url_def s p Let_def) (simp add: py_slice_from_def)
qed

theorem github_api_url_ssh_witness:
  "github_api_url (''git@github.com:'' @ ''octo'' @ ''/'' @ ''tool'' @ ''.git'') =
     Inr (Some ''https://api.github.com/repos/git@github.com:octo/tool/releases/latest'')"
  using github_api_url_ssh [of "''octo''" "''tool''"] by simp

end
