(* ===== verification/Environ.thy ===== *)
theory Environ
  imports PyStr "HOL-Library.While_Combinator"
begin

text \<open>
  \<^verbatim>\<open>os.path.expandvars\<close> (CPython \<^verbatim>\<open>posixpath\<close>), which \<^verbatim>\<open>__init__\<close> applies to
  the configured counter path (line 26). The regular expression
  \<^verbatim>\<open>\$(\w+|\{[^}]*\})\<close> (ASCII \<^verbatim>\<open>\w\<close>) is the scanner \<open>find_var\<close>; the
  \<^verbatim>\<open>while True\<close> loop over the pair (path, search position) is kept as a loop
  with \<open>while_option\<close>, and its termination is a theorem: the distance from
  the search position to the end of the path decreases in every round. An
  unknown variable is left in place, a known one is replaced and the search
  resumes after the inserted value. The loop is proved equal to
  \<open>expand_ref\<close>, the substitution of every match from left to right in the
  manner of \<^verbatim>\<open>re.sub\<close>, which is what the function promises.
\<close>
type_synonym environ = "(string \<times> string) list"

definition is_word_char :: "char \<Rightarrow> bool" where
  "is_word_char c =
     (let n = (of_char c :: nat)
      in (48 \<le> n \<and> n \<le> 57) \<or> (65 \<le> n \<and> n \<le> 90) \<or> (97 \<le> n \<and> n \<le> 122) \<or> n = 95)"

text \<open>The group after a \<^verbatim>\<open>$\<close>: \<^verbatim>\<open>\w+\<close> (greedy) first, else \<^verbatim>\<open>\{[^}]*\}\<close>.\<close>

definition var_group :: "string \<Rightarrow> string option" where
  "var_group cs =
     (let w = takeWhile is_word_char cs
      in if w \<noteq> [] then Some w
         else if cs \<noteq> [] \<and> hd cs = CHR ''{'' \<and> CHR ''}'' \<in> set (tl cs)
         then Some (CHR ''{'' # takeWhile (\<lambda>c. c \<noteq> CHR ''}'') (tl cs) @ ''}'')
         else None)"

text \<open>\<^verbatim>\<open>search(path, i)\<close>: the first match at an index \<open>\<ge> k\<close>, as (start, end, group).\<close>

fun find_var :: "nat \<Rightarrow> string \<Rightarrow> (nat \<times> nat \<times> string) option" where
  "find_var k [] = None"
| "find_var k (c # cs) =
     (if c = CHR ''$'' then
        (case var_group cs of
           Some g \<Rightarrow> Some (k, k + 1 + length g, g)
         | None \<Rightarrow> find_var (Suc k) cs)
      else find_var (Suc k) cs)"

definition var_search :: "string \<Rightarrow> nat \<Rightarrow> (nat \<times> nat \<times> string) option" where
  "var_search path i = find_var i (drop i path)"

text \<open>\<^verbatim>\<open>if name.startswith('{') and name.endswith('}'): name = name[1:-1]\<close>.\<close>

definition var_name :: "string \<Rightarrow> string" where
  "var_name g =
     (if g \<noteq> [] \<and> hd g = CHR ''{'' \<and> last g = CHR ''}'' then butlast (tl g) else g)"

text \<open>One round of the loop body, for the match found at the current position.\<close>

definition expand_step :: "environ \<Rightarrow> string \<times> nat \<Rightarrow> string \<times> nat" where
  "expand_step environ st =
     (case st of
        (path, i) \<Rightarrow>
          (case var_search path i of
             None \<Rightarrow> (path, i)
           | Some (s, j, g) \<Rightarrow>
               (case map_of environ (var_name g) of
                  None \<Rightarrow> (path, j)
                | Some value \<Rightarrow> (take s path @ value @ drop j path, s + length value))))"

definition expand_loop :: "environ \<Rightarrow> string \<Rightarrow> (string \<times> nat) option" where
  "expand_loop environ path =
     while_option (\<lambda>(p, i). var_search p i \<noteq> None) (expand_step environ) (path, 0)"

definition expandvars :: "environ \<Rightarrow> string \<Rightarrow> string" where
  "expandvars environ path =
     (if CHR ''$'' \<notin> set path then path
      else (case expand_loop environ path of None \<Rightarrow> path | Some (p, i) \<Rightarrow> p))"

section \<open>The reference: substitution of every match\<close>

text \<open>
  What \<^verbatim>\<open>expandvars\<close> is meant to compute, written without the loop: as
  \<^verbatim>\<open>re.sub(r'\$(\w+|\{[^}]*\})', lambda m: environ.get(name, m.group(0)), path)\<close>,
  every non-overlapping match from left to right is replaced by the value of
  its variable or kept when the variable is undefined, and inserted values are
  not scanned again.
\<close>

function expand_ref :: "environ \<Rightarrow> string \<Rightarrow> string" where
  "expand_ref environ cs =
     (case find_var 0 cs of
        None \<Rightarrow> cs
      | Some (s, j, g) \<Rightarrow>
          take s cs @ (case map_of environ (var_name g) of None \<Rightarrow> take (j - s) (drop s cs) | Some v \<Rightarrow> v) @
          expand_ref environ (drop j cs))"
  by pat_completeness auto

section \<open>Bounds of a match\<close>

lemma length_takeWhile_less_mem: "x \<in> set xs \<Longrightarrow> \<not> P x \<Longrightarrow> length (takeWhile P xs) < length xs"
  by (induction xs) auto

lemma var_group_length: "var_group cs = Some g \<Longrightarrow> g \<noteq> [] \<and> length g \<le> length cs"
proof (cases "takeWhile is_word_char cs = []")
  case True
  assume g: "var_group cs = Some g"
  with True have cs: "cs \<noteq> []" "CHR ''}'' \<in> set (tl cs)"
      and g': "g = CHR ''{'' # takeWhile (\<lambda>c. c \<noteq> CHR ''}'') (tl cs) @ ''}''"
    by (auto simp: var_group_def split: if_splits)
  then have "length (takeWhile (\<lambda>c. c \<noteq> CHR ''}'') (tl cs)) < length (tl cs)"
    using length_takeWhile_less_mem [of "CHR ''}''" "tl cs"] by simp
  with cs g' show ?thesis by simp
next
  case False
  assume "var_group cs = Some g"
  with False have "g = takeWhile is_word_char cs" by (simp add: var_group_def)
  with False show ?thesis by (simp add: length_takeWhile_le)
qed

lemma find_var_bounds:
  "find_var k cs = Some (s, j, g) \<Longrightarrow> k \<le> s \<and> s < j \<and> j \<le> k + length cs"
proof (induction cs arbitrary: k)
  case Nil
  then show ?case by simp
next
  case (Cons c cs)
  show ?case
  proof (cases "c = CHR ''$'' \<and> var_group cs \<noteq> None")
    case True
    then obtain g' where "var_group cs = Some g'" by auto
    with True Cons.prems var_group_length [of cs g'] show ?thesis by auto
  next
    case False
    then have "find_var (Suc k) cs = Some (s, j, g)"
      using Cons.prems by (auto split: if_splits option.splits)
    with Cons.IH [of "Suc k"] show ?thesis by simp
  qed
qed

lemma var_search_bounds:
  "var_search p i = Some (s, j, g) \<Longrightarrow> i \<le> s \<and> s < j \<and> j \<le> length p"
  using find_var_bounds [of i "drop i p" s j g]
  by (cases "i \<le> length p") (auto simp: var_search_def)

termination expand_ref
  by (relation "measure (\<lambda>(environ, cs). length cs)") (auto dest!: find_var_bounds)

declare expand_ref.simps [simp del]

lemma find_var_offset:
  "find_var (k + m) cs = map_option (\<lambda>(s, j, g). (s + k, j + k, g)) (find_var m cs)"
proof (induction cs arbitrary: m)
  case Nil
  then show ?case by simp
next
  case (Cons c cs)
  have "find_var (Suc (k + m)) cs = map_option (\<lambda>(s, j, g). (s + k, j + k, g)) (find_var (Suc m) cs)"
    using Cons.IH [of "Suc m"] by simp
  then show ?case by (simp split: option.split)
qed

lemma find_var_shift: "find_var k cs = map_option (\<lambda>(s, j, g). (s + k, j + k, g)) (find_var 0 cs)"
  using find_var_offset [of k 0 cs] by simp

lemma find_var_no_dollar: "CHR ''$'' \<notin> set cs \<Longrightarrow> find_var k cs = None"
  by (induction cs arbitrary: k) auto

text \<open>Each round moves the search position closer to the end of the path.\<close>

lemma expand_step_decreases:
  assumes "var_search p i \<noteq> None"
  shows "(case expand_step environ (p, i) of (p', i') \<Rightarrow> length p' - i') < length p - i"
proof -
  obtain s j g where m: "var_search p i = Some (s, j, g)" using assms by auto
  note b = var_search_bounds [OF m]
  show ?thesis
    using b by (auto simp: expand_step_def m split: option.split)
qed

lemmas expand_eval = expandvars_def expand_loop_def expand_step_def var_search_def var_group_def
  is_word_char_def var_name_def

section \<open>Properties of \<^verbatim>\<open>expandvars\<close>\<close>

text \<open>
  The \<^verbatim>\<open>while True\<close> loop of \<^verbatim>\<open>expandvars\<close> terminates on every path and
  every environment, also when a value contains \<^verbatim>\<open>$\<close> or expands to the
  variable itself: the search position never falls behind the inserted value.
\<close>

theorem expand_loop_terminates: "\<exists>t. expand_loop environ path = Some t"
  unfolding expand_loop_def
proof (rule measure_while_option_Some [where P = "\<lambda>_. True" and f = "\<lambda>(p, i). length p - i"])
  fix st :: "string \<times> nat"
  assume "(\<lambda>(p, i). var_search p i \<noteq> None) st"
  then show "True \<and> (\<lambda>(p, i). length p - i) (expand_step environ st) < (\<lambda>(p, i). length p - i) st"
    using expand_step_decreases by (cases st) (auto simp: split_def)
qed simp

lemma expand_loop_invariant:
  assumes "\<And>p i. P (p, i) \<Longrightarrow> var_search p i \<noteq> None \<Longrightarrow> P (expand_step environ (p, i))"
    and "P (path, 0)"
  obtains p i where "expand_loop environ path = Some (p, i)" and "P (p, i)"
proof -
  obtain t where t: "expand_loop environ path = Some t" using expand_loop_terminates by blast
  have "P t"
    using while_option_rule [where P = P, OF _ t [unfolded expand_loop_def] assms(2)] assms(1)
    by (auto simp: split_def)
  with t show ?thesis using that by (cases t) auto
qed

text \<open>
  Without environment variables the counter path is used as written:
  every \<^verbatim>\<open>$name\<close> raises \<^verbatim>\<open>KeyError\<close> in the loop and is skipped, so
  \<^verbatim>\<open>expandvars\<close> is the identity.
\<close>

theorem expandvars_no_environ: "expandvars [] path = path"
proof -
  obtain p i where "expand_loop [] path = Some (p, i)" and "p = path"
    by (rule expand_loop_invariant [where P = "\<lambda>(p, i). p = path"])
       (auto simp: expand_step_def split: option.split)
  then show ?thesis by (simp add: expandvars_def)
qed

text \<open>
  \<^verbatim>\<open>expandvars\<close> on the forms the configuration uses:
  \<^verbatim>\<open>$HOME\<close> and \<^verbatim>\<open>${HOME}\<close> are replaced, an undefined variable and an
  unclosed brace are left as written, \<^verbatim>\<open>\w\<close> is greedy (\<^verbatim>\<open>$HOME_X\<close> names
  \<^verbatim>\<open>HOME_X\<close>), and a value is not expanded again.
\<close>

theorem expandvars_examples:
  "expandvars [(''HOME'', ''/home/u'')] ''$HOME/bin/tc'' = ''/home/u/bin/tc'' \<and>
   expandvars [(''HOME'', ''/home/u'')] ''${HOME}/tc'' = ''/home/u/tc'' \<and>
   expandvars [(''HOME'', ''/home/u'')] ''$TOOLS/tc'' = ''$TOOLS/tc'' \<and>
   expandvars [(''HOME'', ''/home/u'')] ''${HOME/tc'' = ''${HOME/tc'' \<and>
   expandvars [(''HOME'', ''/home/u'')] ''$HOME_X/tc'' = ''$HOME_X/tc'' \<and>
   expandvars [(''A'', ''$A'')] ''$A$A'' = ''$A$A''"
  by (simp add: expand_eval while_option_unfold [of _ _ "(a, b)" for a b])

section \<open>The loop computes the reference\<close>

definition expand_inv :: "environ \<Rightarrow> string \<Rightarrow> string \<times> nat \<Rightarrow> bool" where
  "expand_inv environ path st =
     (case st of (p, i) \<Rightarrow> i \<le> length p \<and> take i p @ expand_ref environ (drop i p) = expand_ref environ path)"

lemma expand_ref_match:
  assumes "var_search p i = Some (s, j, g)" and "i \<le> length p"
  shows "expand_ref environ (drop i p) =
           take (s - i) (drop i p) @
           (case map_of environ (var_name g) of None \<Rightarrow> take (j - s) (drop s p) | Some v \<Rightarrow> v) @
           expand_ref environ (drop j p)"
proof -
  have b: "i \<le> s" "s < j" "j \<le> length p" using var_search_bounds [OF assms(1)] by auto
  have "find_var 0 (drop i p) = Some (s - i, j - i, g)"
    using assms(1) b find_var_shift [of i "drop i p"] by (auto simp: var_search_def)
  moreover have "s - i + i = s" "j - i + i = j" "j - (i + (s - i)) = j - s"
    using b by simp_all
  ultimately show ?thesis by (subst expand_ref.simps) (simp split: option.split)
qed

lemma expand_inv_step:
  assumes inv: "expand_inv environ path (p, i)" and m: "var_search p i = Some (s, j, g)"
  shows "expand_inv environ path (expand_step environ (p, i))"
proof -
  have i: "i \<le> length p" and e: "take i p @ expand_ref environ (drop i p) = expand_ref environ path"
    using inv by (auto simp: expand_inv_def)
  have b: "i \<le> s" "s < j" "j \<le> length p" using var_search_bounds [OF m] by auto
  have "take s p = take i p @ take (s - i) (drop i p)"
    using b take_add [of i "s - i" p] by simp
  then have ts: "\<And>xs. take i p @ take (s - i) (drop i p) @ xs = take s p @ xs" by simp
  have "take j p = take s p @ take (j - s) (drop s p)"
    using b take_add [of s "j - s" p] by simp
  then have tj: "\<And>xs. take s p @ take (j - s) (drop s p) @ xs = take j p @ xs" by simp
  note r = expand_ref_match [OF m i, of environ]
  show ?thesis
  proof (cases "map_of environ (var_name g)")
    case None
    have "expand_ref environ path =
            take i p @ take (s - i) (drop i p) @ take (j - s) (drop s p) @ expand_ref environ (drop j p)"
      using e r None by simp
    also have "\<dots> = take j p @ expand_ref environ (drop j p)" by (simp only: ts tj)
    finally have "take j p @ expand_ref environ (drop j p) = expand_ref environ path" ..
    then show ?thesis using b None by (simp add: expand_inv_def expand_step_def m)
  next
    case (Some v)
    let ?p' = "take s p @ v @ drop j p"
    have "expand_ref environ path = take i p @ take (s - i) (drop i p) @ v @ expand_ref environ (drop j p)"
      using e r Some by simp
    also have "\<dots> = take s p @ v @ expand_ref environ (drop j p)" by (simp only: ts)
    finally have eq: "take s p @ v @ expand_ref environ (drop j p) = expand_ref environ path" ..
    have "expand_step environ (p, i) = (?p', s + length v)" using Some by (simp add: expand_step_def m)
    then show ?thesis using eq b by (simp add: expand_inv_def)
  qed
qed

lemma expand_ref_no_match: "var_search p i = None \<Longrightarrow> expand_ref environ (drop i p) = drop i p"
  using find_var_shift [of i "drop i p"] by (subst expand_ref.simps) (simp add: var_search_def)

text \<open>
  The loop of \<^verbatim>\<open>expandvars\<close> is the substitution of every match: its
  result is \<open>expand_ref\<close>, the left-to-right replacement of each
  \<^verbatim>\<open>$name\<close> and \<^verbatim>\<open>${name}\<close> by its value, an undefined one kept as written,
  with no value scanned again.
\<close>

theorem expandvars_ref: "expandvars environ path = expand_ref environ path"
proof (cases "CHR ''$'' \<in> set path")
  case False
  then show ?thesis
    by (subst expand_ref.simps) (simp add: expandvars_def find_var_no_dollar)
next
  case True
  obtain p i where l: "expand_loop environ path = Some (p, i)" and inv: "expand_inv environ path (p, i)"
  proof (rule expand_loop_invariant [where P = "expand_inv environ path"])
    show "expand_inv environ path (path, 0)" by (simp add: expand_inv_def)
  next
    fix p i assume inv: "expand_inv environ path (p, i)" and "var_search p i \<noteq> None"
    then obtain s j g where "var_search p i = Some (s, j, g)" by (cases "var_search p i") auto
    with inv show "expand_inv environ path (expand_step environ (p, i))" by (rule expand_inv_step)
  qed
  have "var_search p i = None"
    using while_option_stop [OF l [unfolded expand_loop_def]] by (cases "var_search p i") auto
  then have "expand_ref environ (drop i p) = drop i p" using expand_ref_no_match by simp
  then show ?thesis using inv True l by (simp add: expand_inv_def expandvars_def)
qed

end
