(* ===== verification/World.thy ===== *)
theory World
  imports Config Externals Environ TokenFormat
begin

text \<open>
  The state an invocation of \<^verbatim>\<open>gitingest_manager.py\<close> sees and changes: the
  configuration file (its parsed document, or absent), the files of the output
  directory as an association list from name to content and modification time
  (its order is the order in which the directory is listed), the ingestion log
  \<^verbatim>\<open>ingestion_log.json\<close> in that directory, and whether the token counter
  binary exists. The log is not a \<^verbatim>\<open>.md\<close> file, so it is kept apart from the
  artifacts. The environment holds what the outside world answers: subprocess
  outcomes by argument vector, the bytes the ingestion tool writes, HTTP
  responses by URL, the MD5 digest prefix, the clock, the process
  environment variables that \<^verbatim>\<open>os.path.expandvars\<close> substitutes, and the
  local-time conversion \<^verbatim>\<open>datetime.fromtimestamp\<close> of a modification time
  (an exception for a time outside the platform's range), and the answer of
  \<^verbatim>\<open>Path.mkdir(exist_ok=True)\<close> for a directory path (an exception when the
  parent is missing or a file is in the way).
\<close>
record file_entry =
  content :: "byte list"
  mtime :: int

type_synonym dir = "(string \<times> file_entry) list"

text \<open>One record of the log (lines 253--262).\<close>

record log_entry =
  le_timestamp :: string
  le_repository :: string
  le_profile :: string
  le_file :: string
  le_tokens :: int
  le_characters :: nat
  le_files :: nat
  le_hash :: string

text \<open>The log file's document: a JSON list of records, valid JSON that is not a list, or not JSON.\<close>

datatype log_doc = Log_ok "log_entry list" | Log_not_list | Log_malformed

record world =
  config_file :: "config option"
  out_dir :: dir
  log_file :: "log_doc option"
  counter_exists :: bool

record clock =
  year :: nat
  month :: nat
  day :: nat
  hour :: nat
  minute :: nat
  second :: nat
  epoch :: int

record env =
  proc :: "string list \<Rightarrow> proc_result"
  ingest_writes :: "string list \<Rightarrow> byte list option"
  http_get :: "string \<Rightarrow> http_result"
  md5_hex8 :: "byte list \<Rightarrow> string"
  now :: clock
  environ :: environ
  localtime :: "int \<Rightarrow> py_exc + clock"
  mkdir :: "string \<Rightarrow> py_exc option"

section \<open>Paths and names\<close>

text \<open>
  \<^verbatim>\<open>self.token_counter = os.path.expandvars(...)\<close> (line 26): the counter path
  with the process environment substituted.
\<close>

definition counter_path :: "env \<Rightarrow> config \<Rightarrow> string" where
  "counter_path env cfg = expandvars (environ env) (token_counter (settings cfg))"

definition path_join :: "string \<Rightarrow> string \<Rightarrow> string" where
  "path_join d n = d @ ''/'' @ n"

definition pad0 :: "nat \<Rightarrow> string \<Rightarrow> string" where
  "pad0 w s = replicate (w - length s) CHR ''0'' @ s"

text \<open>\<^verbatim>\<open>datetime.now().strftime("%Y%m%d_%H%M%S")\<close>, for four-digit years.\<close>

definition timestamp :: "clock \<Rightarrow> string" where
  "timestamp c =
     pad0 4 (str_nat (year c)) @ pad0 2 (str_nat (month c)) @ pad0 2 (str_nat (day c)) @ ''_'' @
     pad0 2 (str_nat (hour c)) @ pad0 2 (str_nat (minute c)) @ pad0 2 (str_nat (second c))"

definition temp_name :: "string \<Rightarrow> string \<Rightarrow> string" where
  "temp_name repo_name ts = repo_name @ ''_temp_'' @ ts @ ''.md''"

definition final_name :: "string \<Rightarrow> string \<Rightarrow> string \<Rightarrow> string" where
  "final_name repo_name version human = repo_name @ ''_'' @ version @ ''_'' @ human @ ''.md''"

section \<open>Directory operations\<close>

text \<open>\<^verbatim>\<open>Path.rename\<close> within one directory: the target is replaced if it exists.\<close>

definition rename_entry :: "string \<Rightarrow> string \<Rightarrow> dir \<Rightarrow> dir" where
  "rename_entry src dst d =
     (case map_of d src of None \<Rightarrow> d | Some f \<Rightarrow> AList.update dst f (AList.delete src d))"

section \<open>The temporary name and the final name never meet\<close>

abbreviation clock_time :: "clock \<Rightarrow> string" where
  "clock_time c \<equiv> pad0 2 (str_nat (hour c)) @ pad0 2 (str_nat (minute c)) @ pad0 2 (str_nat (second c))"

section \<open>Directory operations\<close>

lemma map_of_rename_entry:
  "map_of d src = Some f \<Longrightarrow>
   map_of (rename_entry src dst d) = (map_of d)(src := None, dst \<mapsto> f)"
  by (simp add: rename_entry_def update_conv' delete_conv')

lemma distinct_rename_entry:
  "distinct (map fst d) \<Longrightarrow> distinct (map fst (rename_entry src dst d))"
  by (simp add: rename_entry_def distinct_update distinct_delete split: option.split)

section \<open>The temporary name and the final name never meet\<close>

lemma takeWhile_rev_segment:
  "CHR ''_'' \<notin> set a \<Longrightarrow> takeWhile (\<lambda>c. c \<noteq> CHR ''_'') (rev (x @ CHR ''_'' # a)) = rev a"
proof -
  assume a: "CHR ''_'' \<notin> set a"
  have "rev (x @ CHR ''_'' # a) = rev a @ CHR ''_'' # rev x" by simp
  moreover have "takeWhile (\<lambda>c. c \<noteq> CHR ''_'') (rev a @ CHR ''_'' # rev x) = rev a"
    by (subst takeWhile_append2) (use a in auto)
  ultimately show ?thesis by simp
qed

lemma last_segment:
  assumes "CHR ''_'' \<notin> set a" and "CHR ''_'' \<notin> set b" and "x @ CHR ''_'' # a = y @ CHR ''_'' # b"
  shows "a = b"
  using takeWhile_rev_segment [OF assms(1), of x] takeWhile_rev_segment [OF assms(2), of y] assms(3)
  by simp

lemma pad0_str_nat_digits: "set (pad0 w (str_nat n)) \<subseteq> decimal_digits"
proof -
  have "CHR ''0'' = digit_char 0" by (simp add: py_simps)
  then show ?thesis using str_nat_digits by (auto simp: pad0_def)
qed

lemma length_pad0: "w \<le> length (pad0 w s)"
  by (simp add: pad0_def)

lemma timestamp_time:
  "\<exists>d. timestamp c = d @ CHR ''_'' # clock_time c \<and> set (clock_time c) \<subseteq> decimal_digits \<and>
       6 \<le> length (clock_time c)"
proof -
  have "6 \<le> length (clock_time c)"
    using length_pad0 [of 2 "str_nat (hour c)"] length_pad0 [of 2 "str_nat (minute c)"]
      length_pad0 [of 2 "str_nat (second c)"] by simp
  then show ?thesis using pad0_str_nat_digits by (auto simp: timestamp_def)
qed

lemma final_name_ne_temp_name:
  assumes "CHR ''_'' \<notin> set h" and "set h \<subseteq> decimal_digits \<Longrightarrow> length h < 6"
  shows "final_name r v h \<noteq> temp_name r (timestamp c)"
proof
  assume eq: "final_name r v h = temp_name r (timestamp c)"
  obtain d where ts: "timestamp c = d @ CHR ''_'' # clock_time c"
    and dig: "set (clock_time c) \<subseteq> decimal_digits" and len: "6 \<le> length (clock_time c)"
    using timestamp_time by blast
  have nc: "CHR ''_'' \<notin> set (clock_time c)" using dig marks_not_digits(4) by blast
  have eq2: "(''_'' @ v) @ CHR ''_'' # h = (''_temp_'' @ d) @ CHR ''_'' # clock_time c"
    using eq by (simp add: final_name_def temp_name_def ts)
  have "h = clock_time c" by (rule last_segment [OF assms(1) nc eq2])
  with dig len assms(2) show False by simp
qed

end
