(* ===== verification/Ingest.thy ===== *)
theory Ingest
  imports World TokenCount TokenFormat Version
begin

text \<open>
  \<^verbatim>\<open>GitIngestManager.ingest\<close> (lines 168--239) with
  \<^verbatim>\<open>_save_ingestion_log\<close> (lines 241--266) and \<^verbatim>\<open>_save_config\<close> (lines 36--39):
  the linear pipeline run the tool to a temporary file, measure it, resolve the
  version, rename it to its final name, write the metadata into the
  configuration and append to the log. Each step that can raise is a branch;
  the world at the point of an exception is returned with it, so the effects
  already performed stay visible. The in-memory configuration is threaded
  through and written to the configuration file by \<^verbatim>\<open>_save_config\<close>.
\<close>
datatype outcome = Done | Exit_code int | Raised py_exc

section \<open>\<^verbatim>\<open>_save_ingestion_log\<close>\<close>

definition log_entry_of :: "string \<Rightarrow> string \<Rightarrow> string \<Rightarrow> ingest_metadata \<Rightarrow> log_entry" where
  "log_entry_of repo_name prof file md =
     \<lparr>le_timestamp = last_updated md, le_repository = repo_name, le_profile = prof,
      le_file = file, le_tokens = token_count md, le_characters = character_count md,
      le_files = file_count md, le_hash = hash md\<rparr>"

text \<open>
  An absent log starts empty; \<^verbatim>\<open>json.load\<close> of a file that is not JSON raises,
  and \<^verbatim>\<open>log.append\<close> on JSON that is not a list raises \<^verbatim>\<open>AttributeError\<close>.
\<close>

definition save_ingestion_log :: "log_entry \<Rightarrow> log_doc option \<Rightarrow> py_exc + log_doc" where
  "save_ingestion_log e lf =
     (case lf of
        None \<Rightarrow> Inr (Log_ok [e])
      | Some (Log_ok es) \<Rightarrow> Inr (Log_ok (es @ [e]))
      | Some Log_not_list \<Rightarrow> Inl AttributeError
      | Some Log_malformed \<Rightarrow> Inl JSONDecodeError)"

section \<open>The steps of \<^verbatim>\<open>ingest\<close>\<close>

text \<open>\<^verbatim>\<open>content.count('\n```')\<close> on the text read back (line 192).\<close>

definition code_block_marker :: "nat list" where
  "code_block_marker = [10, 96, 96, 96]"

definition file_count_of :: "byte list option \<Rightarrow> py_exc + nat" where
  "file_count_of f =
     (case f of
        None \<Rightarrow> Inl FileNotFoundError
      | Some bs \<Rightarrow> (case read_text bs of Inl e \<Rightarrow> Inl e | Inr t \<Rightarrow> Inr (count_occ code_block_marker t)))"

text \<open>
  Lines 195--200: an explicit version is used unless it is empty; otherwise the
  resolver runs on the repository's \<^verbatim>\<open>source\<close>, and no version or an empty tag
  becomes \<^verbatim>\<open>"latest"\<close>.
\<close>

definition version_lookup :: "env \<Rightarrow> config \<Rightarrow> string \<Rightarrow> py_exc + string" where
  "version_lookup env cfg repo_name =
     (case map_of (repositories cfg) repo_name of
        None \<Rightarrow> Inl KeyError
      | Some rc \<Rightarrow>
          (case source rc of
             None \<Rightarrow> Inl KeyError
           | Some src \<Rightarrow>
               (case get_github_version (proc env (git_remote_argv src)) (http_get env) of
                  Inl e \<Rightarrow> Inl e
                | Inr None \<Rightarrow> Inr ''latest''
                | Inr (Some v) \<Rightarrow> Inr (if v = [] then ''latest'' else v))))"

definition resolve_version :: "env \<Rightarrow> config \<Rightarrow> string \<Rightarrow> string option \<Rightarrow> py_exc + string" where
  "resolve_version env cfg repo_name version =
     (case version of
        Some v \<Rightarrow> if v \<noteq> [] then Inr v else version_lookup env cfg repo_name
      | None \<Rightarrow> version_lookup env cfg repo_name)"

text \<open>\<^verbatim>\<open>repo_config['metadata'] = {...}\<close>: the block is replaced, the entry keeps its place.\<close>

definition set_metadata :: "config \<Rightarrow> string \<Rightarrow> ingest_metadata \<Rightarrow> config" where
  "set_metadata cfg repo_name md =
     (case map_of (repositories cfg) repo_name of
        None \<Rightarrow> cfg
      | Some rc \<Rightarrow>
          cfg\<lparr>repositories := AList.update repo_name (rc\<lparr>metadata := Some md\<rparr>) (repositories cfg)\<rparr>)"

text \<open>The output directory after the tool ran: it may have written the temporary file.\<close>

definition tool_output :: "env \<Rightarrow> string list \<Rightarrow> string \<Rightarrow> dir \<Rightarrow> dir" where
  "tool_output env cmd tmp d =
     (case ingest_writes env cmd of
        None \<Rightarrow> d
      | Some bs \<Rightarrow> AList.update tmp \<lparr>content = bs, mtime = epoch (now env)\<rparr> d)"

text \<open>\<^verbatim>\<open>_get_file_hash\<close> reads the renamed file (line 220).\<close>

definition file_hash :: "env \<Rightarrow> dir \<Rightarrow> string \<Rightarrow> py_exc + string" where
  "file_hash env d name =
     (case map_of d name of None \<Rightarrow> Inl FileNotFoundError | Some f \<Rightarrow> Inr (md5_hex8 env (content f)))"

text \<open>
  \<^verbatim>\<open>_save_config\<close> (lines 36--39): the in-memory document is written back to
  the configuration file (the YAML text is not modelled, the document is).
\<close>

definition save_config :: "config \<Rightarrow> world \<Rightarrow> world" where
  "save_config cfg w = w\<lparr>config_file := Some cfg\<rparr>"

declare save_config_def [simp]

text \<open>The measured artifact after the tool has run: from token counting to the log.\<close>

definition finish_ingest ::
  "env \<Rightarrow> config \<Rightarrow> world \<Rightarrow> string \<Rightarrow> string \<Rightarrow> string option \<Rightarrow> string \<Rightarrow> string \<Rightarrow>
   outcome \<times> world" where
  "finish_ingest env cfg w repo_name prof version ts tmp =
     (let tpath = path_join (output_dir (settings cfg)) tmp;
          tfile = map_option content (map_of (out_dir w) tmp)
      in case count_tokens (counter_exists w) (proc env [counter_path env cfg, tpath]) tfile of
           Inl e \<Rightarrow> (Raised e, w)
         | Inr (tokens, chars) \<Rightarrow>
             (case file_count_of tfile of
                Inl e \<Rightarrow> (Raised e, w)
              | Inr files \<Rightarrow>
                  (case resolve_version env cfg repo_name version of
                     Inl e \<Rightarrow> (Raised e, w)
                   | Inr ver \<Rightarrow>
                       (case format_token_count tokens of
                          Inl e \<Rightarrow> (Raised e, w)
                        | Inr human \<Rightarrow>
                            (let fname = final_name repo_name ver human;
                                 w2 = w\<lparr>out_dir := rename_entry tmp fname (out_dir w)\<rparr>
                             in case file_hash env (out_dir w2) fname of
                                  Inl e \<Rightarrow> (Raised e, w2)
                                | Inr h \<Rightarrow>
                                    (let md = \<lparr>last_updated = ts, token_count = tokens,
                                               character_count = chars, file_count = files,
                                               last_file = fname, profile = prof, hash = h\<rparr>;
                                         w3 = save_config (set_metadata cfg repo_name md) w2
                                     in case save_ingestion_log (log_entry_of repo_name prof fname md)
                                               (log_file w3) of
                                          Inl e \<Rightarrow> (Raised e, w3)
                                        | Inr lg \<Rightarrow> (Done, w3\<lparr>log_file := Some lg\<rparr>)))))))"

text \<open>
  \<^verbatim>\<open>ingest\<close>: the command is built before anything is written; a tool that
  cannot be started raises its \<^verbatim>\<open>OSError\<close> (\<open>os_exc\<close>), which the
  \<^verbatim>\<open>except CalledProcessError\<close> does not catch; a non-zero exit deletes the
  temporary file if the tool left one and exits with code 1.
\<close>

definition ingest :: "env \<Rightarrow> config \<Rightarrow> world \<Rightarrow> string \<Rightarrow> string \<Rightarrow> string option \<Rightarrow> outcome \<times> world" where
  "ingest env cfg w repo_name prof version =
     (let ts = timestamp (now env);
          tmp = temp_name repo_name ts;
          tpath = path_join (output_dir (settings cfg)) tmp
      in case build_gitingest_command cfg repo_name tpath prof of
           Inl e \<Rightarrow> (Raised e, w)
         | Inr cmd \<Rightarrow>
             (case proc env cmd of
                Proc_os_error oe \<Rightarrow> (Raised (os_exc oe), w)
              | Proc_done rc out err \<Rightarrow>
                  (let w1 = w\<lparr>out_dir := tool_output env cmd tmp (out_dir w)\<rparr>
                   in if rc \<noteq> 0 then (Exit_code 1, w1\<lparr>out_dir := AList.delete tmp (out_dir w1)\<rparr>)
                      else finish_ingest env cfg w1 repo_name prof version ts tmp)))"

section \<open>How \<^verbatim>\<open>ingest\<close> ends\<close>

abbreviation ingest_tmp :: "env \<Rightarrow> string \<Rightarrow> string" where
  "ingest_tmp env repo_name \<equiv> temp_name repo_name (timestamp (now env))"

abbreviation ingest_tpath :: "env \<Rightarrow> config \<Rightarrow> string \<Rightarrow> string" where
  "ingest_tpath env cfg repo_name \<equiv> path_join (output_dir (settings cfg)) (ingest_tmp env repo_name)"

definition prev_entries :: "log_doc option \<Rightarrow> log_entry list" where
  "prev_entries lf = (case lf of Some (Log_ok es) \<Rightarrow> es | _ \<Rightarrow> [])"

section \<open>A concrete run and the error paths\<close>

definition example_env :: env where
  "example_env =
     \<lparr>proc = (\<lambda>cmd. if take 1 cmd = [''git''] then Proc_done 1 [] ''fatal''
                    else if take 1 cmd = [''gitingest''] then Proc_done 0 [] []
                    else Proc_done 0 (py_str_int 1000 @ ''\<newline>'') []),
      ingest_writes = (\<lambda>cmd. Some (replicate 4000 97)),
      http_get = (\<lambda>u. Http_error),
      md5_hex8 = (\<lambda>bs. ''0123abcd''),
      now = \<lparr>year = 2024, month = 1, day = 2, hour = 3, minute = 4, second = 5, epoch = 1704164645\<rparr>,
      environ = [],
      localtime = (\<lambda>t. Inr \<lparr>year = 2024, month = 1, day = 2, hour = 3, minute = 4, second = 5, epoch = t\<rparr>),
      mkdir = (\<lambda>d. None)\<rparr>"

definition example_world :: world where
  "example_world = \<lparr>config_file = Some example_config, out_dir = [], log_file = None, counter_exists = True\<rparr>"

definition failing_env :: env where
  "failing_env = example_env\<lparr>proc := (\<lambda>cmd. Proc_done 1 [] ''fatal'')\<rparr>"

definition undecodable_env :: env where
  "undecodable_env = example_env\<lparr>ingest_writes := (\<lambda>cmd. Some [255])\<rparr>"

section \<open>How \<^verbatim>\<open>ingest\<close> ends\<close>

lemma save_ingestion_log_Inr:
  "save_ingestion_log e lf = Inr lg \<Longrightarrow> lg = Log_ok (prev_entries lf @ [e])"
  by (auto simp: save_ingestion_log_def prev_entries_def split: option.splits log_doc.splits)

lemma count_tokens_needs_file: "count_tokens ex run None \<noteq> Inr x"
  by (auto simp: count_tokens_def char_fallback_def char_count_def
      split: proc_result.splits list.splits option.splits)

lemma ingest_tool_ran:
  assumes "ingest env cfg w r p v = (res, w')" and "res \<noteq> Exit_code 1"
    and "\<And>e. res \<noteq> Raised e"
  shows "\<exists>cmd out err. build_gitingest_command cfg r (ingest_tpath env cfg r) p = Inr cmd \<and>
           proc env cmd = Proc_done 0 out err \<and>
           finish_ingest env cfg (w\<lparr>out_dir := tool_output env cmd (ingest_tmp env r) (out_dir w)\<rparr>)
             r p v (timestamp (now env)) (ingest_tmp env r) = (res, w')"
  using assms by (auto simp: ingest_def Let_def split: sum.splits proc_result.splits if_splits)

lemma finish_ingest_Done_records:
  assumes "finish_ingest env cfg w r p v ts tmp = (Done, w')"
  shows "\<exists>md. profile md = p \<and>
           config_file w' = Some (set_metadata cfg r md) \<and>
           log_file w' = Some (Log_ok (prev_entries (log_file w) @ [log_entry_of r p (last_file md) md]))"
  using assms
  by (auto simp: finish_ingest_def Let_def split: sum.splits dest!: save_ingestion_log_Inr)
     (metis ingest_metadata.select_convs(5,6))

lemma finish_ingest_Done:
  assumes "finish_ingest env cfg w r p v ts tmp = (Done, w')"
  shows "\<exists>tokens chars files ver human f h.
     map_of (out_dir w) tmp = Some f \<and>
     count_tokens (counter_exists w) (proc env [counter_path env cfg, path_join (output_dir (settings cfg)) tmp])
       (Some (content f)) = Inr (tokens, chars) \<and>
     file_count_of (Some (content f)) = Inr files \<and>
     resolve_version env cfg r v = Inr ver \<and> format_token_count tokens = Inr human \<and>
     md5_hex8 env (content f) = h \<and>
     (let fname = final_name r ver human;
          md = \<lparr>last_updated = ts, token_count = tokens, character_count = chars, file_count = files,
                last_file = fname, profile = p, hash = h\<rparr>
      in w' = w\<lparr>out_dir := rename_entry tmp fname (out_dir w),
                config_file := Some (set_metadata cfg r md),
                log_file := Some (Log_ok (prev_entries (log_file w) @ [log_entry_of r p fname md]))\<rparr>)"
proof -
  obtain f where f: "map_of (out_dir w) tmp = Some f"
    using assms count_tokens_needs_file
    by (cases "map_of (out_dir w) tmp") (auto simp: finish_ingest_def Let_def split: sum.splits)
  have hash: "file_hash env (rename_entry tmp fname (out_dir w)) fname = Inr (md5_hex8 env (content f))" for fname
    using f by (simp add: file_hash_def map_of_rename_entry)
  show ?thesis
    using assms f
    by (auto simp: finish_ingest_def Let_def hash split: sum.splits dest!: save_ingestion_log_Inr)
qed

lemma set_metadata_repo:
  "map_of (repositories cfg) r = Some rc \<Longrightarrow>
   map_of (repositories (set_metadata cfg r md)) r = Some (rc\<lparr>metadata := Some md\<rparr>)"
  by (simp add: set_metadata_def update_conv')

text \<open>
  C2. A successful ingestion leaves in the output directory, under the final
  name \<open>{repo}_{version}_{tokens}.md\<close>, exactly the file the tool wrote as
  the temporary file; the temporary name is gone and every other file of the
  directory is as the tool left it. The \<open>{tokens}\<close> part renders the token
  count \<^verbatim>\<open>_count_tokens\<close> returned for that file, the version part is the
  resolved version.
\<close>

theorem ingest_done_artifact:
  assumes "ingest env cfg w r p v = (Done, w')"
  shows "\<exists>cmd f ver human tokens chars.
     build_gitingest_command cfg r (ingest_tpath env cfg r) p = Inr cmd \<and>
     map_of (tool_output env cmd (ingest_tmp env r) (out_dir w)) (ingest_tmp env r) = Some f \<and>
     count_tokens (counter_exists w) (proc env [counter_path env cfg, ingest_tpath env cfg r]) (Some (content f))
       = Inr (tokens, chars) \<and>
     resolve_version env cfg r v = Inr ver \<and> format_token_count tokens = Inr human \<and>
     map_of (out_dir w') =
       (map_of (tool_output env cmd (ingest_tmp env r) (out_dir w)))
         (ingest_tmp env r := None, final_name r ver human \<mapsto> f)"
proof -
  obtain cmd out err where
    cmd: "build_gitingest_command cfg r (ingest_tpath env cfg r) p = Inr cmd" and
    fin: "finish_ingest env cfg (w\<lparr>out_dir := tool_output env cmd (ingest_tmp env r) (out_dir w)\<rparr>)
            r p v (timestamp (now env)) (ingest_tmp env r) = (Done, w')"
    using ingest_tool_ran [OF assms] by blast
  obtain tokens chars files ver human f where
    f: "map_of (tool_output env cmd (ingest_tmp env r) (out_dir w)) (ingest_tmp env r) = Some f" and
    tok: "count_tokens (counter_exists w) (proc env [counter_path env cfg, ingest_tpath env cfg r])
            (Some (content f)) = Inr (tokens, chars)" and
    ver: "resolve_version env cfg r v = Inr ver" and hum: "format_token_count tokens = Inr human" and
    w': "out_dir w' = rename_entry (ingest_tmp env r) (final_name r ver human)
                        (tool_output env cmd (ingest_tmp env r) (out_dir w))"
    using finish_ingest_Done [OF fin] by (auto simp: Let_def)
  show ?thesis
    using cmd f tok ver hum by (auto simp: w' map_of_rename_entry)
qed

text \<open>
  C7. A successful ingestion records one metadata block: the configuration
  written back holds it as the repository's \<^verbatim>\<open>metadata\<close> (the rest of the
  repository's entry unchanged), and the log gains exactly one record, appended
  after the previous ones, whose fields are those of the block: the run's
  timestamp, the final file name, the measured counts and the hash of the
  renamed file.
\<close>

theorem ingest_done_records:
  assumes "ingest env cfg w r p v = (Done, w')"
  shows "\<exists>rc md cfg' f.
     map_of (repositories cfg) r = Some rc \<and>
     config_file w' = Some cfg' \<and> map_of (repositories cfg') r = Some (rc\<lparr>metadata := Some md\<rparr>) \<and>
     settings cfg' = settings cfg \<and> profiles cfg' = profiles cfg \<and>
     log_file w' = Some (Log_ok (prev_entries (log_file w) @ [log_entry_of r p (last_file md) md])) \<and>
     last_updated md = timestamp (now env) \<and> profile md = p \<and>
     map_of (out_dir w') (last_file md) = Some f \<and> hash md = md5_hex8 env (content f)"
proof -
  obtain cmd out err where
    cmd: "build_gitingest_command cfg r (ingest_tpath env cfg r) p = Inr cmd" and
    fin: "finish_ingest env cfg (w\<lparr>out_dir := tool_output env cmd (ingest_tmp env r) (out_dir w)\<rparr>)
            r p v (timestamp (now env)) (ingest_tmp env r) = (Done, w')"
    using ingest_tool_ran [OF assms] by blast
  obtain rc where rc: "map_of (repositories cfg) r = Some rc"
    using build_gitingest_command_Inr [OF cmd] by blast
  from finish_ingest_Done [OF fin] rc show ?thesis
    by (auto simp: Let_def map_of_rename_entry set_metadata_repo)
       (auto simp: set_metadata_def)
qed

section \<open>A concrete run and the error paths\<close>

lemma example_timestamp: "timestamp (now example_env) = ''20240102_030405''"
  by (simp add: example_env_def timestamp_def pad0_def str_nat.simps py_simps)

lemma example_tmp: "ingest_tmp example_env ''repo1'' = ''repo1_temp_20240102_030405.md''"
  by (simp add: example_timestamp temp_name_def)

lemma example_tpath: "ingest_tpath example_env example_config ''repo1'' = ''out/repo1_temp_20240102_030405.md''"
  by (simp add: example_tmp path_join_def example_config_def)

lemma example_cmd:
  "build_gitingest_command example_config ''repo1'' ''out/repo1_temp_20240102_030405.md'' ''standard''
   = Inr [''gitingest'', ''/src/repo1'', ''-o'', ''out/repo1_temp_20240102_030405.md'', ''-e'', ''*.log'', ''-e'', ''node_modules'', ''-e'', ''*.lock'']"
  by (simp add: build_gitingest_command_def example_config_def get_exclusions_def
       path_join_def temp_name_def max_size_args_def exclusion_args_def opt_list_def repo_config_empty_def)

lemma example_tokens:
  "count_tokens True (Proc_done 0 (py_str_int 1000 @ ''\<newline>'') []) (Some (replicate 4000 97)) = Inr (1000, 4000)"
proof -
  have "str_int_ok 1000" by (rule str_int_ok_below [of _ 4]) (simp_all add: max_str_digits_def)
  then show ?thesis
    by (simp add: count_tokens_def py_split_ws_strip py_split_ws_py_str_int py_isspace_def
        char_count_def count_tokens_ascii_4000)
qed

lemma count_occ_aux_absent: "x \<notin> set s \<Longrightarrow> count_occ_aux (x # p) s = 0"
  by (induction s) (auto simp: starts_with_iff)

lemma example_files: "file_count_of (Some (replicate 4000 97)) = Inr 0"
  by (simp add: file_count_of_def count_tokens_ascii_4000 count_occ_def code_block_marker_def count_occ_aux_absent)

lemma example_version: "resolve_version example_env example_config ''repo1'' None = Inr ''latest''"
  by (simp add: resolve_version_def version_lookup_def example_config_def example_env_def
      git_remote_argv_def get_github_version_def)

lemma example_human: "format_token_count 1000 = Inr ''1k''"
  by (simp add: format_token_count_def str_nat.simps py_str_int_def py_simps)

lemma example_run:
  "ingest example_env example_config example_world ''repo1'' ''standard'' None =
   (Done, example_world\<lparr>out_dir := [(''repo1_latest_1k.md'', \<lparr>content = replicate 4000 97, mtime = 1704164645\<rparr>)],
      config_file := Some (set_metadata example_config ''repo1''
         \<lparr>last_updated = ''20240102_030405'', token_count = 1000, character_count = 4000, file_count = 0,
          last_file = ''repo1_latest_1k.md'', profile = ''standard'', hash = ''0123abcd''\<rparr>),
      log_file := Some (Log_ok [\<lparr>le_timestamp = ''20240102_030405'', le_repository = ''repo1'',
          le_profile = ''standard'', le_file = ''repo1_latest_1k.md'', le_tokens = 1000, le_characters = 4000,
          le_files = 0, le_hash = ''0123abcd''\<rparr>])\<rparr>)"
proof -
  have w: "counter_exists example_world" "out_dir example_world = []" "log_file example_world = None"
    by (simp_all add: example_world_def)
  have p: "proc example_env [''gitingest'', ''/src/repo1'', ''-o'', ''out/repo1_temp_20240102_030405.md'', ''-e'', ''*.log'', ''-e'', ''node_modules'', ''-e'', ''*.lock''] = Proc_done 0 [] []"
    "proc example_env [''/usr/local/bin/tc'', ''out/repo1_temp_20240102_030405.md''] = Proc_done 0 (py_str_int 1000 @ ''\<newline>'') []"
    "ingest_writes example_env cmd = Some (replicate 4000 97)" "epoch (now example_env) = 1704164645"
    "md5_hex8 example_env bs = ''0123abcd''" for cmd bs
    by (simp_all add: example_env_def)
  have s: "counter_path example_env example_config = ''/usr/local/bin/tc''" "output_dir (settings example_config) = ''out''"
    by (simp_all add: counter_path_def expandvars_def example_env_def example_config_def)
  show ?thesis
    unfolding ingest_def Let_def example_tmp example_tpath example_cmd
    by (simp add: example_cmd finish_ingest_def Let_def example_timestamp w p s
        example_tokens example_files example_version example_human tool_output_def file_hash_def
        rename_entry_def final_name_def path_join_def save_ingestion_log_def log_entry_of_def)
qed

lemma tool_output_map_of:
  "map_of (tool_output env cmd tmp d) =
   (case ingest_writes env cmd of None \<Rightarrow> map_of d
    | Some bs \<Rightarrow> (map_of d)(tmp \<mapsto> \<lparr>content = bs, mtime = epoch (now env)\<rparr>))"
  by (simp add: tool_output_def update_conv' split: option.split)

text \<open>
  The end-to-end scenario of the spec (section 6): one repository with two
  exclusion patterns and the profile \<^verbatim>\<open>standard\<close> adding one more, a tool that
  writes a 4000-character file, a counter that prints 1000 tokens and a version
  lookup that fails. The tool is invoked with three \<^verbatim>\<open>-e\<close> flags in the
  original order; the run ends normally with exactly one file,
  \<^verbatim>\<open>repo1_latest_1k.md\<close>, and exactly one log entry with 1000 tokens and 4000
  characters.
\<close>

theorem ingest_spec_scenario:
  "build_gitingest_command example_config ''repo1'' (ingest_tpath example_env example_config ''repo1'') ''standard''
     = Inr [''gitingest'', ''/src/repo1'', ''-o'', ''out/repo1_temp_20240102_030405.md'',
            ''-e'', ''*.log'', ''-e'', ''node_modules'', ''-e'', ''*.lock''] \<and>
   (case ingest example_env example_config example_world ''repo1'' ''standard'' None of
      (res, w') \<Rightarrow> res = Done \<and> map fst (out_dir w') = [''repo1_latest_1k.md''] \<and>
        (\<exists>e. log_file w' = Some (Log_ok [e]) \<and> le_tokens e = 1000 \<and> le_characters e = 4000 \<and>
             le_file e = ''repo1_latest_1k.md''))"
  by (simp add: example_tpath example_cmd example_run)

text \<open>
  C1. A failing ingestion command is the fatal path of the spec (section 3,
  step 2): when the command is built and the tool exits non-zero, \<^verbatim>\<open>ingest\<close>
  ends with exit code 1, neither the configuration file nor the log is touched,
  and the directory is the one before the run without the temporary name: a
  partial file the tool may have left is deleted and nothing else changes.
\<close>

theorem ingest_tool_failure:
  assumes "build_gitingest_command cfg r (ingest_tpath env cfg r) p = Inr cmd"
    and "proc env cmd = Proc_done rc out err" and "rc \<noteq> 0"
  shows "\<exists>w'. ingest env cfg w r p v = (Exit_code 1, w') \<and>
           config_file w' = config_file w \<and> log_file w' = log_file w \<and>
           map_of (out_dir w') = (map_of (out_dir w))(ingest_tmp env r := None)"
  using assms
  by (simp add: ingest_def Let_def delete_conv' tool_output_map_of split: option.split)

text \<open>
  C24. Measuring errors leave the temporary file behind: when the tool succeeds
  and wrote the temporary file but \<^verbatim>\<open>_count_tokens\<close> raises (malformed counter
  output, bytes that are not UTF-8), the exception escapes \<^verbatim>\<open>ingest\<close> with the
  temporary file still in the output directory, holding the tool's bytes, and
  configuration and log unchanged. The spec's invariant (section 2) says the
  temporary file is renamed only after successful measurement and otherwise
  deleted.
\<close>

theorem ingest_measure_error_keeps_temp:
  assumes "build_gitingest_command cfg r (ingest_tpath env cfg r) p = Inr cmd"
    and "proc env cmd = Proc_done 0 out err" and "ingest_writes env cmd = Some bs"
    and "count_tokens (counter_exists w) (proc env [counter_path env cfg, ingest_tpath env cfg r])
           (Some bs) = Inl e"
  shows "\<exists>w'. ingest env cfg w r p v = (Raised e, w') \<and>
           map_of (out_dir w') (ingest_tmp env r) = Some \<lparr>content = bs, mtime = epoch (now env)\<rparr> \<and>
           config_file w' = config_file w \<and> log_file w' = log_file w"
  using assms
  by (simp add: ingest_def finish_ingest_def tool_output_map_of)

text \<open>
  C25. The crash-consistency gap of section 3 is real: if a run with no log
  succeeds, the same run against a log file that is not JSON performs every
  effect of the successful run (the artifact renamed, the configuration
  rewritten with the new metadata) and then raises \<^verbatim>\<open>JSONDecodeError\<close>, leaving
  the log as it was. The spec (section 4.7) says an unreadable log is read as
  empty.
\<close>

theorem ingest_log_malformed_gap:
  assumes "ingest env cfg (w\<lparr>log_file := None\<rparr>) r p v = (Done, w1)"
  shows "ingest env cfg (w\<lparr>log_file := Some Log_malformed\<rparr>) r p v =
           (Raised JSONDecodeError, w1\<lparr>log_file := Some Log_malformed\<rparr>)"
proof -
  obtain cmd out err where
    cmd: "build_gitingest_command cfg r (ingest_tpath env cfg r) p = Inr cmd" and
    pr: "proc env cmd = Proc_done 0 out err" and
    fin: "finish_ingest env cfg (w\<lparr>log_file := None, out_dir := tool_output env cmd (ingest_tmp env r) (out_dir w)\<rparr>)
            r p v (timestamp (now env)) (ingest_tmp env r) = (Done, w1)"
    using ingest_tool_ran [OF assms] by auto
  show ?thesis
    using finish_ingest_Done [OF fin] cmd pr
    by (auto simp: ingest_def finish_ingest_def Let_def file_hash_def map_of_rename_entry
        save_ingestion_log_def)
qed

lemma example_run_snd:
  "ingest example_env example_config example_world ''repo1'' ''standard'' None =
   (Done, snd (ingest example_env example_config example_world ''repo1'' ''standard'' None))"
  by (simp add: example_run)

lemma example_variants_tpath:
  "ingest_tpath failing_env example_config ''repo1'' = ''out/repo1_temp_20240102_030405.md''"
  "ingest_tpath undecodable_env example_config ''repo1'' = ''out/repo1_temp_20240102_030405.md''"
  using example_tpath by (simp_all add: failing_env_def undecodable_env_def)

theorem ingest_done_artifact_witness:
  "\<exists>cmd f ver human tokens chars.
     build_gitingest_command example_config ''repo1'' (ingest_tpath example_env example_config ''repo1'') ''standard'' = Inr cmd \<and>
     map_of (tool_output example_env cmd (ingest_tmp example_env ''repo1'') (out_dir example_world)) (ingest_tmp example_env ''repo1'') = Some f \<and>
     count_tokens (counter_exists example_world)
       (proc example_env [counter_path example_env example_config, ingest_tpath example_env example_config ''repo1''])
       (Some (content f)) = Inr (tokens, chars) \<and>
     resolve_version example_env example_config ''repo1'' None = Inr ver \<and> format_token_count tokens = Inr human \<and>
     map_of (out_dir (snd (ingest example_env example_config example_world ''repo1'' ''standard'' None))) =
       (map_of (tool_output example_env cmd (ingest_tmp example_env ''repo1'') (out_dir example_world)))
         (ingest_tmp example_env ''repo1'' := None, final_name ''repo1'' ver human \<mapsto> f)"
  using ingest_done_artifact [OF example_run_snd] .

theorem ingest_done_records_witness:
  "\<exists>rc md cfg' f.
     map_of (repositories example_config) ''repo1'' = Some rc \<and>
     config_file (snd (ingest example_env example_config example_world ''repo1'' ''standard'' None)) = Some cfg' \<and>
     map_of (repositories cfg') ''repo1'' = Some (rc\<lparr>metadata := Some md\<rparr>) \<and>
     settings cfg' = settings example_config \<and> profiles cfg' = profiles example_config \<and>
     log_file (snd (ingest example_env example_config example_world ''repo1'' ''standard'' None)) =
       Some (Log_ok (prev_entries (log_file example_world) @ [log_entry_of ''repo1'' ''standard'' (last_file md) md])) \<and>
     last_updated md = timestamp (now example_env) \<and> profile md = ''standard'' \<and>
     map_of (out_dir (snd (ingest example_env example_config example_world ''repo1'' ''standard'' None))) (last_file md) = Some f \<and>
     hash md = md5_hex8 example_env (content f)"
  using ingest_done_records [OF example_run_snd] .

theorem ingest_tool_failure_witness:
  "\<exists>w'. ingest failing_env example_config example_world ''repo1'' ''standard'' None = (Exit_code 1, w') \<and>
     config_file w' = config_file example_world \<and> log_file w' = log_file example_world \<and>
     map_of (out_dir w') = (map_of (out_dir example_world))(ingest_tmp failing_env ''repo1'' := None)"
proof -
  have cmd: "build_gitingest_command example_config ''repo1'' (ingest_tpath failing_env example_config ''repo1'') ''standard''
     = Inr [''gitingest'', ''/src/repo1'', ''-o'', ''out/repo1_temp_20240102_030405.md'', ''-e'', ''*.log'', ''-e'', ''node_modules'', ''-e'', ''*.lock'']"
    by (simp only: example_variants_tpath example_cmd)
  have "proc failing_env cmd = Proc_done 1 [] ''fatal''" for cmd
    by (simp add: failing_env_def)
  then show ?thesis
    using ingest_tool_failure [OF cmd] by simp
qed

theorem ingest_measure_error_keeps_temp_witness:
  "\<exists>w'. ingest undecodable_env example_config (example_world\<lparr>counter_exists := False\<rparr>) ''repo1'' ''standard'' None
          = (Raised UnicodeDecodeError, w') \<and>
     map_of (out_dir w') (ingest_tmp undecodable_env ''repo1'') = Some \<lparr>content = [255], mtime = epoch (now undecodable_env)\<rparr> \<and>
     config_file w' = config_file (example_world\<lparr>counter_exists := False\<rparr>) \<and>
     log_file w' = log_file (example_world\<lparr>counter_exists := False\<rparr>)"
proof -
  have cmd: "build_gitingest_command example_config ''repo1'' (ingest_tpath undecodable_env example_config ''repo1'') ''standard''
     = Inr [''gitingest'', ''/src/repo1'', ''-o'', ''out/repo1_temp_20240102_030405.md'', ''-e'', ''*.log'', ''-e'', ''node_modules'', ''-e'', ''*.lock'']"
    by (simp only: example_variants_tpath example_cmd)
  have pr: "proc undecodable_env [''gitingest'', ''/src/repo1'', ''-o'', ''out/repo1_temp_20240102_030405.md'', ''-e'', ''*.log'', ''-e'', ''node_modules'', ''-e'', ''*.lock''] = Proc_done 0 [] []"
    by (simp add: undecodable_env_def example_env_def)
  have wr: "ingest_writes undecodable_env cmd = Some [255]" for cmd
    by (simp add: undecodable_env_def)
  have ct: "count_tokens False run (Some [255]) = Inl UnicodeDecodeError" for run
    by (simp add: count_tokens_def char_fallback_def read_text_def)
  show ?thesis
    using ingest_measure_error_keeps_temp [where w = "example_world\<lparr>counter_exists := False\<rparr>"
        and e = UnicodeDecodeError and v = None, OF cmd pr wr] ct by simp
qed

theorem ingest_log_malformed_gap_witness:
  "ingest example_env example_config (example_world\<lparr>log_file := Some Log_malformed\<rparr>) ''repo1'' ''standard'' None =
     (Raised JSONDecodeError,
      (snd (ingest example_env example_config example_world ''repo1'' ''standard'' None))\<lparr>log_file := Some Log_malformed\<rparr>)"
proof -
  have "example_world\<lparr>log_file := None\<rparr> = example_world" by (simp add: example_world_def)
  then show ?thesis
    using ingest_log_malformed_gap [of example_env example_config example_world] example_run_snd by simp
qed

text \<open>
  C14. A successful ingestion leaves no temporary file: the final name
  \<open>{repo}_{version}_{tokens}.md\<close> can never be the temporary name
  \<open>{repo}_temp_{timestamp}.md\<close>, whatever the version string, because the
  rendered count has no underscore and is never the six digits of the time of
  day, so the rename always removes the temporary name (spec, section 2: one
  temporary file per ingestion, renamed on success).
\<close>

theorem ingest_done_no_temp:
  assumes "ingest env cfg w r p v = (Done, w')"
  shows "map_of (out_dir w') (ingest_tmp env r) = None"
proof -
  obtain cmd out err where
    fin: "finish_ingest env cfg (w\<lparr>out_dir := tool_output env cmd (ingest_tmp env r) (out_dir w)\<rparr>)
            r p v (timestamp (now env)) (ingest_tmp env r) = (Done, w')"
    using ingest_tool_ran [OF assms] by blast
  obtain tokens ver human f where
    f: "map_of (tool_output env cmd (ingest_tmp env r) (out_dir w)) (ingest_tmp env r) = Some f" and
    hum: "format_token_count tokens = Inr human" and
    w': "out_dir w' = rename_entry (ingest_tmp env r) (final_name r ver human)
                        (tool_output env cmd (ingest_tmp env r) (out_dir w))"
    using finish_ingest_Done [OF fin] by (auto simp: Let_def)
  have "final_name r ver human \<noteq> ingest_tmp env r"
    using format_token_count_shape [OF hum] by (intro final_name_ne_temp_name) auto
  then show ?thesis using f by (simp add: w' map_of_rename_entry)
qed

theorem ingest_done_no_temp_witness:
  "map_of (out_dir (snd (ingest example_env example_config example_world ''repo1'' ''standard'' None)))
     (ingest_tmp example_env ''repo1'') = None"
  by (rule ingest_done_no_temp [OF example_run_snd])

end
