(* ===== verification/Clean.thy ===== *)
theory Clean
  imports World
begin

text \<open>
  \<^verbatim>\<open>GitIngestManager.clean_old\<close> (lines 308--339): the retention cleaner. The
  \<^verbatim>\<open>*.md\<close> files of the output directory, in listing order, are grouped in a
  dictionary by the text of the file stem before the first underscore; each
  group is sorted newest first by modification time (a stable sort) and every
  file after the first \<^verbatim>\<open>keep_latest\<close> is unlinked, counting files and bytes.
  The grouping loop is proved equal to a reference definition that filters by
  key, which carries the idempotence and the safety properties.
\<close>

section \<open>Names: \<^verbatim>\<open>glob("*.md")\<close>, \<^verbatim>\<open>Path.stem\<close> and the group key\<close>

definition md_glob :: "string \<Rightarrow> bool" where
  "md_glob name = py_endswith name ''.md''"

primrec rfind_aux :: "char \<Rightarrow> string \<Rightarrow> nat \<Rightarrow> int \<Rightarrow> int" where
  "rfind_aux c [] i r = r"
| "rfind_aux c (x # xs) i r = rfind_aux c xs (Suc i) (if x = c then int i else r)"

text \<open>\<^verbatim>\<open>str.rfind\<close>: the last index of \<open>c\<close>, or \<open>-1\<close>.\<close>

definition py_rfind :: "char \<Rightarrow> string \<Rightarrow> int" where
  "py_rfind c s = rfind_aux c s 0 (-1)"

text \<open>
  \<^verbatim>\<open>PurePath.stem\<close>: the name without its last suffix, where a suffix starts at
  the last dot, not at position 0 and not at the end.
\<close>

definition path_stem :: "string \<Rightarrow> string" where
  "path_stem name =
     (let i = py_rfind CHR ''.'' name
      in if 0 < i \<and> i < int (length name) - 1 then take (nat i) name else name)"

definition md_files :: "dir \<Rightarrow> dir" where
  "md_files d = filter (\<lambda>f. md_glob (fst f)) d"

section \<open>Grouping (lines 313--321)\<close>

type_synonym groups = "(string \<times> dir) list"

definition add_file :: "groups \<Rightarrow> string \<times> file_entry \<Rightarrow> groups" where
  "add_file repo_files f =
     (let parts = py_split_char CHR ''_'' (path_stem (fst f))
      in if parts = [] then repo_files
         else
           (let repo = hd parts
            in case map_of repo_files repo of
                 None \<Rightarrow> repo_files @ [(repo, [f])]
               | Some fs \<Rightarrow> AList.update repo (fs @ [f]) repo_files))"

definition group_files :: "dir \<Rightarrow> groups" where
  "group_files fs = foldl add_file [] fs"

section \<open>Removal (lines 324--337)\<close>

text \<open>\<^verbatim>\<open>files.sort(key=lambda f: f.stat().st_mtime, reverse=True)\<close>: stable, newest first.\<close>

definition by_mtime_desc :: "dir \<Rightarrow> dir" where
  "by_mtime_desc fs = sort_key (\<lambda>f. - mtime (snd f)) fs"

text \<open>
  The loop over \<^verbatim>\<open>files[keep_latest:]\<close>: \<^verbatim>\<open>stat\<close> of a file that is gone raises
  \<^verbatim>\<open>FileNotFoundError\<close>, with the deletions already done.
\<close>

type_synonym clean_state = "dir \<times> nat \<times> nat"

fun remove_files :: "dir \<Rightarrow> clean_state \<Rightarrow> (py_exc \<times> dir) + clean_state" where
  "remove_files [] st = Inr st"
| "remove_files (f # fs) (d, total_removed, total_size) =
     (case map_of d (fst f) of
        None \<Rightarrow> Inl (FileNotFoundError, d)
      | Some e \<Rightarrow> remove_files fs (AList.delete (fst f) d, Suc total_removed, total_size + length (content e)))"

fun clean_groups :: "int \<Rightarrow> groups \<Rightarrow> clean_state \<Rightarrow> (py_exc \<times> dir) + clean_state" where
  "clean_groups keep [] st = Inr st"
| "clean_groups keep ((repo, fs) # gs) st =
     (case remove_files (py_slice_from keep (by_mtime_desc fs)) st of
        Inl err \<Rightarrow> Inl err
      | Inr st' \<Rightarrow> clean_groups keep gs st')"

definition clean_old :: "int \<Rightarrow> dir \<Rightarrow> (py_exc \<times> dir) + clean_state" where
  "clean_old keep d = clean_groups keep (group_files (md_files d)) (d, 0, 0)"

section \<open>Reference definitions\<close>

definition file_key :: "string \<times> file_entry \<Rightarrow> string" where
  "file_key f = takeWhile (\<lambda>c. c \<noteq> CHR ''_'') (path_stem (fst f))"

text \<open>The keys in order of first occurrence, each with its files in listing order.\<close>

definition first_keys :: "dir \<Rightarrow> string list" where
  "first_keys fs = rev (remdups (rev (map file_key fs)))"

definition groups_ref :: "dir \<Rightarrow> groups" where
  "groups_ref fs = map (\<lambda>k. (k, filter (\<lambda>f. file_key f = k) fs)) (first_keys fs)"

definition victims :: "int \<Rightarrow> dir \<Rightarrow> dir" where
  "victims keep d = concat (map (\<lambda>g. py_slice_from keep (by_mtime_desc (snd g))) (groups_ref (md_files d)))"

section \<open>Each group after the cleaning\<close>

abbreviation group_of :: "string \<Rightarrow> dir \<Rightarrow> dir" where
  "group_of k fs \<equiv> filter (\<lambda>f. file_key f = k) fs"

abbreviation kept_out :: "int \<Rightarrow> string \<Rightarrow> dir \<Rightarrow> dir" where
  "kept_out keep k d \<equiv> py_slice_from keep (by_mtime_desc (group_of k (md_files d)))"

definition example_dir :: dir where
  "example_dir =
     [(''repo1_v1_1k.md'', \<lparr>content = [1, 2], mtime = 100\<rparr>),
      (''repo1_v2_1k.md'', \<lparr>content = [3], mtime = 200\<rparr>),
      (''notes.txt'', \<lparr>content = [], mtime = 50\<rparr>)]"

section \<open>The grouping loop computes the reference grouping\<close>

lemma update_map_pairs:
  "k \<in> set ks \<Longrightarrow> distinct ks \<Longrightarrow>
   AList.update k v (map (\<lambda>j. (j, G j)) ks) = map (\<lambda>j. (j, if j = k then v else G j)) ks"
  by (induction ks) auto

lemma map_of_map_pairs: "map_of (map (\<lambda>j. (j, G j)) ks) k = (if k \<in> set ks then Some (G k) else None)"
  by (induction ks) auto

lemma add_file_ref: "add_file (groups_ref fs) f = groups_ref (fs @ [f])"
proof (cases "file_key f \<in> set (map file_key fs)")
  case True
  have "distinct (first_keys fs)" by (simp add: first_keys_def)
  with True show ?thesis
    by (auto simp: add_file_def groups_ref_def first_keys_def Let_def map_of_map_pairs update_map_pairs
        file_key_def[symmetric] intro!: map_cong)
next
  case False
  then have "filter (\<lambda>g. file_key g = file_key f) fs = []"
    unfolding filter_empty_conv by (metis imageI set_map)
  with False show ?thesis
    by (auto simp: add_file_def groups_ref_def first_keys_def Let_def map_of_map_pairs
        file_key_def[symmetric] intro!: map_cong)
qed

theorem group_files_ref: "group_files fs = groups_ref fs"
proof (induction fs rule: rev_induct)
  case Nil
  then show ?case by (simp add: group_files_def groups_ref_def first_keys_def)
next
  case (snoc f fs)
  then show ?case by (simp add: group_files_def add_file_ref [symmetric])
qed

section \<open>The removal loop computes the reference victims\<close>

lemma remove_files_append:
  "remove_files (xs @ ys) st =
     (case remove_files xs st of Inl err \<Rightarrow> Inl err | Inr st' \<Rightarrow> remove_files ys st')"
  by (induction xs st rule: remove_files.induct) (auto split: option.split)

lemma clean_groups_concat:
  "clean_groups keep gs st =
     remove_files (concat (map (\<lambda>g. py_slice_from keep (by_mtime_desc (snd g))) gs)) st"
  by (induction keep gs st rule: clean_groups.induct) (auto simp: remove_files_append split: sum.split)

lemma clean_old_victims: "clean_old keep d = remove_files (victims keep d) (d, 0, 0)"
  by (simp add: clean_old_def victims_def clean_groups_concat group_files_ref)

lemma remove_files_ok:
  assumes "distinct (map fst V)" and "\<forall>x \<in> set V. map_of d (fst x) = Some (snd x)"
  shows "remove_files V (d, n, s) =
           Inr (filter (\<lambda>p. fst p \<notin> set (map fst V)) d, n + length V,
                s + sum_list (map (\<lambda>x. length (content (snd x))) V))"
  using assms
proof (induction V arbitrary: d n s)
  case Nil
  then show ?case by simp
next
  case (Cons f V)
  have "\<forall>x \<in> set V. map_of (AList.delete (fst f) d) (fst x) = Some (snd x)"
    using Cons.prems by (force simp: delete_conv')
  with Cons.prems Cons.IH [of "AList.delete (fst f) d"] show ?case
    by (auto simp: AList.delete_eq split_def filter_filter intro!: filter_cong)
qed

lemma py_slice_from_is_drop: "\<exists>n. py_slice_from k xs = drop n xs"
  by (auto simp: py_slice_from_def)

lemma set_py_slice_from: "set (py_slice_from k xs) \<subseteq> set xs"
  using py_slice_from_is_drop [of k xs] set_drop_subset by metis

lemma distinct_py_slice_from: "distinct xs \<Longrightarrow> distinct (py_slice_from k xs)"
  using py_slice_from_is_drop [of k xs] distinct_drop by metis

lemma distinct_concat_keyed:
  "distinct ks \<Longrightarrow> (\<forall>k \<in> set ks. distinct (P k) \<and> (\<forall>x \<in> set (P k). key x = k)) \<Longrightarrow>
   distinct (concat (map P ks))"
  by (induction ks) fastforce+

lemma victims_in_group:
  "x \<in> set (victims keep d) \<longleftrightarrow>
   (\<exists>k. x \<in> set (py_slice_from keep (by_mtime_desc (filter (\<lambda>f. file_key f = k) (md_files d)))) \<and>
        k \<in> set (first_keys (md_files d)))"
  by (auto simp: victims_def groups_ref_def)

lemma set_victims: "set (victims keep d) \<subseteq> set (md_files d)"
  using set_py_slice_from by (fastforce simp: victims_in_group by_mtime_desc_def)

lemma distinct_victims:
  assumes "distinct (map fst d)"
  shows "distinct (map fst (victims keep d))"
proof -
  have dm: "distinct (md_files d)" using assms by (simp add: md_files_def distinct_map distinct_filter)
  have "distinct (victims keep d)"
    unfolding victims_def groups_ref_def map_map o_def snd_conv
  proof (rule distinct_concat_keyed [where key = file_key])
    show "distinct (first_keys (md_files d))" by (simp add: first_keys_def)
  next
    show "\<forall>k \<in> set (first_keys (md_files d)).
            distinct (py_slice_from keep (by_mtime_desc (filter (\<lambda>f. file_key f = k) (md_files d)))) \<and>
            (\<forall>x \<in> set (py_slice_from keep (by_mtime_desc (filter (\<lambda>f. file_key f = k) (md_files d)))).
               file_key x = k)"
      using dm set_py_slice_from
      by (fastforce simp: by_mtime_desc_def intro: distinct_py_slice_from)
  qed
  moreover have "inj_on fst (set (victims keep d))"
    using assms set_victims [of keep d] by (auto simp: distinct_map md_files_def intro: inj_on_subset)
  ultimately show ?thesis by (simp add: distinct_map)
qed

lemma clean_old_eq:
  assumes "distinct (map fst d)"
  shows "clean_old keep d =
           Inr (filter (\<lambda>p. fst p \<notin> set (map fst (victims keep d))) d, length (victims keep d),
                sum_list (map (\<lambda>x. length (content (snd x))) (victims keep d)))"
proof -
  have "\<forall>x \<in> set (victims keep d). map_of d (fst x) = Some (snd x)"
    using assms set_victims [of keep d] by (auto simp: md_files_def intro: map_of_is_SomeI)
  then show ?thesis
    using remove_files_ok [OF distinct_victims [OF assms]] by (simp add: clean_old_victims)
qed

section \<open>Each group after the cleaning\<close>

lemma md_files_filter_fst:
  "md_files (filter (\<lambda>p. fst p \<notin> N) d) = filter (\<lambda>p. fst p \<notin> N) (md_files d)"
  by (simp add: md_files_def filter_filter conj_commute)

lemma victim_name_iff:
  assumes "distinct (map fst d)" and "p \<in> set (md_files d)"
  shows "fst p \<in> set (map fst (victims keep d)) \<longleftrightarrow> p \<in> set (victims keep d)"
proof -
  have "inj_on fst (set (md_files d))"
    using assms(1) by (auto simp: distinct_map md_files_def intro: inj_on_subset)
  then show ?thesis
    using assms(2) set_victims [of keep d] by (auto dest: inj_onD)
qed

lemma victim_group_iff:
  "file_key p = k \<Longrightarrow> p \<in> set (victims keep d) \<longleftrightarrow> p \<in> set (kept_out keep k d)"
  using set_py_slice_from
  by (fastforce simp: victims_in_group by_mtime_desc_def first_keys_def)

lemma group_after_clean:
  assumes "distinct (map fst d)"
  shows "group_of k (md_files (filter (\<lambda>p. fst p \<notin> set (map fst (victims keep d))) d)) =
         filter (\<lambda>x. x \<notin> set (kept_out keep k d)) (group_of k (md_files d))"
  unfolding md_files_filter_fst filter_filter
  by (rule filter_cong) (use victim_name_iff [OF assms] victim_group_iff in auto)

lemma length_filter_not_in:
  assumes "distinct G" and "distinct D" and "set D \<subseteq> set G"
  shows "length (filter (\<lambda>x. x \<notin> set D) G) = length G - length D"
proof -
  have "{x. x \<notin> set D} \<inter> set G = set G - set D" by blast
  then show ?thesis
    using assms by (simp add: distinct_length_filter card_Diff_subset distinct_card)
qed

lemma length_group_after_clean_any:
  assumes "distinct (map fst d)"
  shows "length (group_of k (md_files (filter (\<lambda>p. fst p \<notin> set (map fst (victims keep d))) d))) =
         length (group_of k (md_files d)) - length (kept_out keep k d)"
proof -
  have dg: "distinct (group_of k (md_files d))"
    using assms(1) by (simp add: md_files_def distinct_map)
  have sub: "set (kept_out keep k d) \<subseteq> set (group_of k (md_files d))"
    using set_py_slice_from by (fastforce simp: by_mtime_desc_def)
  have dk: "distinct (kept_out keep k d)"
    using dg by (simp add: by_mtime_desc_def distinct_py_slice_from)
  show ?thesis
    unfolding group_after_clean [OF assms(1)] by (rule length_filter_not_in [OF dg dk sub])
qed

lemma length_group_after_clean:
  assumes "distinct (map fst d)" and "0 \<le> keep"
  shows "length (group_of k (md_files (filter (\<lambda>p. fst p \<notin> set (map fst (victims keep d))) d))) =
         min (nat keep) (length (group_of k (md_files d)))"
  using length_group_after_clean_any [OF assms(1)] assms(2) by (simp add: by_mtime_desc_def)

lemma length_group_after_clean_neg:
  assumes "distinct (map fst d)" and "keep < 0"
  shows "length (group_of k (md_files (filter (\<lambda>p. fst p \<notin> set (map fst (victims keep d))) d))) =
         length (group_of k (md_files d)) - nat (- keep)"
  using length_group_after_clean_any [OF assms(1)] assms(2) by (simp add: by_mtime_desc_def py_slice_from_neg)

lemma map_of_filter_fst:
  "n \<notin> N \<Longrightarrow> map_of (filter (\<lambda>p. fst p \<notin> N) d) n = map_of d n"
  by (induction d) auto

lemma victims_none_left:
  "0 \<le> keep \<Longrightarrow> (\<forall>k. length (group_of k (md_files d)) \<le> nat keep) \<Longrightarrow> victims keep d = []"
  by (simp add: victims_def groups_ref_def by_mtime_desc_def)

lemma sorted_take_drop:
  assumes "sorted (map f xs)" and "a \<in> set (take m xs)" and "b \<in> set (drop m xs)"
  shows "f a \<le> f b"
proof -
  have "sorted (map f (take m xs) @ map f (drop m xs))"
    using assms(1) by (simp flip: map_append)
  then show ?thesis using assms(2,3) by (auto simp: sorted_append)
qed

text \<open>The strictly newest file of its group is never deleted when at least one is kept.\<close>

lemma newest_not_victim:
  assumes "distinct (map fst d)" and "1 \<le> keep" and x: "x \<in> set (md_files d)"
    and newest: "\<forall>y \<in> set (md_files d). file_key y = file_key x \<longrightarrow> y \<noteq> x \<longrightarrow> mtime (snd y) < mtime (snd x)"
  shows "x \<notin> set (victims keep d)"
proof
  assume "x \<in> set (victims keep d)"
  define S where "S = by_mtime_desc (group_of (file_key x) (md_files d))"
  have xd: "x \<in> set (drop (nat keep) S)"
    using \<open>x \<in> set (victims keep d)\<close> victim_group_iff [of x "file_key x" keep d] assms(2)
    by (simp add: S_def)
  have "distinct (md_files d)" using assms(1) by (simp add: md_files_def distinct_map)
  then have dS: "distinct S" by (simp add: S_def by_mtime_desc_def)
  have "S \<noteq> []" using xd by auto
  then have "hd S \<in> set (take (nat keep) S)" using assms(2) by (cases S; cases "nat keep") auto
  moreover have "hd S \<noteq> x"
    using calculation xd set_take_disj_set_drop_if_distinct [OF dS, of "nat keep" "nat keep"] by auto
  moreover have "hd S \<in> set (group_of (file_key x) (md_files d))"
    using \<open>S \<noteq> []\<close> hd_in_set [of S] by (simp add: S_def by_mtime_desc_def)
  ultimately have lt: "mtime (snd (hd S)) < mtime (snd x)" and a: "hd S \<in> set (take (nat keep) S)"
    using newest by auto
  have "sorted (map (\<lambda>f. - mtime (snd f)) S)" by (simp add: S_def by_mtime_desc_def)
  from sorted_take_drop [OF this a xd] lt show False by simp
qed

section \<open>The group of an artifact name\<close>

lemma rfind_aux_append:
  "rfind_aux c (s @ t) i r = rfind_aux c t (i + length s) (rfind_aux c s i r)"
  by (induction s arbitrary: i r) simp_all

lemma rfind_aux_absent: "c \<notin> set t \<Longrightarrow> rfind_aux c t i r = r"
  by (induction t arbitrary: i) auto

lemma path_stem_md: "x \<noteq> [] \<Longrightarrow> path_stem (x @ ''.md'') = x"
proof -
  assume x: "x \<noteq> []"
  have "py_rfind CHR ''.'' (x @ ''.md'') = int (length x)"
    by (simp add: py_rfind_def rfind_aux_append rfind_aux_absent)
  with x show ?thesis by (simp add: path_stem_def)
qed

lemma md_glob_final_name: "md_glob (final_name r v h)"
proof -
  have "final_name r v h = (r @ ''_'' @ v @ ''_'' @ h) @ ''.md''" by (simp add: final_name_def)
  then show ?thesis by (simp only: md_glob_def py_endswith_append)
qed

lemma takeWhile_self: "\<forall>x \<in> set xs. P x \<Longrightarrow> takeWhile P xs = xs"
  by (induction xs) simp_all

text \<open>An artifact falls in the group of its repository name up to the first underscore.\<close>

lemma file_key_final_name: "file_key (final_name r v h, f) = takeWhile (\<lambda>c. c \<noteq> CHR ''_'') r"
proof -
  have "final_name r v h = (r @ ''_'' @ v @ ''_'' @ h) @ ''.md''" by (simp add: final_name_def)
  moreover have "path_stem ((r @ ''_'' @ v @ ''_'' @ h) @ ''.md'') = r @ ''_'' @ v @ ''_'' @ h"
    by (rule path_stem_md) simp
  ultimately have "path_stem (final_name r v h) = r @ ''_'' @ v @ ''_'' @ h" by simp
  then show ?thesis by (simp add: file_key_def takeWhile_append takeWhile_self)
qed

text \<open>With one file kept, a file with a strictly newer one in its group is deleted.\<close>

lemma older_victim_keep_one:
  assumes "x \<in> set (md_files d)" and "y \<in> set (md_files d)" and "file_key y = file_key x"
    and "mtime (snd x) < mtime (snd y)"
  shows "x \<in> set (victims 1 d)"
proof -
  define S where "S = by_mtime_desc (group_of (file_key x) (md_files d))"
  have xS: "x \<in> set S" and yS: "y \<in> set S" using assms(1-3) by (simp_all add: S_def by_mtime_desc_def)
  have sorted: "sorted (map (\<lambda>f. - mtime (snd f)) S)" by (simp add: S_def by_mtime_desc_def)
  obtain z zs where S: "S = z # zs" using xS by (cases S) auto
  have "x \<in> set zs"
  proof (rule ccontr)
    assume "x \<notin> set zs"
    then have "x = z" using xS S by simp
    moreover have "mtime (snd y) \<le> mtime (snd z)" using sorted yS S by (cases "y = z") auto
    ultimately show False using assms(4) by simp
  qed
  then show ?thesis using victim_group_iff [of x "file_key x" 1 d] S by (simp add: S_def)
qed

lemma clean_old_Inr_dir:
  "distinct (map fst d) \<Longrightarrow> clean_old keep d = Inr (d', n, s) \<Longrightarrow>
   d' = filter (\<lambda>p. fst p \<notin> set (map fst (victims keep d))) d"
  by (simp add: clean_old_eq)

lemmas clean_eval = clean_old_def md_files_def md_glob_def py_endswith_def group_files_def
  add_file_def path_stem_def py_rfind_def by_mtime_desc_def Let_def py_slice_from_neg

lemma clean_example_eval:
  "clean_old 1 example_dir =
     Inr ([(''repo1_v2_1k.md'', \<lparr>content = [3], mtime = 200\<rparr>), (''notes.txt'', \<lparr>content = [], mtime = 50\<rparr>)], 1, 2)"
  by (simp add: clean_eval example_dir_def)

section \<open>Properties of the retention cleaner\<close>

text \<open>
  C13. What \<^verbatim>\<open>clean_old\<close> does, for \<open>keep_latest \<ge> 0\<close> and a directory (distinct
  names): it never raises; in every group (files whose stem has the same text
  before the first underscore) exactly \<open>min keep_latest (group size)\<close> files
  remain; it only deletes, and never a file that is not \<^verbatim>\<open>*.md\<close>; the counts it
  reports are the number of files deleted and the sum of their sizes.
\<close>

theorem clean_old_result:
  assumes "distinct (map fst d)" and "0 \<le> keep"
  shows "\<exists>d' n s. clean_old keep d = Inr (d', n, s) \<and>
           (\<forall>k. length (group_of k (md_files d')) = min (nat keep) (length (group_of k (md_files d)))) \<and>
           set d' \<subseteq> set d \<and> (\<forall>name. \<not> md_glob name \<longrightarrow> map_of d' name = map_of d name) \<and>
           n = length d - length d' \<and>
           s = sum_list (map (\<lambda>x. length (content (snd x))) (victims keep d))"
proof -
  let ?V = "victims keep d"
  let ?d' = "filter (\<lambda>p. fst p \<notin> set (map fst ?V)) d"
  have "\<forall>name. \<not> md_glob name \<longrightarrow> name \<notin> set (map fst ?V)"
    using set_victims [of keep d] by (auto simp: md_files_def)
  then have frame: "\<forall>name. \<not> md_glob name \<longrightarrow> map_of ?d' name = map_of d name"
    by (auto simp: map_of_filter_fst)
  have nm: "fst p \<in> set (map fst ?V) \<longleftrightarrow> md_glob (fst p) \<and> p \<in> set ?V" if "p \<in> set d" for p
  proof
    assume "fst p \<in> set (map fst ?V)"
    moreover from this have "md_glob (fst p)"
      using set_victims [of keep d] by (auto simp: md_files_def)
    ultimately show "md_glob (fst p) \<and> p \<in> set ?V"
      using victim_name_iff [OF assms(1), of p keep] that by (simp add: md_files_def)
  qed simp
  have "length (filter (\<lambda>p. fst p \<in> set (map fst ?V)) d) + length ?d' = length d"
    by (rule sum_length_filter_compl)
  moreover have "filter (\<lambda>p. fst p \<in> set (map fst ?V)) d = filter (\<lambda>p. p \<in> set ?V) (md_files d)"
    unfolding md_files_def filter_filter by (rule filter_cong [OF refl], rule nm)
  moreover have "length (filter (\<lambda>p. p \<in> set ?V) (md_files d)) = length ?V"
  proof -
    have "distinct (md_files d)" using assms(1) by (simp add: md_files_def distinct_map)
    then have "length (filter (\<lambda>p. p \<in> set ?V) (md_files d)) = card ({p. p \<in> set ?V} \<inter> set (md_files d))"
      by (rule distinct_length_filter)
    also have "{p. p \<in> set ?V} \<inter> set (md_files d) = set ?V" using set_victims [of keep d] by blast
    also have "card (set ?V) = length ?V"
      using distinct_victims [OF assms(1)] by (simp add: distinct_map distinct_card)
    finally show ?thesis .
  qed
  ultimately have "length ?V = length d - length ?d'" by simp
  then show ?thesis
    using clean_old_eq [OF assms(1)] length_group_after_clean [OF assms] frame by auto
qed

theorem clean_old_result_witness:
  "\<exists>d' n s. clean_old 1 example_dir = Inr (d', n, s) \<and>
     (\<forall>k. length (group_of k (md_files d')) = min (nat 1) (length (group_of k (md_files example_dir)))) \<and>
     set d' \<subseteq> set example_dir \<and> (\<forall>name. \<not> md_glob name \<longrightarrow> map_of d' name = map_of example_dir name) \<and>
     n = length example_dir - length d' \<and>
     s = sum_list (map (\<lambda>x. length (content (snd x))) (victims 1 example_dir))"
  by (rule clean_old_result) (simp_all add: example_dir_def)

text \<open>
  C12. Retention idempotence (spec, section 6): for \<open>keep_latest \<ge> 0\<close>, running
  \<^verbatim>\<open>clean_old\<close> again on the directory it left deletes nothing and reports zero
  files and zero bytes.
\<close>

theorem clean_old_idempotent:
  assumes "distinct (map fst d)" and "0 \<le> keep" and "clean_old keep d = Inr (d', n, s)"
  shows "clean_old keep d' = Inr (d', 0, 0)"
proof -
  have d': "d' = filter (\<lambda>p. fst p \<notin> set (map fst (victims keep d))) d"
    using clean_old_Inr_dir [OF assms(1,3)] .
  have "distinct (map fst d')" using assms(1) by (simp add: d' distinct_map_filter)
  moreover have "victims keep d' = []"
    using length_group_after_clean [OF assms(1,2)] assms(2) by (intro victims_none_left) (simp_all add: d')
  ultimately show ?thesis by (simp add: clean_old_eq)
qed

theorem clean_old_idempotent_witness:
  "clean_old 1 [(''repo1_v2_1k.md'', \<lparr>content = [3], mtime = 200\<rparr>), (''notes.txt'', \<lparr>content = [], mtime = 50\<rparr>)] =
   Inr ([(''repo1_v2_1k.md'', \<lparr>content = [3], mtime = 200\<rparr>), (''notes.txt'', \<lparr>content = [], mtime = 50\<rparr>)], 0, 0)"
  by (rule clean_old_idempotent [OF _ _ clean_example_eval]) (simp_all add: example_dir_def)

text \<open>
  C4. The cleaner keeps the newest files: whenever, within one group, a file
  survives and another is deleted, the deleted one was modified no later than
  the surviving one. This holds for every \<open>keep_latest\<close>, negative ones included.
\<close>

theorem clean_old_keeps_newest:
  assumes "distinct (map fst d)" and "clean_old keep d = Inr (d', n, s)"
    and "x \<in> set (md_files d)" and "y \<in> set (md_files d)" and "file_key x = file_key y"
    and "x \<in> set d'" and "y \<notin> set d'"
  shows "mtime (snd y) \<le> mtime (snd x)"
proof -
  define S where "S = by_mtime_desc (group_of (file_key y) (md_files d))"
  obtain m where m: "kept_out keep (file_key y) d = drop m S"
    using py_slice_from_is_drop S_def by metis
  have d': "d' = filter (\<lambda>p. fst p \<notin> set (map fst (victims keep d))) d"
    using clean_old_Inr_dir [OF assms(1,2)] .
  have xd: "x \<in> set d" and yd: "y \<in> set d" using assms(3,4) by (simp_all add: md_files_def)
  have "y \<in> set (victims keep d)"
    using assms(7) yd victim_name_iff [OF assms(1,4)] by (simp add: d')
  then have y: "y \<in> set (drop m S)" using victim_group_iff [of y] m by simp
  have "x \<notin> set (victims keep d)"
    using assms(6) victim_name_iff [OF assms(1,3)] by (simp add: d')
  then have "x \<notin> set (drop m S)" using victim_group_iff [of x] m assms(5) by simp
  moreover have "x \<in> set S" using assms(3,5) by (simp add: S_def by_mtime_desc_def)
  ultimately have x: "x \<in> set (take m S)" by (metis append_take_drop_id Un_iff set_append)
  have "sorted (map (\<lambda>f. - mtime (snd f)) S)" by (simp add: S_def by_mtime_desc_def)
  from sorted_take_drop [OF this x y] show ?thesis by simp
qed

theorem clean_old_keeps_newest_witness:
  "mtime (snd (''repo1_v1_1k.md'', \<lparr>content = [1, 2], mtime = 100\<rparr>)) \<le>
   mtime (snd (''repo1_v2_1k.md'', \<lparr>content = [3], mtime = 200::int\<rparr>))"
  by (rule clean_old_keeps_newest [OF _ clean_example_eval])
     (simp_all add: example_dir_def md_files_def md_glob_def py_endswith_def file_key_def path_stem_def py_rfind_def)

text \<open>
  C30. A negative \<^verbatim>\<open>--keep\<close> is accepted and deletes the oldest files instead
  of keeping the newest: with \<^verbatim>\<open>keep_latest = -m\<close>, \<^verbatim>\<open>files[-m:]\<close> is the
  \<open>m\<close> oldest files of each group, so every run removes \<open>m\<close> more artifacts
  per repository (all of them when fewer are left) and repeated runs empty
  the directory of artifacts.
\<close>

theorem clean_old_negative_keep:
  assumes "distinct (map fst d)" and "keep < 0"
  shows "\<exists>d' n s. clean_old keep d = Inr (d', n, s) \<and>
           (\<forall>k. length (group_of k (md_files d')) = length (group_of k (md_files d)) - nat (- keep))"
  using clean_old_eq [OF assms(1)] length_group_after_clean_neg [OF assms] by simp

theorem clean_old_negative_keep_witness:
  "\<exists>d' n s. clean_old (-1) example_dir = Inr (d', n, s) \<and>
     (\<forall>k. length (group_of k (md_files d')) = length (group_of k (md_files example_dir)) - nat (- (-1)))"
  by (rule clean_old_negative_keep) (simp_all add: example_dir_def)

text \<open>
  C31. The group key is the text before the first underscore, so a repository
  whose name extends another's by \<^verbatim>\<open>_...\<close> shares its group: with
  \<^verbatim>\<open>keep_latest = 1\<close>, an artifact of repository \<open>a\<close> is deleted as soon as
  repository \<open>a_b\<close> has a newer artifact, even when it is \<open>a\<close>'s only one.
\<close>

theorem clean_old_underscore_groups:
  assumes "distinct (map fst d)" and "clean_old 1 d = Inr (d', n, s)"
    and "(final_name a v h, fx) \<in> set d" and "(final_name (a @ ''_'' @ b) v' h', fy) \<in> set d"
    and "CHR ''_'' \<notin> set a" and "mtime fx < mtime fy"
  shows "(final_name a v h, fx) \<notin> set d'"
proof -
  have key: "file_key (final_name (a @ ''_'' @ b) v' h', fy) = file_key (final_name a v h, fx)"
    using assms(5) by (simp add: file_key_final_name takeWhile_append takeWhile_self)
  have "(final_name a v h, fx) \<in> set (victims 1 d)"
    using assms(3,4,6) key md_glob_final_name
    by (intro older_victim_keep_one [of _ _ "(final_name (a @ ''_'' @ b) v' h', fy)"]) (simp_all add: md_files_def)
  then show ?thesis using clean_old_Inr_dir [OF assms(1,2)] by force
qed

theorem clean_old_underscore_groups_witness:
  "(final_name ''my'' ''latest'' ''2k'', \<lparr>content = [7], mtime = 100\<rparr>) \<notin>
     set [(''my_repo_latest_1k.md'', \<lparr>content = [8, 9], mtime = 200::int\<rparr>)]"
proof -
  have e: "clean_old 1 [(final_name ''my'' ''latest'' ''2k'', \<lparr>content = [7], mtime = 100\<rparr>),
                (final_name (''my'' @ ''_'' @ ''repo'') ''latest'' ''1k'', \<lparr>content = [8, 9], mtime = 200\<rparr>)] =
     Inr ([(''my_repo_latest_1k.md'', \<lparr>content = [8, 9], mtime = 200\<rparr>)], 1, 1)"
    by (simp add: clean_eval final_name_def)
  show ?thesis
    by (rule clean_old_underscore_groups [OF _ e, where b = "''repo''" and v' = "''latest''" and h' = "''1k''"
          and fy = "\<lparr>content = [8, 9], mtime = 200\<rparr>"])
       (simp_all add: final_name_def)
qed

end
