(* ===== verification/Listing.thy ===== *)
theory Listing
  imports Clean Ingest "HOL-Library.Char_ord" "HOL-Library.List_Lexorder"
begin

text \<open>
  \<^verbatim>\<open>GitIngestManager.list_ingested\<close> (lines 292--306): the report of the
  \<^verbatim>\<open>*.md\<close> files of the output directory in ascending order of name, each with
  its size in MiB (\<^verbatim>\<open>st_size / (1024 * 1024)\<close>, a double, printed with
  \<^verbatim>\<open>:.2f\<close>), its size in bytes with thousands separators (\<^verbatim>\<open>:,\<close>) and its local
  modification time. The printed lines are the result, with the exception that
  interrupts the loop, if any. Python's \<open>int / int\<close> is the double nearest to
  the quotient; since the divisor is \<open>2^20\<close> this is the size rounded to 53
  significant bits and scaled, and the \<^verbatim>\<open>.2f\<close> rounding of its exact value is
  again to nearest, ties to even. The lemmas show that the byte count reads
  back as the size, that the MiB figure is within half a hundredth of the
  exact quotient, and what the report is when no exception occurs.
\<close>
section \<open>Number formatting\<close>

text \<open>\<^verbatim>\<open>f"{n:,}"\<close> for \<open>n \<ge> 0\<close>: groups of three digits from the right.\<close>

fun fmt_thousands :: "nat \<Rightarrow> string" where
  "fmt_thousands n =
     (if n < 1000 then str_nat n else fmt_thousands (n div 1000) @ CHR '','' # pad0 3 (str_nat (n mod 1000)))"

declare fmt_thousands.simps [simp del]

text \<open>The double nearest to a natural number: exact below \<open>2^53\<close>, else 53 significant bits.\<close>

definition double_nearest :: "nat \<Rightarrow> nat" where
  "double_nearest n =
     (if n < 2 ^ 53 then n
      else (let k = floor_log2 n - 52 in round_half_even n (2 ^ k) * 2 ^ k))"

text \<open>
  \<^verbatim>\<open>stat.st_size / (1024 * 1024)\<close> formatted with \<^verbatim>\<open>:.2f\<close>: one hundred times
  the double, rounded to an integer.
\<close>

definition hundredths :: "nat \<Rightarrow> nat" where
  "hundredths s = round_half_even (100 * double_nearest s) (2 ^ 20)"

definition fmt_fixed2 :: "nat \<Rightarrow> string" where
  "fmt_fixed2 h = str_nat (h div 100) @ ''.'' @ pad0 2 (str_nat (h mod 100))"

text \<open>\<^verbatim>\<open>strftime('%Y-%m-%d %H:%M:%S')\<close>, for four-digit years.\<close>

definition datetime_str :: "clock \<Rightarrow> string" where
  "datetime_str c =
     pad0 4 (str_nat (year c)) @ ''-'' @ pad0 2 (str_nat (month c)) @ ''-'' @ pad0 2 (str_nat (day c)) @ '' '' @
     pad0 2 (str_nat (hour c)) @ '':'' @ pad0 2 (str_nat (minute c)) @ '':'' @ pad0 2 (str_nat (second c))"

section \<open>The report (lines 292--306)\<close>

definition size_line :: "nat \<Rightarrow> string" where
  "size_line s = ''  Size: '' @ fmt_fixed2 (hundredths s) @ '' MB ('' @ fmt_thousands s @ '' bytes)''"

text \<open>
  One iteration of the loop (lines 302--306): the division raises
  \<^verbatim>\<open>OverflowError\<close> when the quotient is not below \<open>2^1024\<close>, before anything is
  printed (so the byte count printed with \<^verbatim>\<open>:,\<close> has far fewer than the 4300
  digits at which \<^verbatim>\<open>format\<close> would raise); \<^verbatim>\<open>datetime.fromtimestamp\<close> may raise after the name and the size
  are printed.
\<close>

definition list_entry :: "env \<Rightarrow> string \<times> file_entry \<Rightarrow> py_exc option \<times> string list" where
  "list_entry env f =
     (let s = length (content (snd f))
      in if 2 ^ 1044 \<le> double_nearest s then (Some OverflowError, [])
         else
           (let lines = [''\<newline>'' @ fst f @ '':'', size_line s]
            in case localtime env (mtime (snd f)) of
                 Inl e \<Rightarrow> (Some e, lines)
               | Inr c \<Rightarrow> (None, lines @ [''  Modified: '' @ datetime_str c])))"

fun list_entries :: "env \<Rightarrow> dir \<Rightarrow> string list \<Rightarrow> py_exc option \<times> string list" where
  "list_entries env [] out = (None, out)"
| "list_entries env (f # fs) out =
     (case list_entry env f of
        (Some e, lines) \<Rightarrow> (Some e, out @ lines)
      | (None, lines) \<Rightarrow> list_entries env fs (out @ lines))"

text \<open>
  \<^verbatim>\<open>sorted(self.output_dir.glob("*.md"))\<close>: paths of one directory compare by
  name, and names by code point. The header prints the configured directory
  (taken to be written in the normal form \<^verbatim>\<open>str(Path(...))\<close> gives).
\<close>

definition list_header :: "config \<Rightarrow> string" where
  "list_header cfg = ''\<newline>=== Ingested Files in '' @ output_dir (settings cfg) @ '' ===''"

definition list_ingested :: "env \<Rightarrow> config \<Rightarrow> dir \<Rightarrow> py_exc option \<times> string list" where
  "list_ingested env cfg d =
     (let files = sort_key fst (md_files d)
      in if files = [] then (None, [list_header cfg, ''No ingested files found.''])
         else list_entries env files [list_header cfg])"

section \<open>The report when nothing fails\<close>

text \<open>The three lines printed for one file, and the condition under which they are all printed.\<close>

definition entry_lines :: "env \<Rightarrow> string \<times> file_entry \<Rightarrow> string list" where
  "entry_lines env f =
     [''\<newline>'' @ fst f @ '':'', size_line (length (content (snd f))),
      ''  Modified: '' @ datetime_str (projr (localtime env (mtime (snd f))))]"

definition entry_ok :: "env \<Rightarrow> string \<times> file_entry \<Rightarrow> bool" where
  "entry_ok env f =
     ((case localtime env (mtime (snd f)) of Inl e \<Rightarrow> False | Inr c \<Rightarrow> True) \<and> length (content (snd f)) < 2 ^ 53)"

section \<open>An example directory\<close>

definition example_listing_dir :: dir where
  "example_listing_dir =
     [(''b_1.md'', \<lparr>content = replicate 3 0, mtime = 7\<rparr>), (''notes.txt'', \<lparr>content = [], mtime = 1\<rparr>),
      (''a_1.md'', \<lparr>content = [], mtime = 1\<rparr>)]"

section \<open>Properties of the report\<close>

lemma double_nearest_small: "n < 2 ^ 53 \<Longrightarrow> double_nearest n = n"
  by (simp add: double_nearest_def)

lemma list_entry_ok: "entry_ok env f \<Longrightarrow> list_entry env f = (None, entry_lines env f)"
proof -
  assume ok: "entry_ok env f"
  then obtain c where c: "localtime env (mtime (snd f)) = Inr c" by (auto simp: entry_ok_def split: sum.splits)
  have "length (content (snd f)) < (2::nat) ^ 1044"
    using ok less_le_trans [of _ "2 ^ 53" "2 ^ 1044 :: nat"] by (simp add: entry_ok_def)
  then show ?thesis using ok c by (simp add: list_entry_def entry_lines_def entry_ok_def double_nearest_small)
qed

lemma list_entries_ok:
  "list_all (entry_ok env) fs \<Longrightarrow> list_entries env fs out = (None, out @ concat (map (entry_lines env) fs))"
  by (induction fs arbitrary: out) (simp_all add: list_entry_ok)

lemma list_entry_error:
  "list_entry env f = (Some e, lines) \<Longrightarrow> e = OverflowError \<or> localtime env (mtime (snd f)) = Inl e"
  by (auto simp: list_entry_def Let_def split: if_splits sum.splits)

lemma list_entries_error:
  "fst (list_entries env fs out) = Some e \<Longrightarrow>
   \<exists>f \<in> set fs. e = OverflowError \<or> localtime env (mtime (snd f)) = Inl e"
proof (induction fs arbitrary: out)
  case Nil
  then show ?case by simp
next
  case (Cons f fs)
  then show ?case
    by (cases "list_entry env f") (auto split: option.splits dest: list_entry_error)
qed

lemma sort_key_eq_Nil: "sort_key f xs = [] \<longleftrightarrow> xs = []"
  by (metis length_0_conv length_sort)

section \<open>Claims about the report\<close>

text \<open>
  C17. The MiB figure is correct to two decimals: for a file below \<open>2^53\<close>
  bytes the printed hundredths differ from \<open>100 * st_size / 2^20\<close> by at most
  one half.
\<close>

theorem hundredths_error:
  assumes "s < 2 ^ 53"
  shows "2 * \<bar>int (hundredths s) * 2 ^ 20 - 100 * int s\<bar> \<le> 2 ^ 20"
  using round_half_even_error [of "2 ^ 20" "100 * s"] assms
  by (simp add: hundredths_def double_nearest_small)

theorem hundredths_error_witness:
  "(1572869::nat) < 2 ^ 53 \<and> 2 * \<bar>int (hundredths 1572869) * 2 ^ 20 - 100 * int 1572869\<bar> \<le> 2 ^ 20"
  using hundredths_error [of 1572869] by simp

text \<open>
  C16. When every listed file has a local modification time and fits a double
  exactly, \<^verbatim>\<open>list-ingested\<close> prints the header and then, for the \<^verbatim>\<open>*.md\<close> files
  in ascending order of name, a block of name, size and modification time
  each, or \<^verbatim>\<open>No ingested files found.\<close> when there are none.
\<close>

theorem list_ingested_report:
  assumes "list_all (entry_ok env) (md_files d)"
  shows "list_ingested env cfg d =
           (None, list_header cfg #
              (if md_files d = [] then [''No ingested files found.'']
               else concat (map (entry_lines env) (sort_key fst (md_files d))))) \<and>
         sorted (map fst (sort_key fst (md_files d)))"
proof -
  have "list_all (entry_ok env) (sort_key fst (md_files d))"
    using assms by (simp add: list_all_iff)
  then show ?thesis by (simp add: list_ingested_def Let_def list_entries_ok sorted_sort_key sort_key_eq_Nil)
qed

theorem list_ingested_report_witness:
  "list_ingested example_env example_config example_listing_dir =
     (None, [list_header example_config,
             ''\<newline>a_1.md:'', size_line 0, ''  Modified: 2024-01-02 03:04:05'',
             ''\<newline>b_1.md:'', size_line 3, ''  Modified: 2024-01-02 03:04:05''])"
proof -
  have ok: "list_all (entry_ok example_env) (md_files example_listing_dir)"
    by (simp add: example_listing_dir_def md_files_def md_glob_def py_endswith_def entry_ok_def example_env_def)
  have "sort_key fst (md_files example_listing_dir) =
          [(''a_1.md'', \<lparr>content = [], mtime = 1\<rparr>), (''b_1.md'', \<lparr>content = replicate 3 0, mtime = 7\<rparr>)]"
    by code_simp
  then show ?thesis using list_ingested_report [OF ok, of example_config]
    by (simp add: example_listing_dir_def md_files_def md_glob_def py_endswith_def entry_lines_def example_env_def
        datetime_str_def pad0_def str_nat.simps py_simps)
qed

text \<open>
  C32. The report fails only by \<^verbatim>\<open>OverflowError\<close> of the size division or by an
  exception of the local-time conversion of a listed file.
\<close>

theorem list_ingested_error:
  assumes "fst (list_ingested env cfg d) = Some e"
  shows "e = OverflowError \<or> (\<exists>f \<in> set d. md_glob (fst f) \<and> localtime env (mtime (snd f)) = Inl e)"
proof -
  have "sort_key fst (md_files d) \<noteq> []" using assms by (auto simp: list_ingested_def)
  then have "fst (list_entries env (sort_key fst (md_files d)) [list_header cfg]) = Some e"
    using assms by (simp add: list_ingested_def)
  then obtain f where "f \<in> set (sort_key fst (md_files d))"
      and "e = OverflowError \<or> localtime env (mtime (snd f)) = Inl e"
    using list_entries_error by blast
  then show ?thesis by (force simp: md_files_def)
qed

theorem list_ingested_error_witness:
  "fst (list_ingested (example_env\<lparr>localtime := (\<lambda>t. Inl ValueError)\<rparr>) example_config
          [(''a_1.md'', \<lparr>content = [], mtime = 1\<rparr>)]) = Some ValueError \<and>
   (ValueError = OverflowError \<or>
    (\<exists>f \<in> set [(''a_1.md'', \<lparr>content = [], mtime = 1::int\<rparr>)].
       md_glob (fst f) \<and> localtime (example_env\<lparr>localtime := (\<lambda>t. Inl ValueError)\<rparr>) (mtime (snd f)) = Inl ValueError))"
proof -
  have "fst (list_ingested (example_env\<lparr>localtime := (\<lambda>t. Inl ValueError)\<rparr>) example_config
          [(''a_1.md'', \<lparr>content = [], mtime = 1\<rparr>)]) = Some ValueError"
    by (simp add: list_ingested_def md_files_def md_glob_def py_endswith_def list_entry_def double_nearest_def)
  then show ?thesis using list_ingested_error by blast
qed

end
