(* ===== verification/Cli.thy ===== *)
theory Cli
  imports Ingest Clean Listing
begin

text \<open>
  The command-line entry point \<^verbatim>\<open>main\<close> (lines 342--374) and the system it
  drives. The parsed \<^verbatim>\<open>argparse\<close> namespace is the record \<open>cli_args\<close> with the
  parser's defaults; one invocation is \<open>main_step\<close>, a function of the
  environment, the world and the arguments. The worlds reachable from a
  consistent start by any sequence of invocations are the inductive set
  \<open>reachable\<close>, and \<open>world_inv\<close> is an invariant of it: the output directory is a
  directory, the log stays a JSON list, and every metadata block of the
  configuration is recorded in the log.
\<close>

datatype command = Cmd_ingest | Cmd_list_repos | Cmd_list_profiles | Cmd_list_ingested | Cmd_clean

record cli_args =
  cli_command :: command
  cli_repo :: "string option"
  cli_profile :: string
  cli_version :: "string option"
  cli_keep :: int
  cli_config :: string

text \<open>The defaults of lines 347, 349 and 350; \<open>config_file\<close> of the world is the file \<open>cli_config\<close> names.\<close>

definition default_args :: "command \<Rightarrow> cli_args" where
  "default_args c =
     \<lparr>cli_command = c, cli_repo = None, cli_profile = ''standard'', cli_version = None, cli_keep = 3,
      cli_config = ''gitingest.yaml''\<rparr>"

section \<open>The listing commands\<close>

text \<open>
  They only print, but they subscript: \<^verbatim>\<open>repo_config['source']\<close> (line 274) and
  \<^verbatim>\<open>profile_config['description']\<close> (line 289) raise \<^verbatim>\<open>KeyError\<close> on an entry
  without that key.
  \<^verbatim>\<open>list-ingested\<close> raises what the report of \<open>Listing\<close> raises.
\<close>

definition list_repos :: "config \<Rightarrow> py_exc option" where
  "list_repos cfg = (if list_all (\<lambda>(r, rc). source rc \<noteq> None) (repositories cfg) then None else Some KeyError)"

definition list_profiles :: "config \<Rightarrow> py_exc option" where
  "list_profiles cfg =
     (if list_all (\<lambda>(p, pc). profile_description pc \<noteq> None) (profiles cfg) then None else Some KeyError)"

section \<open>Manager initialisation\<close>

text \<open>
  \<^verbatim>\<open>GitIngestManager.__init__\<close> (lines 19--26) with \<^verbatim>\<open>_load_config\<close>
  (lines 28--34): a configuration file that does not exist raises
  \<^verbatim>\<open>FileNotFoundError\<close>; then \<^verbatim>\<open>self.output_dir.mkdir(exist_ok=True)\<close> may
  raise; the counter path is \<open>counter_path\<close>, computed where it is used.
\<close>

definition manager_init :: "env \<Rightarrow> world \<Rightarrow> py_exc + config" where
  "manager_init env w =
     (case config_file w of
        None \<Rightarrow> Inl FileNotFoundError
      | Some cfg \<Rightarrow> (case mkdir env (output_dir (settings cfg)) of Some e \<Rightarrow> Inl e | None \<Rightarrow> Inr cfg))"

section \<open>\<^verbatim>\<open>main\<close>\<close>

text \<open>
  \<^verbatim>\<open>GitIngestManager(args.config)\<close> runs first: a missing configuration file
  raises \<^verbatim>\<open>FileNotFoundError\<close> before the command is looked at. \<^verbatim>\<open>ingest\<close>
  without a (non-empty) \<^verbatim>\<open>--repo\<close> exits with code 1.
\<close>

definition main_step :: "env \<Rightarrow> world \<Rightarrow> cli_args \<Rightarrow> outcome \<times> world" where
  "main_step env w a =
     (case manager_init env w of
        Inl e \<Rightarrow> (Raised e, w)
      | Inr cfg \<Rightarrow>
          (case cli_command a of
             Cmd_ingest \<Rightarrow>
               (case cli_repo a of
                  None \<Rightarrow> (Exit_code 1, w)
                | Some r \<Rightarrow> if r = [] then (Exit_code 1, w)
                            else ingest env cfg w r (cli_profile a) (cli_version a))
           | Cmd_list_repos \<Rightarrow> (case list_repos cfg of None \<Rightarrow> (Done, w) | Some e \<Rightarrow> (Raised e, w))
           | Cmd_list_profiles \<Rightarrow> (case list_profiles cfg of None \<Rightarrow> (Done, w) | Some e \<Rightarrow> (Raised e, w))
           | Cmd_list_ingested \<Rightarrow>
               (case fst (list_ingested env cfg (out_dir w)) of None \<Rightarrow> (Done, w) | Some e \<Rightarrow> (Raised e, w))
           | Cmd_clean \<Rightarrow>
               (case clean_old (cli_keep a) (out_dir w) of
                  Inl (e, d) \<Rightarrow> (Raised e, w\<lparr>out_dir := d\<rparr>)
                | Inr (d, removed, freed) \<Rightarrow> (Done, w\<lparr>out_dir := d\<rparr>))))"

section \<open>The invariant and the reachable worlds\<close>

definition log_ok :: "log_doc option \<Rightarrow> bool" where
  "log_ok lf = (case lf of None \<Rightarrow> True | Some (Log_ok es) \<Rightarrow> True | Some _ \<Rightarrow> False)"

definition metadata_logged :: "config \<Rightarrow> log_doc option \<Rightarrow> bool" where
  "metadata_logged cfg lf =
     list_all (\<lambda>(r, rc). case metadata rc of
                           None \<Rightarrow> True
                         | Some md \<Rightarrow> log_entry_of r (profile md) (last_file md) md \<in> set (prev_entries lf))
       (repositories cfg)"

definition world_inv :: "world \<Rightarrow> bool" where
  "world_inv w =
     (distinct (map fst (out_dir w)) \<and> log_ok (log_file w) \<and>
      (case config_file w of None \<Rightarrow> True | Some cfg \<Rightarrow> metadata_logged cfg (log_file w)))"

text \<open>
  A start: a configuration without metadata, a directory, a log that is absent
  or a list. Any invocation, with any outcome of the external collaborators,
  is a step.
\<close>

inductive reachable :: "world \<Rightarrow> bool" where
  start: "config_file w = Some cfg \<Longrightarrow> list_all (\<lambda>(r, rc). metadata rc = None) (repositories cfg) \<Longrightarrow>
          distinct (map fst (out_dir w)) \<Longrightarrow> log_ok (log_file w) \<Longrightarrow> reachable w"
| step: "reachable w \<Longrightarrow> main_step env w a = (res, w') \<Longrightarrow> reachable w'"

section \<open>Example arguments\<close>

definition example_args :: cli_args where
  "example_args = (default_args Cmd_ingest)\<lparr>cli_repo := Some ''repo1''\<rparr>"

section \<open>Each invocation preserves the invariant\<close>

lemma distinct_tool_output:
  "distinct (map fst d) \<Longrightarrow> distinct (map fst (tool_output env cmd tmp d))"
  by (simp add: tool_output_def distinct_update split: option.split)

lemma ingest_dir_distinct:
  assumes "distinct (map fst (out_dir w))" and "ingest env cfg w r p v = (res, w')"
  shows "distinct (map fst (out_dir w'))"
  using assms distinct_tool_output [OF assms(1)]
  by (auto simp: ingest_def finish_ingest_def Let_def distinct_delete distinct_rename_entry
      split: sum.splits proc_result.splits if_splits)

lemma ingest_unchanged_unless_done:
  assumes "log_ok (log_file w)" and "ingest env cfg w r p v = (res, w')" and "res \<noteq> Done"
  shows "config_file w' = config_file w \<and> log_file w' = log_file w"
  using assms
  by (auto simp: ingest_def finish_ingest_def Let_def save_ingestion_log_def log_ok_def
      split: sum.splits proc_result.splits if_splits option.splits log_doc.splits)

lemma set_update_subset: "set (AList.update k v al) \<subseteq> insert (k, v) (set al)"
  by (induction al) auto

lemma metadata_logged_mono:
  "metadata_logged cfg lf \<Longrightarrow> set (prev_entries lf) \<subseteq> set (prev_entries lf') \<Longrightarrow> metadata_logged cfg lf'"
  by (fastforce simp: metadata_logged_def list_all_iff split: option.splits)

lemma metadata_logged_set_metadata:
  assumes "metadata_logged cfg lf" and "set (prev_entries lf) \<subseteq> set (prev_entries lf')"
    and "log_entry_of r (profile md) (last_file md) md \<in> set (prev_entries lf')"
  shows "metadata_logged (set_metadata cfg r md) lf'"
proof -
  have "metadata_logged cfg lf'" using metadata_logged_mono [OF assms(1,2)] .
  then show ?thesis
    using assms(3) set_update_subset
    by (fastforce simp: metadata_logged_def set_metadata_def list_all_iff split: option.splits)
qed

lemma ingest_world_inv:
  assumes "world_inv w" and "config_file w = Some cfg" and "ingest env cfg w r p v = (res, w')"
  shows "world_inv w'"
proof (cases "res = Done")
  case True
  obtain cmd out err where
    fin: "finish_ingest env cfg (w\<lparr>out_dir := tool_output env cmd (ingest_tmp env r) (out_dir w)\<rparr>)
            r p v (timestamp (now env)) (ingest_tmp env r) = (Done, w')"
    using ingest_tool_ran [OF assms(3)] True by auto
  have "distinct (map fst (out_dir w'))"
    using ingest_dir_distinct assms(1,3) by (auto simp: world_inv_def)
  moreover have "metadata_logged cfg (log_file w)" using assms(1,2) by (simp add: world_inv_def)
  ultimately show ?thesis
    using finish_ingest_Done_records [OF fin]
    by (auto simp: world_inv_def log_ok_def prev_entries_def intro!: metadata_logged_set_metadata)
next
  case False
  then show ?thesis
    using assms ingest_unchanged_unless_done [of w env cfg r p v res w'] ingest_dir_distinct [of w env cfg r p v res w']
    by (simp add: world_inv_def)
qed

lemma clean_world_inv:
  assumes "world_inv w" and "clean_old keep (out_dir w) = Inr (d, removed, freed)"
  shows "world_inv (w\<lparr>out_dir := d\<rparr>)"
  using assms clean_old_Inr_dir [of "out_dir w" keep d removed freed]
  by (simp add: world_inv_def distinct_map_filter split: option.splits)

lemma main_step_world_inv:
  assumes "world_inv w" and "main_step env w a = (res, w')"
  shows "world_inv w'"
proof (cases "config_file w")
  case None
  then show ?thesis using assms by (auto simp: main_step_def manager_init_def split: if_splits)
next
  case (Some cfg)
  have "clean_old keep (out_dir w) = Inr (filter (\<lambda>p. fst p \<notin> set (map fst (victims keep (out_dir w)))) (out_dir w),
          length (victims keep (out_dir w)),
          sum_list (map (\<lambda>x. length (content (snd x))) (victims keep (out_dir w))))" for keep
    using assms(1) by (simp add: world_inv_def clean_old_eq)
  with Some assms show ?thesis
    by (auto simp: main_step_def manager_init_def ingest_world_inv clean_world_inv
        split: command.splits option.splits if_splits sum.splits)
qed

lemma ingest_Exit_code:
  "ingest env cfg w r p v = (Exit_code c, w') \<Longrightarrow>
   c = 1 \<and> (\<exists>cmd rc out err. build_gitingest_command cfg r (ingest_tpath env cfg r) p = Inr cmd \<and>
                            proc env cmd = Proc_done rc out err \<and> rc \<noteq> 0)"
  by (auto simp: ingest_def finish_ingest_def Let_def split: sum.splits proc_result.splits if_splits)

lemma set_rename_entry:
  "map_of d src = Some f \<Longrightarrow> y \<in> set (rename_entry src dst d) \<Longrightarrow> y = (dst, f) \<or> (y \<in> set d \<and> fst y \<noteq> src)"
  using set_update_subset [of dst f "AList.delete src d"] by (auto simp: rename_entry_def AList.delete_eq)

lemma tool_output_fresh:
  assumes "map_of d tmp = None" and "map_of (tool_output env cmd tmp d) tmp = Some f"
  shows "mtime f = epoch (now env) \<and> (\<forall>y \<in> set (tool_output env cmd tmp d). fst y \<noteq> tmp \<longrightarrow> y \<in> set d)"
  using assms by (auto simp: tool_output_def update_conv' split: option.splits dest!: set_update_subset [THEN subsetD])

lemma reachable_inv: "reachable w \<Longrightarrow> world_inv w"
proof (induction rule: reachable.induct)
  case (start w cfg)
  then show ?case by (simp add: world_inv_def metadata_logged_def list_all_iff split_def)
next
  case (step w env a res w')
  then show ?case using main_step_world_inv by blast
qed

lemma example_init: "manager_init example_env example_world = Inr example_config"
  by (simp add: manager_init_def example_env_def example_world_def)

lemma example_world_start: "reachable example_world"
  by (rule reachable.start [where cfg = example_config])
     (simp_all add: example_world_def example_config_def log_ok_def)

section \<open>Properties of the system\<close>

text \<open>
  C8. The invariant of every reachable world: after any sequence of
  invocations from a consistent start, whatever the tool, the counter, git and
  the network did, the output directory has distinct names, the log is a JSON
  list, and every repository's metadata block in the configuration has its
  record in the log.
\<close>

theorem reachable_world_inv: "reachable w \<Longrightarrow> world_inv w"
  by (rule reachable_inv)

theorem reachable_world_inv_witness:
  "world_inv (snd (main_step example_env example_world example_args))"
proof -
  have "main_step example_env example_world example_args =
        (fst (main_step example_env example_world example_args), snd (main_step example_env example_world example_args))"
    by simp
  then show ?thesis by (rule reachable_world_inv [OF reachable.step [OF example_world_start]])
qed

text \<open>
  C5. Exit codes: \<^verbatim>\<open>main\<close> exits with a code only with code 1, only for
  \<^verbatim>\<open>ingest\<close>, and only when \<^verbatim>\<open>--repo\<close> is missing or empty or the ingestion
  command ran and exited non-zero (spec, section 5). A missing configuration
  file raises \<^verbatim>\<open>FileNotFoundError\<close> for every command, before the arguments
  are checked.
\<close>

theorem main_step_exit_codes:
  "(main_step env w a = (Exit_code c, w') \<longrightarrow>
      c = 1 \<and> cli_command a = Cmd_ingest \<and>
      (cli_repo a = None \<or> cli_repo a = Some [] \<or>
       (\<exists>cfg r cmd rc out err. config_file w = Some cfg \<and> cli_repo a = Some r \<and>
          build_gitingest_command cfg r (ingest_tpath env cfg r) (cli_profile a) = Inr cmd \<and>
          proc env cmd = Proc_done rc out err \<and> rc \<noteq> 0))) \<and>
   (config_file w = None \<longrightarrow> main_step env w a = (Raised FileNotFoundError, w))"
  by (auto simp: main_step_def manager_init_def dest!: ingest_Exit_code
      split: option.splits command.splits if_splits sum.splits prod.splits)

theorem main_step_exit_codes_witness:
  "main_step example_env (example_world\<lparr>config_file := None\<rparr>) example_args =
     (Raised FileNotFoundError, example_world\<lparr>config_file := None\<rparr>) \<and>
   main_step example_env example_world (default_args Cmd_ingest) = (Exit_code 1, example_world)"
proof -
  have "main_step example_env example_world (default_args Cmd_ingest) = (Exit_code 1, example_world)"
    by (simp add: main_step_def example_init default_args_def)
  moreover have "cli_command (default_args Cmd_ingest) = Cmd_ingest" "cli_repo (default_args Cmd_ingest) = None"
    by (simp_all add: default_args_def)
  ultimately show ?thesis
    using main_step_exit_codes [of example_env "example_world\<lparr>config_file := None\<rparr>" example_args]
      main_step_exit_codes [of example_env example_world "default_args Cmd_ingest" 1 example_world]
    by simp
qed

text \<open>
  The three listing commands change nothing: the world after
  \<^verbatim>\<open>list-repos\<close>, \<^verbatim>\<open>list-profiles\<close> and \<^verbatim>\<open>list-ingested\<close> is the world before,
  whether they print or raise.
\<close>

theorem main_step_list_readonly:
  assumes "cli_command a \<in> {Cmd_list_repos, Cmd_list_profiles, Cmd_list_ingested}"
  shows "snd (main_step env w a) = w"
  using assms by (auto simp: main_step_def manager_init_def split: option.splits)

theorem main_step_list_readonly_witness:
  "snd (main_step example_env example_world (default_args Cmd_list_repos)) = example_world"
  by (rule main_step_list_readonly) (simp add: default_args_def)

text \<open>
  C9. Retention is always reachable: from every reachable world with a
  configuration that loads and whose output directory can be created, one
  invocation of \<^verbatim>\<open>clean --keep k\<close> with \<open>k \<ge> 0\<close> succeeds
  and leads to a reachable world in which no repository has more than \<open>k\<close>
  artifacts, whatever the earlier invocations and the external collaborators
  did.
\<close>

theorem clean_reaches_bounded:
  assumes "reachable w" and "0 \<le> k" and "manager_init env w = Inr cfg"
  shows "\<exists>w'. main_step env w ((default_args Cmd_clean)\<lparr>cli_keep := k\<rparr>) = (Done, w') \<and> reachable w' \<and>
           (\<forall>key. length (group_of key (md_files (out_dir w'))) \<le> nat k)"
proof -
  let ?d = "out_dir w"
  let ?d' = "filter (\<lambda>p. fst p \<notin> set (map fst (victims k ?d))) ?d"
  have dist: "distinct (map fst ?d)" using reachable_inv [OF assms(1)] by (simp add: world_inv_def)
  have run: "main_step env w ((default_args Cmd_clean)\<lparr>cli_keep := k\<rparr>) = (Done, w\<lparr>out_dir := ?d'\<rparr>)"
    using assms(3) clean_old_eq [OF dist, of k] by (simp add: main_step_def default_args_def)
  have "reachable (w\<lparr>out_dir := ?d'\<rparr>)" by (rule reachable.step [OF assms(1) run])
  moreover have "\<forall>key. length (group_of key (md_files ?d')) \<le> nat k"
    using length_group_after_clean [OF dist assms(2)] by simp
  ultimately show ?thesis using run by auto
qed

theorem clean_reaches_bounded_witness:
  "reachable example_world \<and> (0::int) \<le> 1 \<and> manager_init example_env example_world = Inr example_config \<and>
   (\<exists>w'. main_step example_env example_world ((default_args Cmd_clean)\<lparr>cli_keep := 1\<rparr>) = (Done, w') \<and>
      reachable w' \<and> (\<forall>key. length (group_of key (md_files (out_dir w'))) \<le> nat 1))"
  using clean_reaches_bounded [OF example_world_start _ example_init, of 1] example_world_start example_init
  by simp

text \<open>
  C10. Ingestion and retention compose: after a successful ingestion whose
  temporary name was free and whose clock is ahead of every file already in
  the output directory, \<^verbatim>\<open>clean --keep k\<close> with \<open>k \<ge> 1\<close> succeeds and keeps the
  artifact just produced, whatever else its group holds.
\<close>

theorem ingest_then_clean_keeps:
  assumes ing: "ingest env cfg w r p v = (Done, w1)" and dist: "distinct (map fst (out_dir w))"
    and fresh: "map_of (out_dir w) (ingest_tmp env r) = None"
    and old: "\<forall>y \<in> set (out_dir w). mtime (snd y) < epoch (now env)" and k: "1 \<le> k"
  shows "\<exists>ver human tokens d2 n s. resolve_version env cfg r v = Inr ver \<and> format_token_count tokens = Inr human \<and>
           map_of (out_dir w1) (final_name r ver human) \<noteq> None \<and> clean_old k (out_dir w1) = Inr (d2, n, s) \<and>
           map_of d2 (final_name r ver human) = map_of (out_dir w1) (final_name r ver human)"
proof -
  let ?tmp = "ingest_tmp env r"
  obtain cmd out err where fin: "finish_ingest env cfg (w\<lparr>out_dir := tool_output env cmd ?tmp (out_dir w)\<rparr>)
      r p v (timestamp (now env)) ?tmp = (Done, w1)"
    using ingest_tool_ran [OF ing] by auto
  then obtain tokens chars files ver human f where f: "map_of (tool_output env cmd ?tmp (out_dir w)) ?tmp = Some f"
      and ver: "resolve_version env cfg r v = Inr ver" and hum: "format_token_count tokens = Inr human"
      and d1: "out_dir w1 = rename_entry ?tmp (final_name r ver human) (tool_output env cmd ?tmp (out_dir w))"
    using finish_ingest_Done [OF fin] by (auto simp: Let_def)
  let ?n = "final_name r ver human"
  let ?d = "out_dir w1"
  have dd: "distinct (map fst ?d)" unfolding d1 by (intro distinct_rename_entry distinct_tool_output dist)
  have mf: "map_of ?d ?n = Some f" using f by (simp add: d1 map_of_rename_entry)
  have x: "(?n, f) \<in> set (md_files ?d)"
    using map_of_SomeD [OF mf] md_glob_final_name by (simp add: md_files_def)
  have tf: "mtime f = epoch (now env)"
    and tw: "\<forall>y \<in> set (tool_output env cmd ?tmp (out_dir w)). fst y \<noteq> ?tmp \<longrightarrow> y \<in> set (out_dir w)"
    using tool_output_fresh [OF fresh f] by auto
  have "\<forall>y \<in> set (md_files ?d). y \<noteq> (?n, f) \<longrightarrow> mtime (snd y) < mtime (snd (?n, f))"
  proof (intro ballI impI)
    fix y assume "y \<in> set (md_files ?d)" and "y \<noteq> (?n, f)"
    then have "y \<in> set (out_dir w)"
      using set_rename_entry [OF f, of y ?n] tw by (auto simp: md_files_def d1)
    then show "mtime (snd y) < mtime (snd (?n, f))" using old tf by simp
  qed
  then have "(?n, f) \<notin> set (victims k ?d)" using newest_not_victim [OF dd k x] by blast
  then have "?n \<notin> set (map fst (victims k ?d))" using victim_name_iff [OF dd x] by simp
  then show ?thesis
    using ver hum mf clean_old_eq [OF dd, of k] map_of_filter_fst [of ?n _ ?d] by auto
qed

theorem ingest_then_clean_keeps_witness:
  "ingest example_env example_config example_world ''repo1'' ''standard'' None =
     (Done, snd (ingest example_env example_config example_world ''repo1'' ''standard'' None)) \<and>
   (\<exists>ver human tokens d2 n s. resolve_version example_env example_config ''repo1'' None = Inr ver \<and>
      format_token_count tokens = Inr human \<and>
      map_of (out_dir (snd (ingest example_env example_config example_world ''repo1'' ''standard'' None)))
        (final_name ''repo1'' ver human) \<noteq> None \<and>
      clean_old 1 (out_dir (snd (ingest example_env example_config example_world ''repo1'' ''standard'' None))) =
        Inr (d2, n, s) \<and>
      map_of d2 (final_name ''repo1'' ver human) =
        map_of (out_dir (snd (ingest example_env example_config example_world ''repo1'' ''standard'' None)))
          (final_name ''repo1'' ver human))"
proof -
  have e: "out_dir example_world = []" by (simp add: example_world_def)
  show ?thesis
    using ingest_then_clean_keeps [OF example_run_snd, of 1] example_run_snd by (simp add: e)
qed

end
