(* ===== verification/Argparse.thy ===== *)
theory Argparse
  imports Cli
begin

text \<open>
  The command line of \<^verbatim>\<open>main\<close> (lines 343--352): the parser built there,
  applied by \<^verbatim>\<open>parser.parse_args()\<close> to the argument vector, as CPython's
  \<^verbatim>\<open>argparse\<close> (version 3.11) does it for exactly this parser: one positional
  \<^verbatim>\<open>command\<close> with five choices, the store options \<^verbatim>\<open>--repo/-r\<close>,
  \<^verbatim>\<open>--profile/-p\<close>, \<^verbatim>\<open>--version/-v\<close>, \<^verbatim>\<open>--config/-c\<close>, \<^verbatim>\<open>--keep/-k\<close>
  (\<^verbatim>\<open>type=int\<close>) and the automatic \<^verbatim>\<open>-h/--help\<close>. The arguments are first
  classified (\<^verbatim>\<open>_parse_optional\<close>: an option, possibly abbreviated or with
  an attached value, or an argument; everything after \<^verbatim>\<open>--\<close> is an
  argument), then consumed from left to right (\<^verbatim>\<open>consume_optional\<close>,
  \<^verbatim>\<open>consume_positionals\<close>). Every \<^verbatim>\<open>ArgumentError\<close> and \<^verbatim>\<open>parser.error\<close>
  exits with status 2, \<^verbatim>\<open>--help\<close> with status 0.
\<close>

section \<open>The options of the parser\<close>

datatype opt_action = A_help | A_repo | A_profile | A_version | A_config | A_keep

text \<open>\<^verbatim>\<open>parser._option_string_actions\<close>, in the order the options were added.\<close>

definition option_strings :: "(string \<times> opt_action) list" where
  "option_strings =
     [(''-h'', A_help), (''--help'', A_help), (''--repo'', A_repo), (''-r'', A_repo),
      (''--profile'', A_profile), (''-p'', A_profile), (''--version'', A_version), (''-v'', A_version),
      (''--config'', A_config), (''-c'', A_config), (''--keep'', A_keep), (''-k'', A_keep)]"

text \<open>\<^verbatim>\<open>choices=[...]\<close> of the positional (line 344).\<close>

definition command_of :: "string \<Rightarrow> command option" where
  "command_of s =
     map_of [(''ingest'', Cmd_ingest), (''list-repos'', Cmd_list_repos), (''list-profiles'', Cmd_list_profiles),
             (''list-ingested'', Cmd_list_ingested), (''clean'', Cmd_clean)] s"

text \<open>\<^verbatim>\<open>nargs\<close>: help takes no argument, the store options one.\<close>

definition arg_count :: "opt_action \<Rightarrow> nat" where
  "arg_count a = (if a = A_help then 0 else 1)"

section \<open>Classification (\<^verbatim>\<open>_parse_optional\<close>)\<close>

text \<open>
  A classified argument string: the separator \<^verbatim>\<open>--\<close>, an argument, or an
  option with its action (\<open>None\<close> for an unknown option), the option string,
  and the attached value with whether it was attached by \<^verbatim>\<open>=\<close>.
\<close>

datatype tok = T_sep | T_arg string | T_opt "opt_action option" string "(bool \<times> string) option"

text \<open>\<^verbatim>\<open>^-\d+$|^-\d*\.\d+$\<close>; \<^verbatim>\<open>$\<close> also matches before a final newline.\<close>

definition all_digits :: "string \<Rightarrow> bool" where
  "all_digits s = list_all (\<lambda>c. digit_val c \<noteq> None) s"

definition negative_number :: "string \<Rightarrow> bool" where
  "negative_number s =
     (case s of
        [] \<Rightarrow> False
      | c # r \<Rightarrow>
          c = CHR ''-'' \<and>
          (let r' = (if r \<noteq> [] \<and> last r = CHR ''\<newline>'' then butlast r else r)
           in (r' \<noteq> [] \<and> all_digits r') \<or>
              (let a = takeWhile (\<lambda>c. c \<noteq> CHR ''.'') r'; b = dropWhile (\<lambda>c. c \<noteq> CHR ''.'') r'
               in b \<noteq> [] \<and> tl b \<noteq> [] \<and> all_digits a \<and> all_digits (tl b))))"

text \<open>\<^verbatim>\<open>_get_option_tuples\<close> with \<^verbatim>\<open>allow_abbrev\<close>: a long prefix, or a short option with its value attached.\<close>

definition option_tuples :: "string \<Rightarrow> (opt_action \<times> string \<times> (bool \<times> string) option) list" where
  "option_tuples s =
     (if s ! 1 = CHR ''-'' then
        (let prefix = takeWhile (\<lambda>c. c \<noteq> CHR ''='') s;
             ex = (if CHR ''='' \<in> set s then Some (True, tl (dropWhile (\<lambda>c. c \<noteq> CHR ''='') s)) else None)
         in map (\<lambda>(os, a). (a, os, ex)) (filter (\<lambda>(os, a). starts_with os prefix) option_strings))
      else
        concat (map (\<lambda>(os, a). if os = take 2 s then [(a, os, Some (False, drop 2 s))]
                               else if starts_with os s then [(a, os, None)] else [])
                  option_strings))"

text \<open>\<open>None\<close>: an argument; \<open>Some (Inl ())\<close>: an ambiguous abbreviation (\<^verbatim>\<open>parser.error\<close>).\<close>

definition parse_optional :: "string \<Rightarrow> (unit + tok) option" where
  "parse_optional s =
     (if s = [] \<or> hd s \<noteq> CHR ''-'' then None
      else case map_of option_strings s of
        Some a \<Rightarrow> Some (Inr (T_opt (Some a) s None))
      | None \<Rightarrow>
          if length s = 1 then None
          else
            (let os = takeWhile (\<lambda>c. c \<noteq> CHR ''='') s
             in case (if CHR ''='' \<in> set s then map_of option_strings os else None) of
                  Some a \<Rightarrow> Some (Inr (T_opt (Some a) os (Some (True, tl (dropWhile (\<lambda>c. c \<noteq> CHR ''='') s)))))
                | None \<Rightarrow>
                    (case option_tuples s of
                       [(a, os', ex)] \<Rightarrow> Some (Inr (T_opt (Some a) os' ex))
                     | [] \<Rightarrow>
                         if negative_number s then None
                         else if CHR '' '' \<in> set s then None
                         else Some (Inr (T_opt None s None))
                     | _ \<Rightarrow> Some (Inl ()))))"

fun classify :: "string list \<Rightarrow> unit + tok list" where
  "classify [] = Inr []"
| "classify (s # ss) =
     (if s = ''--'' then Inr (T_sep # map T_arg ss)
      else case parse_optional s of
        None \<Rightarrow> map_sum id (Cons (T_arg s)) (classify ss)
      | Some (Inl u) \<Rightarrow> Inl u
      | Some (Inr t) \<Rightarrow> map_sum id (Cons t) (classify ss))"

section \<open>Consumption (\<^verbatim>\<open>_parse_known_args\<close>)\<close>

text \<open>
  The loop of \<^verbatim>\<open>consume_optional\<close> for the option at hand: the actions it
  collects with their argument strings, how many of the following strings it
  takes, and the string it leaves to the extras. \<open>Inl 2\<close> is an
  \<^verbatim>\<open>ArgumentError\<close> (a missing argument, an ignored explicit argument).
  Single-dash flags without argument may be followed by more flags in the
  same string (\<^verbatim>\<open>-hx\<close>).
\<close>

type_synonym opt_result = "(opt_action \<times> string list) list \<times> nat \<times> string list"

function opt_loop ::
  "opt_action option \<Rightarrow> string \<Rightarrow> (bool \<times> string) option \<Rightarrow> tok list \<Rightarrow> (opt_action \<times> string list) list \<Rightarrow>
   int + opt_result" where
  "opt_loop None os ex rest acc = Inr (acc, 0, [os])"
| "opt_loop (Some a) os None rest acc =
     (if arg_count a = 0 then Inr (acc @ [(a, [])], 0, [])
      else case rest of T_arg y # _ \<Rightarrow> Inr (acc @ [(a, [y])], 1, []) | _ \<Rightarrow> Inl 2)"
| "opt_loop (Some a) os (Some (eq, x)) rest acc =
     (if arg_count a = 0 \<and> os ! 1 \<noteq> CHR ''-'' \<and> x \<noteq> [] then
        (if eq \<or> hd x = CHR ''-'' then Inl 2
         else
           (let acc' = acc @ [(a, [])]; os' = [hd os, hd x]; x' = tl x
            in case map_of option_strings os' of
                 None \<Rightarrow> Inr (acc', 0, [hd os # x])
               | Some a' \<Rightarrow>
                   if x' = [] then opt_loop (Some a') os' None rest acc'
                   else if hd x' = CHR ''='' then opt_loop (Some a') os' (Some (True, tl x')) rest acc'
                   else opt_loop (Some a') os' (Some (False, x')) rest acc'))
      else if arg_count a = 1 then Inr (acc @ [(a, [x])], 0, [])
      else Inl 2)"
  by pat_completeness auto

termination opt_loop
  by (relation "measure (\<lambda>(a, os, ex, rest, acc). case ex of None \<Rightarrow> 0 | Some (e, x) \<Rightarrow> Suc (length x))")
     (auto simp: length_greater_0_conv)

text \<open>
  \<^verbatim>\<open>take_action\<close> on the collected actions in order: help prints and exits
  with 0; a store action converts its string (\<^verbatim>\<open>int()\<close> for \<^verbatim>\<open>--keep\<close>,
  whose \<^verbatim>\<open>ValueError\<close> is an \<^verbatim>\<open>ArgumentError\<close>) and sets the attribute.
\<close>

fun take_actions :: "(opt_action \<times> string list) list \<Rightarrow> cli_args \<Rightarrow> int + cli_args" where
  "take_actions [] ns = Inr ns"
| "take_actions ((A_help, vs) # acts) ns = Inl 0"
| "take_actions ((A_repo, vs) # acts) ns = take_actions acts (ns\<lparr>cli_repo := Some (hd vs)\<rparr>)"
| "take_actions ((A_profile, vs) # acts) ns = take_actions acts (ns\<lparr>cli_profile := hd vs\<rparr>)"
| "take_actions ((A_version, vs) # acts) ns = take_actions acts (ns\<lparr>cli_version := Some (hd vs)\<rparr>)"
| "take_actions ((A_config, vs) # acts) ns = take_actions acts (ns\<lparr>cli_config := hd vs\<rparr>)"
| "take_actions ((A_keep, vs) # acts) ns =
     (case py_int (hd vs) of None \<Rightarrow> Inl 2 | Some k \<Rightarrow> take_actions acts (ns\<lparr>cli_keep := k\<rparr>))"

text \<open>
  \<^verbatim>\<open>consume_positionals\<close>: the pattern \<^verbatim>\<open>-*A-*\<close> of the positional at the
  current string, as (separators before, argument, separators after, rest).
\<close>

definition is_sep :: "tok \<Rightarrow> bool" where
  "is_sep t = (t = T_sep)"

definition positional_match :: "tok list \<Rightarrow> (nat \<times> string \<times> nat \<times> tok list) option" where
  "positional_match ts =
     (case dropWhile is_sep ts of
        T_arg a # r \<Rightarrow> Some (length (takeWhile is_sep ts), a, length (takeWhile is_sep r), dropWhile is_sep r)
      | _ \<Rightarrow> None)"

text \<open>
  \<^verbatim>\<open>_get_values\<close> of the positional: the first \<^verbatim>\<open>--\<close> is removed; a single
  string must be one of the choices. A longer list still holds a
  \<^verbatim>\<open>--\<close>, which is no choice, so \<^verbatim>\<open>_check_value\<close> raises for it as well.
\<close>

definition positional_value :: "nat \<Rightarrow> string \<Rightarrow> nat \<Rightarrow> command option" where
  "positional_value l a t =
     (case remove1 ''--'' (replicate l ''--'' @ [a] @ replicate t ''--'') of
        [x] \<Rightarrow> command_of x
      | _ \<Rightarrow> None)"

text \<open>
  The consumption loop from left to right, with the positional still to be
  parsed or not, the namespace, and whether there are extras. A string that is
  neither consumed as the positional nor as an option argument is an extra.
  At the end a missing \<^verbatim>\<open>command\<close> is an error (\<^verbatim>\<open>the following arguments are
  required\<close>), and so are extras (\<^verbatim>\<open>unrecognized arguments\<close>).
\<close>

function scan :: "bool \<Rightarrow> cli_args \<Rightarrow> bool \<Rightarrow> tok list \<Rightarrow> int + cli_args" where
  "scan pend ns ex [] = (if pend \<or> ex then Inl 2 else Inr ns)"
| "scan pend ns ex (T_opt a os e # ts) =
     (case opt_loop a os e ts [] of
        Inl c \<Rightarrow> Inl c
      | Inr (acts, n, extra) \<Rightarrow>
          (case take_actions acts ns of
             Inl c \<Rightarrow> Inl c
           | Inr ns' \<Rightarrow> scan pend ns' (ex \<or> extra \<noteq> []) (drop n ts)))"
| "scan pend ns ex (T_sep # ts) =
     (case (if pend then positional_match (T_sep # ts) else None) of
        None \<Rightarrow> scan pend ns True ts
      | Some (l, a, t, r) \<Rightarrow>
          (case positional_value l a t of None \<Rightarrow> Inl 2 | Some c \<Rightarrow> scan False (ns\<lparr>cli_command := c\<rparr>) ex r))"
| "scan pend ns ex (T_arg s # ts) =
     (case (if pend then positional_match (T_arg s # ts) else None) of
        None \<Rightarrow> scan pend ns True ts
      | Some (l, a, t, r) \<Rightarrow>
          (case positional_value l a t of None \<Rightarrow> Inl 2 | Some c \<Rightarrow> scan False (ns\<lparr>cli_command := c\<rparr>) ex r))"
  by pat_completeness auto

lemma positional_match_shorter: "positional_match ts = Some (l, a, t, r) \<Longrightarrow> length r < length ts"
proof -
  assume m: "positional_match ts = Some (l, a, t, r)"
  then obtain r0 where d: "dropWhile is_sep ts = T_arg a # r0" and r: "r = dropWhile is_sep r0"
    by (auto simp: positional_match_def split: list.splits tok.splits)
  have "length r \<le> length r0" using r by (simp add: length_dropWhile_le)
  moreover have "length (dropWhile is_sep ts) \<le> length ts" by (rule length_dropWhile_le)
  ultimately show ?thesis using d by simp
qed

termination scan
  by (relation "measure (\<lambda>(pend, ns, ex, ts). length ts)")
     (auto dest!: positional_match_shorter split: if_splits)

text \<open>\<^verbatim>\<open>args = parser.parse_args()\<close> (line 352): exit status or namespace.\<close>

definition parse_args :: "string list \<Rightarrow> int + cli_args" where
  "parse_args argv =
     (case classify argv of
        Inl u \<Rightarrow> Inl 2
      | Inr ts \<Rightarrow> scan True (default_args Cmd_ingest) False ts)"

text \<open>\<^verbatim>\<open>main()\<close> from the argument vector: the parser's exit, or the invocation.\<close>

definition main_argv :: "env \<Rightarrow> world \<Rightarrow> string list \<Rightarrow> outcome \<times> world" where
  "main_argv env w argv = (case parse_args argv of Inl c \<Rightarrow> (Exit_code c, w) | Inr a \<Rightarrow> main_step env w a)"

section \<open>Rendering a namespace as a command line\<close>

text \<open>
  The inverse direction, used to state what the parser accepts: the command
  and every option in the attached form \<^verbatim>\<open>--name=value\<close>.
\<close>

definition command_str :: "command \<Rightarrow> string" where
  "command_str c =
     (case c of Cmd_ingest \<Rightarrow> ''ingest'' | Cmd_list_repos \<Rightarrow> ''list-repos'' | Cmd_list_profiles \<Rightarrow> ''list-profiles''
      | Cmd_list_ingested \<Rightarrow> ''list-ingested'' | Cmd_clean \<Rightarrow> ''clean'')"

definition render_args :: "cli_args \<Rightarrow> string list" where
  "render_args a =
     [command_str (cli_command a)] @
     (case cli_repo a of None \<Rightarrow> [] | Some r \<Rightarrow> [''--repo='' @ r]) @
     [''--profile='' @ cli_profile a] @
     (case cli_version a of None \<Rightarrow> [] | Some v \<Rightarrow> [''--version='' @ v]) @
     [''--config='' @ cli_config a, ''--keep='' @ py_str_int (cli_keep a)]"

section \<open>Classification and consumption of single strings\<close>

lemma option_strings_shape:
  "map_of option_strings os = Some a \<Longrightarrow> os \<noteq> [] \<and> hd os = CHR ''-'' \<and> CHR ''='' \<notin> set os"
  by (drule map_of_SomeD) (auto simp: option_strings_def)

lemma map_of_option_strings_eq: "CHR ''='' \<in> set s \<Longrightarrow> map_of option_strings s = None"
  using option_strings_shape by (cases "map_of option_strings s") auto

lemma parse_optional_attached:
  assumes "map_of option_strings os = Some a"
  shows "parse_optional (os @ CHR ''='' # v) = Some (Inr (T_opt (Some a) os (Some (True, v))))"
proof -
  have os: "os \<noteq> []" "hd os = CHR ''-''" "CHR ''='' \<notin> set os" using option_strings_shape [OF assms] by auto
  have tw: "takeWhile (\<lambda>c. c \<noteq> CHR ''='') (os @ CHR ''='' # v) = os"
    using os(3) by (subst takeWhile_append2) auto
  have dw: "dropWhile (\<lambda>c. c \<noteq> CHR ''='') (os @ CHR ''='' # v) = CHR ''='' # v"
    using os(3) by (subst dropWhile_append2) auto
  have "map_of option_strings (os @ CHR ''='' # v) = None" by (rule map_of_option_strings_eq) simp
  then show ?thesis using os tw dw assms by (simp add: parse_optional_def)
qed

lemma parse_optional_plain: "s = [] \<or> hd s \<noteq> CHR ''-'' \<Longrightarrow> parse_optional s = None"
  by (auto simp: parse_optional_def)

lemma option_strings_lookup:
  "map_of option_strings ''--repo'' = Some A_repo" "map_of option_strings ''--profile'' = Some A_profile"
  "map_of option_strings ''--version'' = Some A_version" "map_of option_strings ''--config'' = Some A_config"
  "map_of option_strings ''--keep'' = Some A_keep"
  by (simp_all add: option_strings_def)

lemma command_str_of: "command_of (command_str c) = Some c \<and> command_str c \<noteq> [] \<and> hd (command_str c) \<noteq> CHR ''-''"
  by (cases c) (simp_all add: command_of_def command_str_def)

lemmas parse_optional_options =
  parse_optional_attached [OF option_strings_lookup(1), simplified append_Cons append_Nil]
  parse_optional_attached [OF option_strings_lookup(2), simplified append_Cons append_Nil]
  parse_optional_attached [OF option_strings_lookup(3), simplified append_Cons append_Nil]
  parse_optional_attached [OF option_strings_lookup(4), simplified append_Cons append_Nil]
  parse_optional_attached [OF option_strings_lookup(5), simplified append_Cons append_Nil]

lemma parse_optional_command:
  "parse_optional (command_str c) = None \<and> command_str c \<noteq> ''--'' \<and> ''--'' \<noteq> command_str c"
  using parse_optional_plain [of "command_str c"] command_str_of [of c]
  by (auto dest: sym)

lemma scan_command:
  "scan True ns False (T_arg (command_str c) # T_opt o' os e # ts) =
   scan False (ns\<lparr>cli_command := c\<rparr>) False (T_opt o' os e # ts)"
proof -
  have "command_str c \<noteq> ''--''" using command_str_of [of c] by auto
  then show ?thesis
    using command_str_of [of c]
    by (simp add: positional_match_def is_sep_def positional_value_def)
qed

lemma parse_optional_tok: "parse_optional s = Some (Inr t) \<Longrightarrow> \<exists>a os e. t = T_opt a os e"
  by (auto simp: parse_optional_def Let_def split: if_splits option.splits list.splits prod.splits)

lemma opt_loop_Inl_plain: "opt_loop (Some a) os None rest acc = Inl c \<Longrightarrow> c = 2"
proof (cases rest)
  case Nil
  then show "opt_loop (Some a) os None rest acc = Inl c \<Longrightarrow> c = 2" by (simp split: if_splits)
next
  case (Cons t ts)
  then show "opt_loop (Some a) os None rest acc = Inl c \<Longrightarrow> c = 2" by (cases t) (simp_all split: if_splits)
qed

lemma opt_loop_Inl: "opt_loop a os e rest acc = Inl c \<Longrightarrow> c = 2"
proof (induction a os e rest acc rule: opt_loop.induct)
  case (2 a os rest acc)
  then show ?case by (rule opt_loop_Inl_plain)
next
  case (3 a os eq x rest acc)
  show ?case
  proof (cases "arg_count a = 0 \<and> os ! 1 \<noteq> CHR ''-'' \<and> x \<noteq> [] \<and> \<not> (eq \<or> hd x = CHR ''-'')")
    case g: True
    show ?thesis
    proof (cases "map_of option_strings [hd os, hd x]")
      case None
      then show ?thesis using g "3.prems" by (simp add: Let_def)
    next
      case (Some a')
      consider "tl x = []" | "tl x \<noteq> [] \<and> hd (tl x) = CHR ''=''" | "tl x \<noteq> [] \<and> hd (tl x) \<noteq> CHR ''=''"
        by blast
      then show ?thesis
      proof cases
        case 1
        then have "opt_loop (Some a') [hd os, hd x] None rest (acc @ [(a, [])]) = Inl c"
          using g Some "3.prems" by (simp add: Let_def del: opt_loop.simps(2))
        then show ?thesis by (rule opt_loop_Inl_plain)
      next
        case 2
        then have "opt_loop (Some a') [hd os, hd x] (Some (True, tl (tl x))) rest (acc @ [(a, [])]) = Inl c"
          using g Some "3.prems" by (subst (asm) opt_loop.simps) (simp add: Let_def del: opt_loop.simps)
        then show ?thesis using "3.IH"(2) g Some 2 by (simp add: Let_def)
      next
        case 3
        then have "opt_loop (Some a') [hd os, hd x] (Some (False, tl x)) rest (acc @ [(a, [])]) = Inl c"
          using g Some "3.prems" by (subst (asm) opt_loop.simps) (simp add: Let_def del: opt_loop.simps)
        then show ?thesis using "3.IH"(3) g Some 3 by (simp add: Let_def)
      qed
    qed
  next
    case False
    then show ?thesis using "3.prems" by (auto split: if_splits)
  qed
qed simp
lemma take_actions_Inl: "take_actions acts ns = Inl c \<Longrightarrow> c = 0 \<or> c = 2"
  by (induction acts ns rule: take_actions.induct) (auto split: option.splits)

lemma scan_Inl: "scan pend ns ex ts = Inl c \<Longrightarrow> c = 0 \<or> c = 2"
proof (induction pend ns ex ts rule: scan.induct)
  case (1 pend ns ex)
  then show ?case by (simp split: if_splits)
next
  case (2 pend ns ex a os e ts)
  show ?case
  proof (cases "opt_loop a os e ts []")
    case (Inl c')
    then show ?thesis using "2.prems" opt_loop_Inl by simp
  next
    case (Inr r)
    obtain acts n extra where r: "r = (acts, n, extra)" by (cases r) blast
    show ?thesis
    proof (cases "take_actions acts ns")
      case (Inl c')
      then show ?thesis using "2.prems" Inr r take_actions_Inl by simp
    next
      case (Inr ns')
      then have "scan pend ns' (ex \<or> extra \<noteq> []) (drop n ts) = Inl c"
        using "2.prems" \<open>opt_loop a os e ts [] = Inr r\<close> r by simp
      then show ?thesis using "2.IH" \<open>opt_loop a os e ts [] = Inr r\<close> r Inr by blast
    qed
  qed
next
  case (3 pend ns ex ts)
  then show ?case by (auto split: if_splits option.splits)
next
  case (4 pend ns ex s ts)
  then show ?case by (auto split: if_splits option.splits)
qed
lemma parse_args_Inl: "parse_args argv = Inl c \<Longrightarrow> c = 0 \<or> c = 2"
  by (auto simp: parse_args_def dest: scan_Inl split: sum.splits)

lemma main_step_Exit_code: "main_step env w a = (Exit_code c, w') \<Longrightarrow> c = 1 \<and> cli_command a = Cmd_ingest"
  by (auto simp: main_step_def manager_init_def dest!: ingest_Exit_code
      split: option.splits command.splits if_splits sum.splits prod.splits)

lemma parse_optional_repo: "parse_optional ''--repo'' = Some (Inr (T_opt (Some A_repo) ''--repo'' None))"
  by (simp add: parse_optional_def option_strings_def)

section \<open>Properties of the command line\<close>

text \<open>
  C11. Every namespace the program can act on is reachable from the command
  line: written with attached values, \<^verbatim>\<open>parse_args\<close> reads it back exactly,
  whatever the repository, profile, version and configuration strings hold
  (also an empty value or one starting with \<^verbatim>\<open>-\<close>) and whatever integer
  of at most 4300 digits \<^verbatim>\<open>--keep\<close> is. A \<^verbatim>\<open>--keep\<close> with more digits is
  rejected by \<^verbatim>\<open>int()\<close>, so the parser exits with status 2.
\<close>

theorem parse_render_roundtrip:
  "(\<bar>cli_keep a\<bar> < 10 ^ max_str_digits \<longrightarrow> parse_args (render_args a) = Inr a) \<and>
   (10 ^ max_str_digits \<le> \<bar>cli_keep a\<bar> \<longrightarrow> parse_args (render_args a) = Inl 2)"
  by (cases a; cases "cli_repo a"; cases "cli_version a")
     (simp_all add: parse_args_def render_args_def parse_optional_options parse_optional_command command_str_of
        positional_match_def is_sep_def positional_value_def str_int_ok_iff py_int_py_str_int_over
        default_args_def arg_count_def)

theorem parse_render_roundtrip_witness:
  "parse_args (render_args (default_args Cmd_clean)) = Inr (default_args Cmd_clean)"
proof -
  have "str_int_ok 3" by (rule str_int_ok_below [of _ 1]) (simp_all add: max_str_digits_def)
  then have "\<bar>cli_keep (default_args Cmd_clean)\<bar> < 10 ^ max_str_digits"
    by (simp add: default_args_def str_int_ok_iff)
  then show ?thesis using parse_render_roundtrip [of "default_args Cmd_clean"] by simp
qed

text \<open>
  C29. A value that looks like an option cannot follow \<^verbatim>\<open>--repo\<close> as a separate
  string: whatever the command, the parser reports the missing argument
  (exit status 2) instead of taking it as the repository name.
\<close>

theorem repo_dash_value_rejected:
  "parse_optional r \<noteq> None \<Longrightarrow> parse_args [command_str c, ''--repo'', r] = Inl 2"
proof -
  assume r: "parse_optional r \<noteq> None"
  have cmd: "parse_optional (command_str c) = None" "command_str c \<noteq> ''--''"
    using parse_optional_command [of c] by simp_all
  show ?thesis
  proof (cases "r = ''--''")
    case True
    then show ?thesis
      by (simp add: parse_args_def cmd parse_optional_repo scan_command arg_count_def del: scan.simps(4))
  next
    case False
    then obtain x where x: "parse_optional r = Some x" using r by auto
    show ?thesis
    proof (cases x)
      case (Inl u)
      then show ?thesis using False x by (simp add: parse_args_def cmd parse_optional_repo)
    next
      case (Inr t)
      then obtain a os e where "t = T_opt a os e" using parse_optional_tok x by blast
      then show ?thesis using False x Inr
        by (simp add: parse_args_def cmd parse_optional_repo scan_command arg_count_def del: scan.simps(4))
    qed
  qed
qed

theorem repo_dash_value_rejected_witness: "parse_args [''clean'', ''--repo'', ''-x''] = Inl 2"
  using repo_dash_value_rejected [of "''-x''" Cmd_clean]
  by (simp add: command_str_def parse_optional_def option_strings_def option_tuples_def negative_number_def
      all_digits_def digit_val_def)


text \<open>
  How \<^verbatim>\<open>main\<close> ends with an exit status: 0 (help) or 2 (a usage
  error) from the parser, leaving the world untouched, or 1 from an
  \<^verbatim>\<open>ingest\<close> the parser accepted.
\<close>

theorem main_argv_exit:
  "main_argv env w argv = (Exit_code c, w') \<Longrightarrow>
   (parse_args argv = Inl c \<and> (c = 0 \<or> c = 2) \<and> w' = w) \<or>
   (c = 1 \<and> (\<exists>a. parse_args argv = Inr a \<and> cli_command a = Cmd_ingest))"
  by (auto simp: main_argv_def dest: parse_args_Inl main_step_Exit_code split: sum.splits)

theorem main_argv_exit_witness: "parse_args [''-h''] = Inl 0"
proof -
  have p: "parse_args [''-h''] = Inl 0" by (simp add: parse_args_def parse_optional_def option_strings_def arg_count_def)
  then have "main_argv example_env example_world [''-h''] = (Exit_code 0, example_world)"
    by (simp add: main_argv_def)
  then show ?thesis using main_argv_exit [of example_env example_world "[''-h'']" 0 example_world] by simp
qed

end
