(* ===== verification/Spec2Isabelle.thy ===== *)
theory Spec2Isabelle
  imports Prelude PyStr Utf8 Config TokenFormat Externals TokenCount Version Environ World Ingest Clean Listing Cli Argparse
begin

text \<open>
  \<^bold>\<open>A verification development of \<^verbatim>\<open>src/utils/gitingest_manager.py\<close>.\<close>

  The program is one class, \<^verbatim>\<open>GitIngestManager\<close>, and a command-line entry
  point. An ingestion (\<^verbatim>\<open>ingest\<close>, lines 168--239) builds the command of the
  external tool from the configuration (\<^verbatim>\<open>_get_exclusions\<close>,
  \<^verbatim>\<open>_build_gitingest_command\<close>), runs it into a temporary file, measures the file
  (\<^verbatim>\<open>_count_tokens\<close> with its fallback estimate, the code-block count), resolves a
  version (\<^verbatim>\<open>_get_github_version\<close>), renames the file to
  \<open>{repo}_{version}_{tokens}.md\<close> (\<^verbatim>\<open>_format_token_count\<close>), hashes it
  (\<^verbatim>\<open>_get_file_hash\<close>), writes the metadata block into the configuration
  (\<^verbatim>\<open>_save_config\<close>) and appends to the log (\<^verbatim>\<open>_save_ingestion_log\<close>).

  \<^bold>\<open>Theories.\<close>
  \<^item> \<open>Prelude\<close>: bytes as \<open>8 word\<close>, the Python exceptions as the datatype
    \<open>py_exc\<close> (every raise of the code is an \<open>Inl\<close> of a sum), slicing
    \<^verbatim>\<open>xs[k:]\<close> and \<^verbatim>\<open>str.count\<close>.
  \<^item> \<open>PyStr\<close>: the string built-ins the code relies on, written out from CPython's
    semantics: \<^verbatim>\<open>str.strip()\<close> and \<^verbatim>\<open>str.split()\<close> with the Latin-1 whitespace
    set, \<^verbatim>\<open>int()\<close> (sign, underscores, surrounding whitespace), \<^verbatim>\<open>str(int)\<close>,
    \<^verbatim>\<open>split(sep)\<close>, \<^verbatim>\<open>endswith\<close> and \<^verbatim>\<open>in\<close>, with CPython 3.11's limit of 4300
    digits on \<^verbatim>\<open>int(s)\<close> and \<^verbatim>\<open>str(n)\<close> (\<open>max_str_digits\<close>, \<open>str_int_ok\<close>,
    \<open>digit_count\<close>; beyond it both raise \<^verbatim>\<open>ValueError\<close>); the round trip
    \<open>py_int (py_str_int n) = Some n\<close> exactly for \<open>|n| < 10^4300\<close>.
  \<^item> \<open>Utf8\<close>: strict UTF-8 decoding (table 3-7 of the Unicode standard) and the
    universal-newline translation of a text-mode read; the decoder is proved
    equivalent to the standard encoder of scalar values: it accepts a byte
    string exactly when it is the encoding of a list of scalar values, and
    returns that list.
  \<^item> \<open>Config\<close>: the YAML configuration as records (\<open>settings\<close>, \<open>repo_config\<close>,
    \<open>profile_config\<close>, \<open>ingest_metadata\<close>) with optional fields where the code
    uses \<^verbatim>\<open>.get\<close>; \<open>get_exclusions\<close> and \<open>build_gitingest_command\<close>; a parser
    of the tool's command line (its documented contract) for the round trip of
    the built command.
  \<^item> \<open>TokenFormat\<close>: \<^verbatim>\<open>_format_token_count\<close> with the IEEE double division
    \<^verbatim>\<open>count / 1_000_000\<close> and the \<^verbatim>\<open>:.1f\<close> rounding written out exactly (a
    53-bit mantissa rounded half to even at the binade of the quotient, then the
    decimal rounding half to even), including the \<^verbatim>\<open>OverflowError\<close> of
    integer division beyond the double range.
  \<^item> \<open>Externals\<close>, \<open>TokenCount\<close>, \<open>Version\<close>: the outcomes of
    \<^verbatim>\<open>subprocess.run\<close> and \<^verbatim>\<open>requests.get\<close> as data (\<open>proc_result\<close>,
    \<open>http_result\<close>, \<open>json\<close>); \<open>count_tokens\<close> (primary counter, fallback
    \<open>chars div 4\<close>, fatal malformed output) and \<open>get_github_version\<close> (remote
    URL to API URL, release tag, errors that escape). A process that cannot be
    started carries its \<^verbatim>\<open>OSError\<close> subclass (\<open>os_error\<close>, \<open>os_exc\<close>:
    \<^verbatim>\<open>FileNotFoundError\<close>, \<^verbatim>\<open>PermissionError\<close> or another \<^verbatim>\<open>OSError\<close>), which
    \<^verbatim>\<open>ingest\<close>, \<^verbatim>\<open>_count_tokens\<close> and \<^verbatim>\<open>_get_github_version\<close> let escape.
  \<^item> \<open>Environ\<close>: \<^verbatim>\<open>os.path.expandvars\<close> (CPython's \<^verbatim>\<open>posixpath\<close>
    version) as applied to the counter path at line 26: the search for
    \<open>$name\<close> or \<open>${name}\<close> (\<open>find_var\<close>, \<open>var_group\<close>), the substitution step
    (\<open>expand_step\<close>; an undefined variable is left in place and skipped), and
    the scanning loop \<open>expand_loop\<close> as a \<open>while_option\<close> whose termination
    is proved by the measure \<open>length path - i\<close>; the loop is proved equal to
    \<open>expand_ref\<close>, the \<^verbatim>\<open>re.sub\<close>-style substitution of every match from left
    to right, by the invariant \<open>expand_inv\<close> (processed prefix followed by the
    reference on the rest).
  \<^item> \<open>World\<close>: the state an invocation reads and writes as the record \<open>world\<close>
    (configuration file, output directory as an association list from names
    to contents and modification times, log document, presence of the counter
    binary) and the environment \<open>env\<close> of external outcomes and process
    variables; names and paths (\<open>counter_path\<close>, \<open>timestamp\<close>,
    \<open>temp_name\<close>, \<open>final_name\<close>) and \<^verbatim>\<open>Path.rename\<close>; a final name whose
    token part is a rendering of \<open>format_token_count\<close> never equals a
    temporary name.
  \<^item> \<open>Ingest\<close>: \<open>ingest\<close> and \<open>finish_ingest\<close> compose the components in the
    code's order; each exception is a branch \<open>Raised e\<close> returning the world at
    that point, so effects already performed stay visible; \<^verbatim>\<open>sys.exit(1)\<close> is
    \<open>Exit_code 1\<close>; \<^verbatim>\<open>_save_config\<close> is \<open>save_config\<close>.
  \<^item> \<open>Clean\<close>: \<^verbatim>\<open>clean_old\<close> (lines 308--339) over the directory in listing
    order: \<^verbatim>\<open>glob("*.md")\<close>, \<^verbatim>\<open>Path.stem\<close>, the key before the first
    underscore, the dictionary of groups in insertion order (\<open>group_files\<close>),
    the stable newest-first sort (\<open>by_mtime_desc\<close>) and the removal loop
    (\<open>remove_files\<close>). The loops are proved equal to reference definitions
    (\<open>groups_ref\<close> filters by key, \<open>victims\<close> collects \<^verbatim>\<open>files[keep:]\<close>).
  \<^item> \<open>Listing\<close>: \<^verbatim>\<open>list_ingested\<close> (lines 292--306) with its printed lines:
    the \<^verbatim>\<open>*.md\<close> files sorted by name (\<open>list_ingested\<close>, the loop
    \<open>list_entries\<close> and its body \<open>list_entry\<close>), the size in MiB as the double
    nearest to \<^verbatim>\<open>st_size / 2^20\<close> (\<open>double_nearest\<close>) printed with \<^verbatim>\<open>.2f\<close>
    (\<open>hundredths\<close>, \<open>fmt_fixed2\<close>), the byte count with the \<^verbatim>\<open>:,\<close> separators
    (\<open>fmt_thousands\<close>), and \<^verbatim>\<open>datetime.fromtimestamp\<close> as the environment's
    \<open>localtime\<close>, which may raise.
  \<^item> \<open>Cli\<close>: \<^verbatim>\<open>__init__\<close> and \<^verbatim>\<open>_load_config\<close> (lines 19--34) as
    \<open>manager_init\<close> (missing configuration file, \<^verbatim>\<open>mkdir\<close> of the output
    directory as an answer of the environment), and \<^verbatim>\<open>main\<close> (lines 342--374) as \<open>main_step\<close> over the parsed arguments,
    the listing commands, and the inductive set \<open>reachable\<close> of worlds obtained
    from a consistent start by any sequence of invocations under any
    behaviour of the external collaborators.
  \<^item> \<open>Argparse\<close>: \<^verbatim>\<open>parser.parse_args()\<close> (lines 343--352) as
    CPython 3.11's \<^verbatim>\<open>argparse\<close> runs it for exactly this parser: the
    classification of each string (\<open>parse_optional\<close>, \<open>classify\<close>: options,
    abbreviations of long options, attached values, negative numbers, the
    separator \<^verbatim>\<open>--\<close>), the consumption loop (\<open>opt_loop\<close> for combined
    short flags, \<open>take_actions\<close> with the \<^verbatim>\<open>int\<close> conversion of
    \<^verbatim>\<open>--keep\<close>, \<open>positional_match\<close> and \<open>positional_value\<close> for the
    pattern \<^verbatim>\<open>-*A-*\<close> of the command, \<open>scan\<close>), the exit statuses 0 of
    \<^verbatim>\<open>--help\<close> and 2 of a usage error; \<open>main_argv\<close> is \<^verbatim>\<open>main\<close> from the
    argument vector. The model was compared with the interpreter's own
    \<^verbatim>\<open>argparse\<close> on about 1800 random argument vectors over the option
    strings, their abbreviations and prefixes, values with \<^verbatim>\<open>-\<close>, \<^verbatim>\<open>=\<close>
    and spaces, and \<^verbatim>\<open>--\<close>, with the same result on every one.

  \<^bold>\<open>What is shown.\<close> Exclusions are the repository's patterns followed by the
  profile's; the built command parses back to the source, output path, size
  limit and exclusions, and building it fails only with \<^verbatim>\<open>KeyError\<close> or with
  the \<^verbatim>\<open>ValueError\<close> of a size beyond the digit limit; the human-readable token count is monotone and within
  the band's precision of the count; the counter's contract (for counts of at
  most 4300 digits) and fallback; the version resolver on
  HTTPS remotes and its escaping errors; a failed tool run exits 1 and leaves
  nothing behind; a successful run leaves exactly the tool's file under its
  final name, removes the temporary name, and records one metadata block in
  both the configuration and the log, the name's token part rendering the
  count \<^verbatim>\<open>_count_tokens\<close> returned; the renderings of the token count use
  only digits, a dot and the marks \<open>k\<close> and \<open>M\<close>, so the final name cannot
  collide with the temporary one. The library models carry their own
  lemmas: the UTF-8 decoder accepts exactly the well-formed byte strings and
  text is read back as written (\<open>Utf8\<close>), and the expansion of the counter
  path always terminates and substitutes every match exactly once
  (\<open>Environ\<close>). The cleaner never raises on a directory, keeps exactly \<open>min keep n\<close> files of
  each group, the newest ones, touches no other file, and is idempotent for
  \<open>keep \<ge> 0\<close>. Every reachable world satisfies \<open>world_inv\<close> (proved by rule
  induction over \<open>reachable\<close>): distinct names in the directory, a log that is
  a JSON list, and each metadata block of the configuration recorded in the
  log. From every reachable world with a configuration, one \<^verbatim>\<open>clean --keep k\<close>
  (\<open>k \<ge> 0\<close>) succeeds and reaches a reachable world with at most \<open>k\<close> artifacts
  per repository; after a successful ingestion whose clock is ahead of the
  directory, such a run with \<open>k \<ge> 1\<close> keeps the new artifact (ingestion and
  retention composed). \<^verbatim>\<open>main\<close> exits only with code 1 and only on the two documented paths;
  the listing commands change nothing; \<^verbatim>\<open>list-ingested\<close> prints one block
  per \<^verbatim>\<open>*.md\<close> file in name order, its MiB figures are within half a hundredth, and it fails only by the size
  division's overflow or the local-time conversion. Every namespace reaches
  the program from some command line (rendering it with attached values and
  parsing gives it back) exactly when its \<^verbatim>\<open>--keep\<close> has at most 4300 digits;
  a value that looks like an option cannot follow
  \<^verbatim>\<open>--repo\<close> as a separate string; \<^verbatim>\<open>main\<close> ends with status 0 or 2
  only from the parser, with the world untouched, and with 1 only for an
  accepted \<^verbatim>\<open>ingest\<close>. Findings proved as theorems: measuring
  errors leave the temporary file behind, a malformed log is a
  crash-consistency gap after the configuration is saved, SSH remotes produce
  a wrong API URL, a negative \<^verbatim>\<open>--keep -m\<close> deletes the \<open>m\<close> oldest files of
  every group on every run, and an artifact of repository \<open>a\<close> is deleted
  by \<^verbatim>\<open>--keep 1\<close> when repository \<open>a_b\<close> has a newer one. The development
  also keeps, as evaluated examples, the spec's end-to-end scenario and the
  spec's boundary cases of \<^verbatim>\<open>_format_token_count\<close>.

  \<^bold>\<open>Bounds and fuel.\<close> No fuel is needed: every loop of the code is over a
  finite list and is structural recursion, or \<open>function\<close> with a measure
  (\<open>py_split_ws\<close>), or the \<open>while_option\<close> of \<open>expand_loop\<close>, whose result is
  proved to exist for every environment and path (the scan position grows
  strictly within the path). Integers are unbounded as in Python; the only width is the
  double of \<^verbatim>\<open>count / 1e6\<close>, modelled exactly.

  \<^bold>\<open>Not modelled.\<close> YAML nulls (\<^verbatim>\<open>exclusions:\<close> with no value, a null
  profile) are read as absent keys, so the \<^verbatim>\<open>AttributeError\<close> or \<^verbatim>\<open>TypeError\<close>
  they would raise at lines 47 and 51--52 is not represented, and keys of a
  repository entry other than the four known ones are not represented (such an
  entry counts as empty at line 44); the decoding of a subprocess's output
  (\<^verbatim>\<open>text=True\<close>: output is a string); the locale encoding of the
  \<^verbatim>\<open>open()\<close> at line 190, taken to be UTF-8; \<^verbatim>\<open>Path.rename\<close> of a missing
  source (unreachable: the file was just read). The text \<^verbatim>\<open>argparse\<close> prints (usage, help and error
  messages; only the exit statuses are modelled) and options of
  \<^verbatim>\<open>argparse\<close> this parser does not use (\<^verbatim>\<open>fromfile_prefix_chars\<close>,
  \<^verbatim>\<open>nargs\<close> other than one, subparsers); the path \<^verbatim>\<open>--config\<close> names
  selects the configuration file of the world (\<open>config_file\<close> is the file at
  that path; an invocation reads and writes only that one); the imports and the \<^verbatim>\<open>__main__\<close> guard (lines 1--18,
  377--378), which carry no behaviour; edits of the files between invocations by anyone else
  (the invariant is about the program's own steps); YAML and JSON
  serialisation (the documents are values); the log file's place in the
  output directory (it is not a \<^verbatim>\<open>*.md\<close> file, so the cleaner never sees it);
  \<^verbatim>\<open>os.path.expandvars\<close> on byte paths (the counter path is a string);
  the printed text of \<^verbatim>\<open>ingest\<close>, \<^verbatim>\<open>list_repos\<close>, \<^verbatim>\<open>list_profiles\<close> and
  \<^verbatim>\<open>clean_old\<close> (only that of \<^verbatim>\<open>list_ingested\<close> is modelled); modification
  times as whole seconds (\<^verbatim>\<open>st_mtime\<close> is a float) and the time zone behind
  \<open>localtime\<close>; \<^verbatim>\<open>str(Path(...))\<close> normalisation of the output directory
  in the listing header; the tool, the counter, git and the
  GitHub API themselves (their outcomes are inputs, any outcome allowed);
  \<^verbatim>\<open>hashlib.md5\<close> (an opaque function of the environment); the file system
  beyond one flat output directory.
\<close>

end
